theory Spec2Isabelle
  imports Complex_Main
begin

section \<open>The G1 system of gsG1System.h\<close>

text \<open>
  A shallow embedding of the class \<^verbatim>\<open>gsG1System\<close> (src/gsG1Basis/gsG1System.h): the
  index allocator (\<^verbatim>\<open>initialize_twoPatch\<close>, \<^verbatim>\<open>initialize\<close>), the three insertion
  operations, \<^verbatim>\<open>finalize\<close>, \<^verbatim>\<open>solve\<close> and \<^verbatim>\<open>constructSparseG1Solution\<close>.

  Conventions of the model.
  \<^item> \<^verbatim>\<open>index_t\<close> values and the entries of the offset tables (stored by the source in
    \<^verbatim>\<open>gsVector\<close>, always with integral values) are \<open>int\<close>; signed overflow is
    undefined in C++ and is not modelled.  Values stored in a \<^verbatim>\<open>gsVector<size_t>\<close>
    and \<^verbatim>\<open>size_t\<close> subtractions are reduced modulo \<open>2 ^ 64\<close>.  The three dimensions
    \<^verbatim>\<open>dim_K\<close>, \<^verbatim>\<open>dim_G1_Dofs\<close> and \<^verbatim>\<open>dim_G1_Bdy\<close> are \<^verbatim>\<open>size_t\<close> members assigned from
    table entries; the conversion of a negative entry is undefined in C++, and the model
    keeps the integer value of the entry.  Sums of dimensions are not reduced.
  \<^item> \<^verbatim>\<open>real_t\<close> coefficients are \<open>real\<close>: rounding is not modelled, the comparisons
    against the tolerances are the exact ones.
  \<^item> Element access out of range (\<^verbatim>\<open>operator[]\<close>, \<^verbatim>\<open>at\<close>, \<^verbatim>\<open>patch(i)\<close>,
    \<^verbatim>\<open>basis(i)\<close>) and the two preconditions of Eigen's \<^verbatim>\<open>SparseMatrix::insert\<close>
    (indices inside the matrix, entry not yet present), as well as the agreement of
    dimensions in products, differences and block assignments, are assertions of the
    libraries; in the model they are error results.
\<close>

subsection \<open>Errors and checked containers\<close>

datatype error = IndexOutOfRange | ElementExists | SizeMismatch

definition ebind :: "error + 'a \<Rightarrow> ('a \<Rightarrow> error + 'b) \<Rightarrow> error + 'b" where
  "ebind m f = (case m of Inl e \<Rightarrow> Inl e | Inr v \<Rightarrow> f v)"

definition elem_at :: "'a list \<Rightarrow> int \<Rightarrow> error + 'a" where
  "elem_at xs i =
     (if 0 \<le> i \<and> i < int (length xs) then Inr (xs ! nat i) else Inl IndexOutOfRange)"

definition set_at :: "'a list \<Rightarrow> int \<Rightarrow> 'a \<Rightarrow> error + 'a list" where
  "set_at xs i v =
     (if 0 \<le> i \<and> i < int (length xs) then Inr (xs[nat i := v]) else Inl IndexOutOfRange)"

text \<open>\<^verbatim>\<open>v.last()\<close> of an Eigen vector.\<close>

definition last_at :: "'a list \<Rightarrow> error + 'a" where
  "last_at xs = elem_at xs (int (length xs) - 1)"

text \<open>A \<^verbatim>\<open>for\<close> loop over the given indices; the first failing iteration ends it.\<close>

fun for_loop :: "nat list \<Rightarrow> (nat \<Rightarrow> 's \<Rightarrow> error + 's) \<Rightarrow> 's \<Rightarrow> error + 's" where
  "for_loop [] body s = Inr s"
| "for_loop (i # is) body s =
     (case body i s of Inl e \<Rightarrow> Inl e | Inr s' \<Rightarrow> for_loop is body s')"

definition to_size_t :: "int \<Rightarrow> int" where
  "to_size_t x = x mod 2 ^ 64"

subsection \<open>Sparse matrices\<close>

text \<open>
  \<^verbatim>\<open>gsSparseMatrix\<close>: the dimensions and the stored entries, in the order of their
  insertion.  \<^verbatim>\<open>insert(i,j) = v\<close> asserts that \<open>(i, j)\<close> lies inside the matrix and
  is not stored yet.
\<close>

record sparse =
  rows :: int
  cols :: int
  entries :: "((int \<times> int) \<times> real) list"

definition sparse_resize :: "int \<Rightarrow> int \<Rightarrow> sparse" where
  "sparse_resize r c = \<lparr>rows = r, cols = c, entries = []\<rparr>"

definition sparse_insert :: "sparse \<Rightarrow> int \<Rightarrow> int \<Rightarrow> real \<Rightarrow> error + sparse" where
  "sparse_insert M i j v =
     (if \<not> (0 \<le> i \<and> i < rows M \<and> 0 \<le> j \<and> j < cols M) then Inl IndexOutOfRange
      else if (i, j) \<in> set (map fst (entries M)) then Inl ElementExists
      else Inr (M\<lparr>entries := entries M @ [((i, j), v)]\<rparr>))"


subsection \<open>Topology, bases and geometry\<close>

record patchSide =
  patch :: int
  m_index :: int

type_synonym patchCorner = patchSide

record boundaryInterface =
  first :: patchSide
  second :: patchSide

text \<open>
  A univariate B-spline basis as far as the allocator reads it: \<^verbatim>\<open>degree()\<close>
  (\<^verbatim>\<open>maxDegree()\<close> is the same number for one direction), \<^verbatim>\<open>size()\<close>,
  \<^verbatim>\<open>numElements()\<close> and \<^verbatim>\<open>knots().multiplicityIndex(i)\<close>.
\<close>

record gsBSplineBasis =
  degree :: int
  bsize :: int
  numElements :: int
  multiplicityIndex :: "int \<Rightarrow> int"

text \<open>The basis of one patch: its \<^verbatim>\<open>component(dir)\<close> and its \<^verbatim>\<open>size()\<close>.\<close>

record gsBasis =
  component :: "gsBSplineBasis list"
  tsize :: int

type_synonym gsMultiBasis = "gsBasis list"

text \<open>
  A planar patch: the Jacobian at a parameter point, as its two columns, and the
  coefficient vector \<^verbatim>\<open>coefs()\<close>.
\<close>

record gsGeometry =
  jacobian :: "real \<times> real \<Rightarrow> (real \<times> real) \<times> (real \<times> real)"
  coefs :: "real list"

text \<open>
  \<open>subInterfaces ps\<close> stands for \<^verbatim>\<open>temp_mp.computeTopology(); temp_mp.interfaces().size()\<close>
  on the multipatch made of the patches with the indices \<open>ps\<close>: the topology
  computation is not part of this class.
\<close>

record gsMultiPatch =
  patches :: "gsGeometry list"
  interfaces :: "boundaryInterface list"
  boundaries :: "patchSide list"
  vertices :: "patchCorner list list"
  subInterfaces :: "int list \<Rightarrow> nat"

definition determinant :: "(real \<times> real) \<Rightarrow> (real \<times> real) \<Rightarrow> real" where
  "determinant c0 c1 = fst c0 * snd c1 - fst c1 * snd c0"

subsection \<open>The system\<close>

record g1system =
  m_twoPatch :: bool
  m_neumannBdy :: bool
  m_isogeometric :: bool
  dim_K :: int
  dim_G1_Dofs :: int
  dim_G1_Bdy :: int
  numBasisFunctions :: "int list list"
  kindOfVertex :: "int list"
  sizePlusInt :: "int list"
  sizePlusBdy :: "int list"
  D_sparse :: sparse
  D_0_sparse :: sparse
  D_boundary_sparse :: sparse
  m_g1 :: "real list"
  kink :: "bool list"

text \<open>\<^verbatim>\<open>numBasisFunctions[k][i]\<close>, read and written, and \<^verbatim>\<open>numBasisFunctions[k].last()\<close>.\<close>

definition nbf :: "g1system \<Rightarrow> int \<Rightarrow> int \<Rightarrow> error + int" where
  "nbf sys k i = ebind (elem_at (numBasisFunctions sys) k) (\<lambda>t. elem_at t i)"

definition nbf_set :: "g1system \<Rightarrow> int \<Rightarrow> int \<Rightarrow> int \<Rightarrow> error + g1system" where
  "nbf_set sys k i v =
     ebind (elem_at (numBasisFunctions sys) k) (\<lambda>t.
     ebind (set_at t i v) (\<lambda>t'.
     ebind (set_at (numBasisFunctions sys) k t') (\<lambda>n.
     Inr (sys\<lparr>numBasisFunctions := n\<rparr>))))"

definition nbf_last :: "g1system \<Rightarrow> int \<Rightarrow> error + int" where
  "nbf_last sys k = ebind (elem_at (numBasisFunctions sys) k) last_at"

text \<open>\<^verbatim>\<open>numBasisFunctions[k] = numBasisFunctions[k].array() + c\<close>.\<close>

definition nbf_shift :: "g1system \<Rightarrow> int \<Rightarrow> int \<Rightarrow> error + g1system" where
  "nbf_shift sys k c =
     ebind (elem_at (numBasisFunctions sys) k) (\<lambda>t.
     ebind (set_at (numBasisFunctions sys) k (map (\<lambda>x. x + c) t)) (\<lambda>n.
     Inr (sys\<lparr>numBasisFunctions := n\<rparr>)))"

text \<open>
  The constructor: the three mode flags, \<^verbatim>\<open>numBasisFunctions.resize(7)\<close>, everything
  else empty.
\<close>

definition construct :: "bool \<Rightarrow> bool \<Rightarrow> bool \<Rightarrow> g1system" where
  "construct neumannBdy twoPatch isogeometric =
     \<lparr>m_twoPatch = twoPatch, m_neumannBdy = neumannBdy, m_isogeometric = isogeometric,
      dim_K = 0, dim_G1_Dofs = 0, dim_G1_Bdy = 0,
      numBasisFunctions = replicate 7 [],
      kindOfVertex = [], sizePlusInt = [], sizePlusBdy = [],
      D_sparse = sparse_resize 0 0, D_0_sparse = sparse_resize 0 0,
      D_boundary_sparse = sparse_resize 0 0,
      m_g1 = [], kink = []\<rparr>"

subsection \<open>Index allocation\<close>

text \<open>The \<^verbatim>\<open>setZero\<close> calls that open both initializers.\<close>

definition allocate_tables :: "gsMultiPatch \<Rightarrow> g1system \<Rightarrow> g1system" where
  "allocate_tables mp sys =
     (let numPatches = length (patches mp);
          nI = length (interfaces mp);
          nB = length (boundaries mp);
          nV = length (vertices mp)
      in sys\<lparr>sizePlusInt := replicate nI 0,
              sizePlusBdy := replicate nB 0,
              kindOfVertex := replicate nV 0,
              numBasisFunctions :=
                [replicate (nI + 1) 0, replicate (nB + 1) 0, replicate (nV + 1) 0,
                 replicate (nB + 1) 0, replicate (nV + 1) 0,
                 replicate (numPatches + 1) 0, replicate (numPatches + 1) 0]\<rparr>)"

text \<open>
  \<^verbatim>\<open>for i < b.nBases(): numBasisFunctions[k][i+1] = numBasisFunctions[k][i] + b.basis(i).size()\<close>
\<close>

definition patch_sizes_step :: "int \<Rightarrow> gsMultiBasis \<Rightarrow> nat \<Rightarrow> g1system \<Rightarrow> error + g1system" where
  "patch_sizes_step k b i sys =
     ebind (nbf sys k (int i)) (\<lambda>prev.
     ebind (elem_at b (int i)) (\<lambda>bi.
     nbf_set sys k (int i + 1) (prev + tsize bi)))"

definition patch_sizes :: "int \<Rightarrow> gsMultiBasis \<Rightarrow> g1system \<Rightarrow> error + g1system" where
  "patch_sizes k b sys = for_loop [0..<length b] (patch_sizes_step k b) sys"

text \<open>The side index selects the direction along the side: \<^verbatim>\<open>m_index < 3 ? 1 : 0\<close>.\<close>

definition side_dir :: "patchSide \<Rightarrow> int" where
  "side_dir s = (if m_index s < 3 then 1 else 0)"

definition edge_basis :: "gsMultiBasis \<Rightarrow> patchSide \<Rightarrow> error + gsBSplineBasis" where
  "edge_basis b s = ebind (elem_at b (patch s)) (\<lambda>pb. elem_at (component pb) (side_dir s))"

text \<open>
  The two kink tests of \<^verbatim>\<open>initialize_twoPatch\<close>: the first Jacobian columns of patch 0
  and patch 1, at the points \<open>(1,0)\<close>, \<open>(0,0)\<close> for the end \<open>u = 0\<close> and \<open>(1,1)\<close>, \<open>(0,1)\<close>
  for the end \<open>u = 1\<close>; a kink when the squared determinant exceeds \<open>1e-25\<close>.
\<close>

definition kink_test :: "gsMultiPatch \<Rightarrow> real \<times> real \<Rightarrow> real \<times> real \<Rightarrow> error + bool" where
  "kink_test mp pt0 pt1 =
     ebind (elem_at (patches mp) 0) (\<lambda>g0.
     ebind (elem_at (patches mp) 1) (\<lambda>g1.
     (let d = determinant (fst (jacobian g0 pt0)) (fst (jacobian g1 pt1))
      in Inr (d * d > 1 / 10 ^ 25))))"

definition bool_int :: "bool \<Rightarrow> int" where
  "bool_int b = (if b then 1 else 0)"

text \<open>
  The degree, regularity and element count of an interface in \<^verbatim>\<open>initialize_twoPatch\<close>:
  \<^verbatim>\<open>m_p = p_1 > p_2 ? p_2 : p_1\<close>,
  \<^verbatim>\<open>m_r = m_p - mult > m_p - 2 ? m_p - 2 : m_p - mult\<close> with
  \<^verbatim>\<open>mult = basis_1.knots().multiplicityIndex(p_1 + 1)\<close>, and
  \<^verbatim>\<open>m_n\<close> the smaller of the two \<^verbatim>\<open>numElements()\<close>.
\<close>

definition interface_degree :: "gsBSplineBasis \<Rightarrow> gsBSplineBasis \<Rightarrow> int" where
  "interface_degree basis_1 basis_2 =
     (let p_1 = degree basis_1; p_2 = degree basis_2 in if p_1 > p_2 then p_2 else p_1)"

definition interface_regularity :: "gsBSplineBasis \<Rightarrow> gsBSplineBasis \<Rightarrow> int" where
  "interface_regularity basis_1 basis_2 =
     (let m_p = interface_degree basis_1 basis_2;
          mult = multiplicityIndex basis_1 (degree basis_1 + 1)
      in if m_p - mult > m_p - 2 then m_p - 2 else m_p - mult)"

definition interface_elements :: "gsBSplineBasis \<Rightarrow> gsBSplineBasis \<Rightarrow> int" where
  "interface_elements basis_1 basis_2 =
     (if numElements basis_1 > numElements basis_2
      then numElements basis_2 else numElements basis_1)"

text \<open>One iteration of the interface loop of \<^verbatim>\<open>initialize_twoPatch\<close>.\<close>

definition interface_step_twoPatch ::
  "gsMultiPatch \<Rightarrow> gsMultiBasis \<Rightarrow> int \<Rightarrow> nat \<Rightarrow> g1system \<Rightarrow> error + g1system" where
  "interface_step_twoPatch mp mb0 innerKnotMulti i sys =
     ebind (elem_at (interfaces mp) (int i)) (\<lambda>item.
     ebind (edge_basis mb0 (first item)) (\<lambda>basis_1.
     ebind (edge_basis mb0 (second item)) (\<lambda>basis_2.
     (let m_p = interface_degree basis_1 basis_2;
          m_r = interface_regularity basis_1 basis_2;
          m_n = interface_elements basis_1 basis_2;
          numIntBdy0 = (if m_neumannBdy sys then 8 else 4)
      in
     ebind (kink_test mp (1, 0) (0, 0)) (\<lambda>k0.
     ebind (kink_test mp (1, 1) (0, 1)) (\<lambda>k1.
     (let numIntBdy = numIntBdy0 + bool_int k0 + bool_int k1;
          numInnerKnot = (if innerKnotMulti > 0 \<and> m_p - 1 - m_r = 1 then 3 else 0);
          sys1 = sys\<lparr>kink := [k0, k1]\<rparr>
      in
     ebind (nbf sys1 0 (int i)) (\<lambda>prev.
     ebind (nbf_set sys1 0 (int i + 1)
              (prev + 2 * (m_p - m_r - 1) * (m_n - 1) + 2 * m_p + 1 - numIntBdy
                 + 2 * numInnerKnot)) (\<lambda>sys2.
     ebind (set_at (sizePlusInt sys2) (int i)
              (to_size_t ((m_p - m_r - 1) * (m_n - 1) + m_p + 1 + numInnerKnot))) (\<lambda>sp.
     Inr (sys2\<lparr>sizePlusInt := sp\<rparr>)))))))))))"

text \<open>One iteration of the boundary loop of \<^verbatim>\<open>initialize_twoPatch\<close>.\<close>

definition boundary_step_twoPatch ::
  "gsMultiPatch \<Rightarrow> gsMultiBasis \<Rightarrow> nat \<Rightarrow> g1system \<Rightarrow> error + g1system" where
  "boundary_step_twoPatch mp mb0 i sys =
     ebind (elem_at (boundaries mp) (int i)) (\<lambda>side.
     ebind (edge_basis mb0 side) (\<lambda>basis_edge.
     ebind (nbf sys 3 (int i)) (\<lambda>prev3.
     ebind (nbf sys 1 (int i)) (\<lambda>prev1.
     ebind (if m_neumannBdy sys
            then ebind (nbf_set sys 3 (int i + 1) (prev3 + 2 * bsize basis_edge - 8))
                   (\<lambda>s. nbf_set s 1 (int i + 1) prev1)
            else ebind (nbf_set sys 3 (int i + 1) (prev3 + bsize basis_edge - 4))
                   (\<lambda>s. nbf_set s 1 (int i + 1) (prev1 + bsize basis_edge - 4))) (\<lambda>sys2.
     ebind (set_at (sizePlusBdy sys2) (int i) (to_size_t (bsize basis_edge - 4))) (\<lambda>sp.
     Inr (sys2\<lparr>sizePlusBdy := sp\<rparr>)))))))"

text \<open>
  The classification of a vertex with more than one corner: \<^verbatim>\<open>temp_mp\<close> collects
  \<^verbatim>\<open>mp.patch(...)\<close> of every corner; the vertex is interior when the number of corners
  equals the number of interfaces of \<^verbatim>\<open>temp_mp\<close>.
\<close>

definition vertex_is_interior :: "gsMultiPatch \<Rightarrow> patchCorner list \<Rightarrow> error + bool" where
  "vertex_is_interior mp cs =
     ebind (for_loop [0..<length cs]
              (\<lambda>j (u::unit). ebind (elem_at (patches mp) (patch (cs ! j))) (\<lambda>g. Inr u)) ())
       (\<lambda>u. Inr (length cs = subInterfaces mp (map patch cs)))"

text \<open>
  \<^verbatim>\<open>kindOfVertex[i] = kind; numBasisFunctions[2][i+1] = numBasisFunctions[2][i] + n2;
  numBasisFunctions[4][i+1] = numBasisFunctions[4][i] + n4\<close>
\<close>

definition set_vertex :: "nat \<Rightarrow> int \<Rightarrow> int \<Rightarrow> int \<Rightarrow> g1system \<Rightarrow> error + g1system" where
  "set_vertex i kind n2 n4 sys =
     ebind (set_at (kindOfVertex sys) (int i) kind) (\<lambda>kv.
     (let sys1 = sys\<lparr>kindOfVertex := kv\<rparr> in
     ebind (nbf sys1 2 (int i)) (\<lambda>prev2.
     ebind (nbf_set sys1 2 (int i + 1) (prev2 + n2)) (\<lambda>sys2.
     ebind (nbf sys2 4 (int i)) (\<lambda>prev4.
     nbf_set sys2 4 (int i + 1) (prev4 + n4))))))"

text \<open>One iteration of the vertex loop of \<^verbatim>\<open>initialize_twoPatch\<close>.\<close>

definition vertex_step_twoPatch :: "gsMultiPatch \<Rightarrow> nat \<Rightarrow> g1system \<Rightarrow> error + g1system" where
  "vertex_step_twoPatch mp i sys =
     ebind (elem_at (vertices mp) (int i)) (\<lambda>cs.
     if length cs = 1 then
       (if m_neumannBdy sys then set_vertex i (- 1) 0 4 sys else set_vertex i (- 1) 1 3 sys)
     else
       ebind (vertex_is_interior mp cs) (\<lambda>interior.
       if interior then set_vertex i 0 0 0 sys
       else if m_neumannBdy sys then set_vertex i 1 0 4 sys
       else
         ebind (set_vertex i 1 0 2 sys) (\<lambda>sys1.
         ebind (elem_at (kink sys1) (if i = 1 then 0 else 1)) (\<lambda>k.
         if k then ebind (nbf sys1 4 (int i + 1)) (\<lambda>cur. nbf_set sys1 4 (int i + 1) (cur + 1))
         else Inr sys1))))"

text \<open>The chaining of the tables and the set-up of the matrices, shared by both initializers.\<close>

definition chain_tables :: "g1system \<Rightarrow> error + g1system" where
  "chain_tables sys =
     ebind (nbf_last sys 0) (\<lambda>l0. ebind (nbf_shift sys 1 l0) (\<lambda>sys1.
     ebind (nbf_last sys1 1) (\<lambda>l1. ebind (nbf_shift sys1 2 l1) (\<lambda>sys2.
     ebind (nbf_last sys2 2) (\<lambda>l2. ebind (nbf_shift sys2 3 l2) (\<lambda>sys3.
     ebind (nbf_last sys3 3) (\<lambda>l3. nbf_shift sys3 4 l3)))))))"

definition setup_matrices :: "g1system \<Rightarrow> error + g1system" where
  "setup_matrices sys =
     ebind (nbf_last sys 6) (\<lambda>dK.
     ebind (nbf_last sys 2) (\<lambda>dDofs.
     ebind (nbf_last sys 4) (\<lambda>l4.
     ebind (nbf sys 3 0) (\<lambda>f3.
     (let dBdy = l4 - f3;
          n = dDofs + dBdy + dK
      in Inr (sys\<lparr>dim_K := dK, dim_G1_Dofs := dDofs, dim_G1_Bdy := dBdy,
                  D_sparse := sparse_resize n dK,
                  D_0_sparse := sparse_resize n dK,
                  D_boundary_sparse := sparse_resize n dK,
                  m_g1 := replicate (nat n) 0\<rparr>))))))"

text \<open>
  \<^verbatim>\<open>initialize_twoPatch(mp, mb, innerKnotMulti)\<close>.  The table of the secondary
  numbering (category 6) continues the patch table when two basis families are given
  and the mode is not isogeometric, and repeats it in isogeometric mode.
\<close>

definition interface_columns_twoPatch :: "gsMultiBasis list \<Rightarrow> g1system \<Rightarrow> error + g1system" where
  "interface_columns_twoPatch mb sys =
     (if \<not> m_isogeometric sys \<and> length mb = 2 then
        ebind (nbf_last sys 5) (\<lambda>l5.
        ebind (nbf_set sys 6 0 l5) (\<lambda>sys1.
        ebind (elem_at mb 1) (\<lambda>mb1. patch_sizes 6 mb1 sys1)))
      else if m_isogeometric sys then
        ebind (elem_at mb 0) (\<lambda>mb0. patch_sizes 6 mb0 sys)
      else Inr sys)"

definition initialize_twoPatch ::
  "gsMultiPatch \<Rightarrow> gsMultiBasis list \<Rightarrow> int \<Rightarrow> g1system \<Rightarrow> error + g1system" where
  "initialize_twoPatch mp mb innerKnotMulti sys =
     ebind (elem_at mb 0) (\<lambda>mb0.
     ebind (patch_sizes 5 mb0 (allocate_tables mp sys)) (\<lambda>sys1.
     ebind (interface_columns_twoPatch mb sys1) (\<lambda>sys2.
     ebind (for_loop [0..<length (interfaces mp)]
              (interface_step_twoPatch mp mb0 innerKnotMulti) sys2) (\<lambda>sys3.
     ebind (for_loop [0..<length (boundaries mp)] (boundary_step_twoPatch mp mb0) sys3) (\<lambda>sys4.
     ebind (for_loop [0..<length (vertices mp)] (vertex_step_twoPatch mp) sys4) (\<lambda>sys5.
     ebind (chain_tables sys5) setup_matrices))))))"

text \<open>\<^verbatim>\<open>initialize(mp, mb)\<close>: the general allocator, with the regularity fixed to 1.\<close>

definition interface_step ::
  "gsMultiPatch \<Rightarrow> gsMultiBasis \<Rightarrow> nat \<Rightarrow> g1system \<Rightarrow> error + g1system" where
  "interface_step mp mb0 i sys =
     ebind (elem_at (interfaces mp) (int i)) (\<lambda>item.
     ebind (edge_basis mb0 (first item)) (\<lambda>basis_edge.
     (let m_p = degree basis_edge;
          m_r = 1;
          m_n = numElements basis_edge
      in
     ebind (nbf sys 0 (int i)) (\<lambda>prev.
     ebind (nbf_set sys 0 (int i + 1)
              (prev + 2 * (m_p - m_r - 1) * (m_n - 1) + 2 * m_p - 9)) (\<lambda>sys2.
     ebind (set_at (sizePlusInt sys2) (int i)
              (to_size_t ((m_p - m_r - 1) * (m_n - 1) + m_p + 1))) (\<lambda>sp.
     Inr (sys2\<lparr>sizePlusInt := sp\<rparr>)))))))"

definition boundary_step ::
  "gsMultiPatch \<Rightarrow> gsMultiBasis \<Rightarrow> nat \<Rightarrow> g1system \<Rightarrow> error + g1system" where
  "boundary_step mp mb0 i sys =
     ebind (elem_at (boundaries mp) (int i)) (\<lambda>side.
     ebind (edge_basis mb0 side) (\<lambda>basis_edge.
     (let m_p = degree basis_edge;
          m_r = 1;
          m_n = numElements basis_edge
      in
     ebind (nbf sys 3 (int i)) (\<lambda>prev3.
     ebind (nbf sys 1 (int i)) (\<lambda>prev1.
     ebind (if m_neumannBdy sys
            then ebind (nbf_set sys 3 (int i + 1)
                          (prev3 + 2 * (m_p - m_r - 1) * (m_n - 1) + 2 * m_p + 1 - 10))
                   (\<lambda>s. nbf_set s 1 (int i + 1) prev1)
            else ebind (nbf_set sys 3 (int i + 1)
                          (prev3 + (m_p - m_r - 1) * (m_n - 1) + m_p + 1 - 6))
                   (\<lambda>s. nbf_set s 1 (int i + 1)
                          (prev1 + (m_p - m_r - 1) * (m_n - 1) + m_p - 4))) (\<lambda>sys2.
     ebind (set_at (sizePlusBdy sys2) (int i)
              (to_size_t ((m_p - m_r - 1) * (m_n - 1) + m_p + 1))) (\<lambda>sp.
     Inr (sys2\<lparr>sizePlusBdy := sp\<rparr>))))))))"

definition vertex_step :: "gsMultiPatch \<Rightarrow> nat \<Rightarrow> g1system \<Rightarrow> error + g1system" where
  "vertex_step mp i sys =
     ebind (elem_at (vertices mp) (int i)) (\<lambda>cs.
     if length cs = 1 then set_vertex i (- 1) 1 6 sys
     else
       ebind (vertex_is_interior mp cs) (\<lambda>interior.
       if interior then set_vertex i 0 6 0 sys
       else set_vertex i 1 3 6 sys))"

definition initialize :: "gsMultiPatch \<Rightarrow> gsMultiBasis list \<Rightarrow> g1system \<Rightarrow> error + g1system" where
  "initialize mp mb sys =
     ebind (elem_at mb 0) (\<lambda>mb0.
     ebind (patch_sizes 5 mb0 (allocate_tables mp sys)) (\<lambda>sys1.
     ebind (if m_isogeometric sys1 then patch_sizes 6 mb0 sys1 else Inr sys1) (\<lambda>sys2.
     ebind (for_loop [0..<length (interfaces mp)] (interface_step mp mb0) sys2) (\<lambda>sys3.
     ebind (for_loop [0..<length (boundaries mp)] (boundary_step mp mb0) sys3) (\<lambda>sys4.
     ebind (for_loop [0..<length (vertices mp)] (vertex_step mp) sys4) (\<lambda>sys5.
     ebind (chain_tables sys5) setup_matrices))))))"

text \<open>The constructor \<^verbatim>\<open>gsG1System(mp, mb, innerKnotMulti, neumannBdy, twoPatch, isogeometric)\<close>.\<close>

definition gsG1System ::
  "gsMultiPatch \<Rightarrow> gsMultiBasis list \<Rightarrow> int \<Rightarrow> bool \<Rightarrow> bool \<Rightarrow> bool \<Rightarrow> error + g1system" where
  "gsG1System mp mb innerKnotMulti neumannBdy twoPatch isogeometric =
     (if twoPatch
      then initialize_twoPatch mp mb innerKnotMulti (construct neumannBdy twoPatch isogeometric)
      else initialize mp mb (construct neumannBdy twoPatch isogeometric))"

subsection \<open>Insertion into the transformation matrix\<close>

text \<open>
  The pruning test of every insertion site is \<^verbatim>\<open>c * c > 10e-25\<close>; the literal
  \<^verbatim>\<open>10e-25\<close> is \<open>10 \<times> 10\<^sup>-\<^sup>2\<^sup>5\<close>.
\<close>

definition kept :: "real \<Rightarrow> bool" where
  "kept c \<longleftrightarrow> c * c > 10 / 10 ^ 25"

text \<open>\<^verbatim>\<open>D_sparse.insert(ii,jj) = c\<close>, with \<open>ii\<close> and \<open>jj\<close> read from the tables first.\<close>

definition insert_D :: "g1system \<Rightarrow> error + int \<Rightarrow> error + int \<Rightarrow> real \<Rightarrow> error + g1system" where
  "insert_D sys ii jj c =
     ebind ii (\<lambda>i. ebind jj (\<lambda>j.
     ebind (sparse_insert (D_sparse sys) i j c) (\<lambda>D. Inr (sys\<lparr>D_sparse := D\<rparr>))))"

definition offset :: "error + int \<Rightarrow> int \<Rightarrow> error + int" where
  "offset base d = ebind base (\<lambda>b. Inr (b + d))"

text \<open>
  \<^verbatim>\<open>jj = numBasisFunctions[6][np == 0 ? item.first().patch : item.second().patch] + j\<close>
\<close>

definition interface_column :: "g1system \<Rightarrow> boundaryInterface \<Rightarrow> nat \<Rightarrow> nat \<Rightarrow> error + int" where
  "interface_column sys item np j =
     offset (nbf sys 6 (if np = 0 then patch (first item) else patch (second item))) (int j)"

text \<open>
  The body of the two loops of \<^verbatim>\<open>insertInterfaceEdge\<close>, for the coefficient \<open>j\<close> of the
  patch \<open>np\<close> of the basis function, whose coefficient vector is \<open>cs\<close>.
\<close>

definition insertInterfaceEdge_body ::
  "boundaryInterface \<Rightarrow> int \<Rightarrow> int \<Rightarrow> nat \<Rightarrow> real list \<Rightarrow> nat \<Rightarrow> g1system \<Rightarrow> error + g1system" where
  "insertInterfaceEdge_body item iID bfID np cs j sys =
     (if m_twoPatch sys \<and> \<not> m_neumannBdy sys then
        ebind (elem_at (sizePlusInt sys) 0) (\<lambda>plusInt.
        if bfID = 0 \<or> bfID = plusInt - 1 \<or> bfID = plusInt \<or> bfID = 2 * plusInt - 2 then
          ebind (if bfID = 0 \<or> bfID = plusInt then
                   ebind (elem_at cs (int j)) (\<lambda>c.
                   if kept c
                   then insert_D sys (offset (nbf sys 4 1) (if bfID = 0 then 0 else 1))
                          (interface_column sys item np j) c
                   else Inr sys)
                 else Inr sys) (\<lambda>sys1.
          if bfID = plusInt - 1 \<or> bfID = 2 * plusInt - 2 then
            ebind (elem_at cs (int j)) (\<lambda>c.
            if kept c
            then insert_D sys1 (offset (nbf sys1 4 3) (if bfID = plusInt - 1 then 0 else 1))
                   (interface_column sys1 item np j) c
            else Inr sys1)
          else Inr sys1)
        else
          ebind (if bfID = 1 then elem_at (kink sys) 0 else Inr False) (\<lambda>k0.
          if bfID = 1 \<and> k0 then
            ebind (elem_at cs (int j)) (\<lambda>c.
            if kept c
            then insert_D sys (offset (nbf sys 4 1) 2) (interface_column sys item np j) c
            else Inr sys)
          else
            ebind (if bfID = plusInt - 2 then elem_at (kink sys) 1 else Inr False) (\<lambda>k1.
            if bfID = plusInt - 2 \<and> k1 then
              ebind (elem_at cs (int j)) (\<lambda>c.
              if kept c
              then insert_D sys (offset (nbf sys 4 3) 2) (interface_column sys item np j) c
              else Inr sys)
            else
              ebind (elem_at cs (int j)) (\<lambda>c.
              if kept c then
                ebind (elem_at (kink sys) 1) (\<lambda>kink1.
                ebind (if bfID < plusInt - (if kink1 then 2 else 1)
                       then ebind (elem_at (kink sys) 0) (\<lambda>kink0.
                              Inr (if kink0 then 2 else 1))
                       else ebind (elem_at (kink sys) 0) (\<lambda>kink0.
                              Inr (3 + (if kink0 then 1 else 0) + (if kink1 then 1 else 0))))
                  (\<lambda>bfID_shift.
                insert_D sys (offset (nbf sys 0 iID) (bfID - bfID_shift))
                  (interface_column sys item np j) c))
              else Inr sys))))
      else
        ebind (elem_at cs (int j)) (\<lambda>c.
        if kept c
        then insert_D sys (offset (nbf sys 0 iID) bfID) (interface_column sys item np j) c
        else Inr sys))"

text \<open>
  \<^verbatim>\<open>insertInterfaceEdge(mp, item, iID, bfID)\<close>: \<open>mp\<close> holds the basis function, one
  patch for each side of the interface.
\<close>

definition insertInterfaceEdge ::
  "gsMultiPatch \<Rightarrow> boundaryInterface \<Rightarrow> int \<Rightarrow> int \<Rightarrow> g1system \<Rightarrow> error + g1system" where
  "insertInterfaceEdge mp item iID bfID sys =
     for_loop [0..<2] (\<lambda>np s.
       ebind (elem_at (patches mp) (int np)) (\<lambda>g.
       for_loop [0..<length (coefs g)]
         (insertInterfaceEdge_body item iID bfID np (coefs g)) s)) sys"

text \<open>
  The row of \<^verbatim>\<open>insertBoundaryEdge\<close>.  \<open>bfID\<close> is a \<^verbatim>\<open>size_t\<close>, and so is
  \<^verbatim>\<open>sizePlusBdy[bID] - 6\<close>, which wraps around below 6.
\<close>

definition boundary_row :: "g1system \<Rightarrow> int \<Rightarrow> nat \<Rightarrow> error + int" where
  "boundary_row sys bID bfID =
     (if m_twoPatch sys \<and> \<not> m_neumannBdy sys then
        ebind (elem_at (sizePlusBdy sys) bID) (\<lambda>sp.
        if int bfID < sp then offset (nbf sys 3 bID) (int bfID)
        else offset (nbf sys 1 bID) (int bfID - sp))
      else if \<not> m_neumannBdy sys then
        ebind (elem_at (sizePlusBdy sys) bID) (\<lambda>sp.
        if int bfID < to_size_t (sp - 6) then offset (nbf sys 3 bID) (int bfID)
        else offset (nbf sys 1 bID) (int bfID - sp + 6))
      else offset (nbf sys 3 bID) (int bfID))"

definition insertBoundaryEdge_body ::
  "patchSide \<Rightarrow> int \<Rightarrow> nat \<Rightarrow> real list \<Rightarrow> nat \<Rightarrow> g1system \<Rightarrow> error + g1system" where
  "insertBoundaryEdge_body item bID bfID cs j sys =
     ebind (elem_at cs (int j)) (\<lambda>c.
     if kept c
     then insert_D sys (boundary_row sys bID bfID) (offset (nbf sys 5 (patch item)) (int j)) c
     else Inr sys)"

definition insertBoundaryEdge ::
  "gsMultiPatch \<Rightarrow> patchSide \<Rightarrow> int \<Rightarrow> nat \<Rightarrow> g1system \<Rightarrow> error + g1system" where
  "insertBoundaryEdge mp item bID bfID sys =
     ebind (elem_at (patches mp) 0) (\<lambda>g.
     for_loop [0..<length (coefs g)] (insertBoundaryEdge_body item bID bfID (coefs g)) sys)"

text \<open>The row of \<^verbatim>\<open>insertVertex\<close>; \<open>ii\<close> keeps its initial value \<open>-1\<close> for an unknown kind.\<close>

definition vertex_row :: "g1system \<Rightarrow> int \<Rightarrow> int \<Rightarrow> int \<Rightarrow> error + int" where
  "vertex_row sys vID nDofs bfID =
     ebind (elem_at (kindOfVertex sys) vID) (\<lambda>kv.
     if kv = 0 then offset (nbf sys 2 vID) bfID
     else if kv = - 1 then
       (if bfID < nDofs then offset (nbf sys 2 vID) bfID
        else offset (nbf sys 4 vID) (bfID - nDofs))
     else if kv = 1 then
       (if bfID < nDofs then offset (nbf sys 2 vID) bfID
        else offset (nbf sys 4 vID) (bfID - nDofs))
     else Inr (- 1))"

definition insertVertex_body ::
  "int list \<Rightarrow> int \<Rightarrow> int \<Rightarrow> int \<Rightarrow> nat \<Rightarrow> real list \<Rightarrow> nat \<Rightarrow> g1system \<Rightarrow> error + g1system" where
  "insertVertex_body patchIndex vID nDofs bfID np cs j sys =
     ebind (elem_at cs (int j)) (\<lambda>c.
     if kept c
     then insert_D sys (vertex_row sys vID nDofs bfID)
            (ebind (elem_at patchIndex (int np)) (\<lambda>p. offset (nbf sys 5 p) (int j))) c
     else Inr sys)"

definition insertVertex ::
  "gsMultiPatch \<Rightarrow> int list \<Rightarrow> int \<Rightarrow> int \<Rightarrow> int \<Rightarrow> g1system \<Rightarrow> error + g1system" where
  "insertVertex mp patchIndex vID nDofs bfID sys =
     for_loop [0..<length (patches mp)] (\<lambda>np s.
       ebind (elem_at (patches mp) (int np)) (\<lambda>g.
       for_loop [0..<length (coefs g)]
         (insertVertex_body patchIndex vID nDofs bfID np (coefs g)) s)) sys"

subsection \<open>Sparse and dense algebra\<close>

text \<open>
  The products, the transpose and the difference that \<^verbatim>\<open>finalize\<close> and \<^verbatim>\<open>solve\<close> take
  from Eigen.  A product stores one entry for every position reached by a pair of stored
  entries, with the sum over all such pairs as its value.
\<close>

definition sparse_transpose :: "sparse \<Rightarrow> sparse" where
  "sparse_transpose M =
     \<lparr>rows = cols M, cols = rows M, entries = map (\<lambda>((i, j), v). ((j, i), v)) (entries M)\<rparr>"

definition product_terms :: "sparse \<Rightarrow> sparse \<Rightarrow> ((int \<times> int) \<times> real) list" where
  "product_terms A B =
     concat (map (\<lambda>((i, k), a).
       map (\<lambda>((k', j), b). ((i, j), a * b))
         (filter (\<lambda>((k', j), b). k' = k) (entries B))) (entries A))"

definition sparse_mult :: "sparse \<Rightarrow> sparse \<Rightarrow> error + sparse" where
  "sparse_mult A B =
     (if cols A \<noteq> rows B then Inl SizeMismatch
      else
        (let ts = product_terms A B
         in Inr \<lparr>rows = rows A, cols = cols B,
                 entries = map (\<lambda>p. (p, sum_list (map snd (filter (\<lambda>t. fst t = p) ts))))
                             (remdups (map fst ts))\<rparr>))"

definition sparse_apply :: "sparse \<Rightarrow> real list \<Rightarrow> error + real list" where
  "sparse_apply A v =
     (if cols A \<noteq> int (length v) then Inl SizeMismatch
      else Inr (map (\<lambda>i. sum_list (map (\<lambda>((i', j), a). a * v ! nat j)
                                     (filter (\<lambda>((i', j), a). i' = int i \<and> 0 \<le> j \<and> j < cols A)
                                        (entries A))))
                  [0..<nat (rows A)]))"

definition vec_sub :: "real list \<Rightarrow> real list \<Rightarrow> error + real list" where
  "vec_sub u v =
     (if length u \<noteq> length v then Inl SizeMismatch else Inr (map2 (\<lambda>a b. a - b) u v))"

subsection \<open>finalize\<close>

text \<open>The two selector loops: \<^verbatim>\<open>B.insert(k + i, k + i) = 1\<close> for \<open>i < n\<close>.\<close>

definition selector :: "int \<Rightarrow> int \<Rightarrow> sparse \<Rightarrow> error + sparse" where
  "selector k n B =
     for_loop [0..<nat n] (\<lambda>i M. sparse_insert M (k + int i) (k + int i) 1) B"

text \<open>
  The body of the interior loops of \<^verbatim>\<open>finalize\<close>, for the patch \<open>np\<close> with
  \<open>dim_u\<close> coefficients per row, at the tensor index \<open>(i, j)\<close>; the state is
  \<^verbatim>\<open>B_0_sparse\<close> together with the system.
\<close>

definition finalize_body ::
  "nat \<Rightarrow> int \<Rightarrow> nat \<Rightarrow> nat \<Rightarrow> sparse \<times> g1system \<Rightarrow> error + sparse \<times> g1system" where
  "finalize_body np dim_u j i st =
     (let B_0 = fst st; sys = snd st in
      ebind (nbf sys 5 (int np)) (\<lambda>off.
      (let ii = dim_G1_Dofs sys + dim_G1_Bdy sys + off + int j * dim_u + int i;
           jj = off + int j * dim_u + int i
       in
      ebind (sparse_insert B_0 ii ii 1) (\<lambda>B_0'.
      ebind (sparse_insert (D_sparse sys) ii jj 1) (\<lambda>D.
      Inr (B_0', sys\<lparr>D_sparse := D\<rparr>))))))"

definition finalize_patch ::
  "gsMultiBasis \<Rightarrow> nat \<Rightarrow> sparse \<times> g1system \<Rightarrow> error + sparse \<times> g1system" where
  "finalize_patch mb np st =
     ebind (elem_at mb (int np)) (\<lambda>b.
     ebind (elem_at (component b) 0) (\<lambda>bu.
     ebind (elem_at (component b) 1) (\<lambda>bv.
     (let dim_u = bsize bu; dim_v = bsize bv in
      for_loop [2..<nat (dim_v - 2)] (\<lambda>j.
        for_loop [2..<nat (dim_u - 2)] (\<lambda>i. finalize_body np dim_u j i)) st))))"

text \<open>\<^verbatim>\<open>m_g1.block(dim_G1_Dofs, 0, dim_G1_Bdy, 1) = g1\<close>\<close>

definition set_block :: "real list \<Rightarrow> int \<Rightarrow> int \<Rightarrow> real list \<Rightarrow> error + real list" where
  "set_block v start n g =
     (if \<not> (0 \<le> start \<and> 0 \<le> n \<and> start + n \<le> int (length v)) then Inl IndexOutOfRange
      else if int (length g) \<noteq> n then Inl SizeMismatch
      else Inr (take (nat start) v @ g @ drop (nat (start + n)) v))"

definition finalize :: "gsMultiBasis \<Rightarrow> real list \<Rightarrow> g1system \<Rightarrow> error + g1system" where
  "finalize mb g1 sys =
     (let n = dim_G1_Dofs sys + dim_G1_Bdy sys + dim_K sys in
      ebind (selector 0 (dim_G1_Dofs sys) (sparse_resize n n)) (\<lambda>B_0.
      ebind (selector (dim_G1_Dofs sys) (dim_G1_Bdy sys) (sparse_resize n n)) (\<lambda>B_boundary.
      ebind (for_loop [0..<length mb] (finalize_patch mb) (B_0, sys)) (\<lambda>st.
      (let B_0' = fst st; sys1 = snd st in
      ebind (sparse_mult B_0' (D_sparse sys1)) (\<lambda>D0.
      ebind (sparse_mult B_boundary (D_sparse sys1)) (\<lambda>Db.
      ebind (set_block (m_g1 sys1) (dim_G1_Dofs sys1) (dim_G1_Bdy sys1) g1) (\<lambda>g.
      Inr (sys1\<lparr>D_0_sparse := D0, D_boundary_sparse := Db, m_g1 := g\<rparr>)))))))))"

subsection \<open>solve\<close>

text \<open>
  The iterative solver (\<^verbatim>\<open>gsSparseSolver<>::CGDiagonal\<close>: \<^verbatim>\<open>compute(A)\<close>, then
  \<^verbatim>\<open>solve(F)\<close>) is a parameter.  One run yields the vector that \<^verbatim>\<open>solve\<close> returns and
  the status that \<^verbatim>\<open>info()\<close> would report.
\<close>

datatype ComputationInfo = Success | NumericalIssue | NoConvergence | InvalidInput

record solver_run =
  solution :: "real list"
  info :: ComputationInfo

type_synonym sparse_solver = "sparse \<Rightarrow> real list \<Rightarrow> solver_run"

definition system_matrix :: "g1system \<Rightarrow> sparse \<Rightarrow> error + sparse" where
  "system_matrix sys K =
     ebind (sparse_mult (D_0_sparse sys) K) (\<lambda>D0K.
     sparse_mult D0K (sparse_transpose (D_0_sparse sys)))"

definition system_rhs :: "g1system \<Rightarrow> sparse \<Rightarrow> real list \<Rightarrow> error + real list" where
  "system_rhs sys K f =
     ebind (sparse_apply (D_0_sparse sys) f) (\<lambda>D0f.
     ebind (sparse_mult (D_0_sparse sys) K) (\<lambda>D0K.
     ebind (sparse_mult D0K (sparse_transpose (D_boundary_sparse sys))) (\<lambda>D0KDb.
     ebind (sparse_apply D0KDb (m_g1 sys)) (\<lambda>b.
     vec_sub D0f b))))"

definition solve :: "sparse_solver \<Rightarrow> g1system \<Rightarrow> sparse \<Rightarrow> real list \<Rightarrow> error + real list" where
  "solve solver sys K f =
     ebind (system_matrix sys K) (\<lambda>A.
     ebind (system_rhs sys K f) (\<lambda>F.
     Inr (solution (solver A F))))"

subsection \<open>constructSparseG1Solution\<close>

text \<open>\<^verbatim>\<open>M.block(0, 0, r, c)\<close> and \<^verbatim>\<open>M.row(i) *= x\<close>.\<close>

definition sparse_block :: "sparse \<Rightarrow> int \<Rightarrow> int \<Rightarrow> error + sparse" where
  "sparse_block M r c =
     (if \<not> (0 \<le> r \<and> r \<le> rows M \<and> 0 \<le> c \<and> c \<le> cols M) then Inl IndexOutOfRange
      else Inr \<lparr>rows = r, cols = c,
               entries = filter (\<lambda>((i, j), v). i < r \<and> j < c) (entries M)\<rparr>)"

definition scale_row :: "sparse \<Rightarrow> int \<Rightarrow> real \<Rightarrow> error + sparse" where
  "scale_row M i x =
     (if \<not> (0 \<le> i \<and> i < rows M) then Inl IndexOutOfRange
      else Inr (M\<lparr>entries := map (\<lambda>((r, c), v). ((r, c), if r = i then v * x else v))
                               (entries M)\<rparr>))"

definition constructSparseG1Solution :: "real list \<Rightarrow> g1system \<Rightarrow> error + sparse" where
  "constructSparseG1Solution solVector sys =
     (let dofs = dim_G1_Dofs sys; bdy = dim_G1_Bdy sys in
      ebind (sparse_block (D_sparse sys) (dofs + bdy + 1) (dim_K sys)) (\<lambda>r0.
      ebind (for_loop [0..<nat dofs] (\<lambda>i r.
               ebind (elem_at solVector (int i)) (scale_row r (int i))) r0) (\<lambda>r1.
      ebind (for_loop [nat dofs..<nat (dofs + bdy)] (\<lambda>i r.
               ebind (elem_at (m_g1 sys) (int i)) (scale_row r (int i))) r1) (\<lambda>r2.
      for_loop [0..<nat (dim_K sys)] (\<lambda>i r.
        ebind (elem_at solVector (dofs + bdy + int i)) (sparse_insert r (dofs + bdy) (int i))) r2))))"

subsection \<open>The entries an insertion call writes\<close>

text \<open>
  Every insertion operation reads its rows and columns from the tables, which no
  insertion changes.  The following functions compute, with the same case analysis as
  the loop bodies above, the list of entries a call hands to \<^verbatim>\<open>D_sparse.insert\<close>, in
  order; \<open>insert_all\<close> inserts such a list.  The lemmas \<open>insertInterfaceEdge_plan\<close>,
  \<open>insertBoundaryEdge_plan\<close> and \<open>insertVertex_plan\<close> below show that a call succeeds
  exactly when its entries can be read and inserted.
\<close>

type_synonym entry = "(int \<times> int) \<times> real"

fun sparse_insert_list :: "sparse \<Rightarrow> entry list \<Rightarrow> error + sparse" where
  "sparse_insert_list M [] = Inr M"
| "sparse_insert_list M (e # es) =
     ebind (sparse_insert M (fst (fst e)) (snd (fst e)) (snd e)) (\<lambda>M'. sparse_insert_list M' es)"

definition insert_all :: "entry list \<Rightarrow> g1system \<Rightarrow> error + g1system" where
  "insert_all es sys =
     ebind (sparse_insert_list (D_sparse sys) es) (\<lambda>D. Inr (sys\<lparr>D_sparse := D\<rparr>))"

definition entry_at :: "error + int \<Rightarrow> error + int \<Rightarrow> real \<Rightarrow> error + entry list" where
  "entry_at ii jj c = ebind ii (\<lambda>i. ebind jj (\<lambda>j. Inr [((i, j), c)]))"

fun collect :: "nat list \<Rightarrow> (nat \<Rightarrow> error + 'a list) \<Rightarrow> error + 'a list" where
  "collect [] p = Inr []"
| "collect (j # js) p = ebind (p j) (\<lambda>es. ebind (collect js p) (\<lambda>es'. Inr (es @ es')))"

definition interface_plan ::
  "boundaryInterface \<Rightarrow> int \<Rightarrow> int \<Rightarrow> nat \<Rightarrow> real list \<Rightarrow> nat \<Rightarrow> g1system \<Rightarrow> error + entry list" where
  "interface_plan item iID bfID np cs j sys =
     (if m_twoPatch sys \<and> \<not> m_neumannBdy sys then
        ebind (elem_at (sizePlusInt sys) 0) (\<lambda>plusInt.
        if bfID = 0 \<or> bfID = plusInt - 1 \<or> bfID = plusInt \<or> bfID = 2 * plusInt - 2 then
          ebind (if bfID = 0 \<or> bfID = plusInt then
                   ebind (elem_at cs (int j)) (\<lambda>c.
                   if kept c
                   then entry_at (offset (nbf sys 4 1) (if bfID = 0 then 0 else 1))
                          (interface_column sys item np j) c
                   else Inr [])
                 else Inr []) (\<lambda>es1.
          ebind (if bfID = plusInt - 1 \<or> bfID = 2 * plusInt - 2 then
                   ebind (elem_at cs (int j)) (\<lambda>c.
                   if kept c
                   then entry_at (offset (nbf sys 4 3) (if bfID = plusInt - 1 then 0 else 1))
                          (interface_column sys item np j) c
                   else Inr [])
                 else Inr []) (\<lambda>es2. Inr (es1 @ es2)))
        else
          ebind (if bfID = 1 then elem_at (kink sys) 0 else Inr False) (\<lambda>k0.
          if bfID = 1 \<and> k0 then
            ebind (elem_at cs (int j)) (\<lambda>c.
            if kept c
            then entry_at (offset (nbf sys 4 1) 2) (interface_column sys item np j) c
            else Inr [])
          else
            ebind (if bfID = plusInt - 2 then elem_at (kink sys) 1 else Inr False) (\<lambda>k1.
            if bfID = plusInt - 2 \<and> k1 then
              ebind (elem_at cs (int j)) (\<lambda>c.
              if kept c
              then entry_at (offset (nbf sys 4 3) 2) (interface_column sys item np j) c
              else Inr [])
            else
              ebind (elem_at cs (int j)) (\<lambda>c.
              if kept c then
                ebind (elem_at (kink sys) 1) (\<lambda>kink1.
                ebind (if bfID < plusInt - (if kink1 then 2 else 1)
                       then ebind (elem_at (kink sys) 0) (\<lambda>kink0.
                              Inr (if kink0 then 2 else 1))
                       else ebind (elem_at (kink sys) 0) (\<lambda>kink0.
                              Inr (3 + (if kink0 then 1 else 0) + (if kink1 then 1 else 0))))
                  (\<lambda>bfID_shift.
                entry_at (offset (nbf sys 0 iID) (bfID - bfID_shift))
                  (interface_column sys item np j) c))
              else Inr []))))
      else
        ebind (elem_at cs (int j)) (\<lambda>c.
        if kept c
        then entry_at (offset (nbf sys 0 iID) bfID) (interface_column sys item np j) c
        else Inr []))"

definition interface_entries ::
  "gsMultiPatch \<Rightarrow> boundaryInterface \<Rightarrow> int \<Rightarrow> int \<Rightarrow> g1system \<Rightarrow> error + entry list" where
  "interface_entries mp item iID bfID sys =
     collect [0..<2] (\<lambda>np.
       ebind (elem_at (patches mp) (int np)) (\<lambda>g.
       collect [0..<length (coefs g)] (\<lambda>j. interface_plan item iID bfID np (coefs g) j sys)))"

definition boundary_plan ::
  "patchSide \<Rightarrow> int \<Rightarrow> nat \<Rightarrow> real list \<Rightarrow> nat \<Rightarrow> g1system \<Rightarrow> error + entry list" where
  "boundary_plan item bID bfID cs j sys =
     ebind (elem_at cs (int j)) (\<lambda>c.
     if kept c
     then entry_at (boundary_row sys bID bfID) (offset (nbf sys 5 (patch item)) (int j)) c
     else Inr [])"

definition boundary_entries ::
  "gsMultiPatch \<Rightarrow> patchSide \<Rightarrow> int \<Rightarrow> nat \<Rightarrow> g1system \<Rightarrow> error + entry list" where
  "boundary_entries mp item bID bfID sys =
     ebind (elem_at (patches mp) 0) (\<lambda>g.
     collect [0..<length (coefs g)] (\<lambda>j. boundary_plan item bID bfID (coefs g) j sys))"

definition vertex_plan ::
  "int list \<Rightarrow> int \<Rightarrow> int \<Rightarrow> int \<Rightarrow> nat \<Rightarrow> real list \<Rightarrow> nat \<Rightarrow> g1system \<Rightarrow> error + entry list" where
  "vertex_plan patchIndex vID nDofs bfID np cs j sys =
     ebind (elem_at cs (int j)) (\<lambda>c.
     if kept c
     then entry_at (vertex_row sys vID nDofs bfID)
            (ebind (elem_at patchIndex (int np)) (\<lambda>p. offset (nbf sys 5 p) (int j))) c
     else Inr [])"

definition vertex_entries ::
  "gsMultiPatch \<Rightarrow> int list \<Rightarrow> int \<Rightarrow> int \<Rightarrow> int \<Rightarrow> g1system \<Rightarrow> error + entry list" where
  "vertex_entries mp patchIndex vID nDofs bfID sys =
     collect [0..<length (patches mp)] (\<lambda>np.
       ebind (elem_at (patches mp) (int np)) (\<lambda>g.
       collect [0..<length (coefs g)]
         (\<lambda>j. vertex_plan patchIndex vID nDofs bfID np (coefs g) j sys)))"

text \<open>Two systems that differ in the matrix \<^verbatim>\<open>D_sparse\<close> only.\<close>

definition same_tables :: "g1system \<Rightarrow> g1system \<Rightarrow> bool" where
  "same_tables s t \<longleftrightarrow> t = s\<lparr>D_sparse := D_sparse t\<rparr>"

subsection \<open>What the allocator adds per entity\<close>

text \<open>
  The raw count of an interface in the words of the specification, and the differences
  \<open>d\<close> between consecutive entries of the offset tables that the loops of the two
  initializers produce at the entity \<open>i\<close> of the category \<open>k\<close>.
\<close>

definition raw_count :: "int \<Rightarrow> int \<Rightarrow> int \<Rightarrow> int" where
  "raw_count m_p m_r m_n = 2 * (m_p - m_r - 1) * (m_n - 1) + 2 * m_p + 1"

definition interface_diff_twoPatch ::
  "gsMultiPatch \<Rightarrow> gsMultiBasis \<Rightarrow> int \<Rightarrow> bool \<Rightarrow> nat \<Rightarrow> int \<Rightarrow> bool" where
  "interface_diff_twoPatch mp mb0 innerKnotMulti neumann i d \<longleftrightarrow>
     (\<exists>b1 b2 k0 k1.
        edge_basis mb0 (first (interfaces mp ! i)) = Inr b1 \<and>
        edge_basis mb0 (second (interfaces mp ! i)) = Inr b2 \<and>
        kink_test mp (1, 0) (0, 0) = Inr k0 \<and> kink_test mp (1, 1) (0, 1) = Inr k1 \<and>
        d = raw_count (interface_degree b1 b2) (interface_regularity b1 b2) (interface_elements b1 b2)
            - (if neumann then 8 else 4) - bool_int k0 - bool_int k1
            + 2 * (if innerKnotMulti > 0 \<and> interface_degree b1 b2 - 1 - interface_regularity b1 b2 = 1
                   then 3 else 0))"

definition boundary_diff_twoPatch ::
  "gsMultiPatch \<Rightarrow> gsMultiBasis \<Rightarrow> bool \<Rightarrow> nat \<Rightarrow> nat \<Rightarrow> int \<Rightarrow> bool" where
  "boundary_diff_twoPatch mp mb0 neumann k i d \<longleftrightarrow>
     (\<exists>b. edge_basis mb0 (boundaries mp ! i) = Inr b \<and>
          d = (if k = 3 then (if neumann then 2 * bsize b - 8 else bsize b - 4)
               else (if neumann then 0 else bsize b - 4)))"

text \<open>The three kinds of vertex: boundary (\<open>-1\<close>), interior (\<open>0\<close>), interface-boundary (\<open>1\<close>).\<close>

definition vertex_kind :: "gsMultiPatch \<Rightarrow> nat \<Rightarrow> int" where
  "vertex_kind mp i =
     (let cs = vertices mp ! i
      in if length cs = 1 then - 1
         else if length cs = subInterfaces mp (map patch cs) then 0 else 1)"

definition vertex_diff_twoPatch ::
  "gsMultiPatch \<Rightarrow> bool \<Rightarrow> bool list \<Rightarrow> nat \<Rightarrow> nat \<Rightarrow> int \<Rightarrow> bool" where
  "vertex_diff_twoPatch mp neumann kinks k i d \<longleftrightarrow>
     d = (if vertex_kind mp i = - 1 then
            (if k = 2 then (if neumann then 0 else 1) else (if neumann then 4 else 3))
          else if vertex_kind mp i = 0 then 0
          else if k = 2 then 0
          else if neumann then 4
          else 2 + bool_int (kinks ! (if i = 1 then 0 else 1)))"

definition interface_diff :: "gsMultiPatch \<Rightarrow> gsMultiBasis \<Rightarrow> nat \<Rightarrow> int \<Rightarrow> bool" where
  "interface_diff mp mb0 i d \<longleftrightarrow>
     (\<exists>b. edge_basis mb0 (first (interfaces mp ! i)) = Inr b \<and>
          d = raw_count (degree b) 1 (numElements b) - 10)"

definition boundary_diff ::
  "gsMultiPatch \<Rightarrow> gsMultiBasis \<Rightarrow> bool \<Rightarrow> nat \<Rightarrow> nat \<Rightarrow> int \<Rightarrow> bool" where
  "boundary_diff mp mb0 neumann k i d \<longleftrightarrow>
     (\<exists>b. edge_basis mb0 (boundaries mp ! i) = Inr b \<and>
          d = (if k = 3
               then (if neumann then raw_count (degree b) 1 (numElements b) - 10
                     else (degree b - 2) * (numElements b - 1) + degree b + 1 - 6)
               else (if neumann then 0
                     else (degree b - 2) * (numElements b - 1) + degree b - 4)))"

definition vertex_diff :: "gsMultiPatch \<Rightarrow> nat \<Rightarrow> nat \<Rightarrow> int \<Rightarrow> bool" where
  "vertex_diff mp k i d \<longleftrightarrow>
     d = (if vertex_kind mp i = - 1 then (if k = 2 then 1 else 6)
          else if vertex_kind mp i = 0 then (if k = 2 then 6 else 0)
          else (if k = 2 then 3 else 6))"

definition patch_diff :: "gsMultiBasis \<Rightarrow> nat \<Rightarrow> nat \<Rightarrow> int \<Rightarrow> bool" where
  "patch_diff b k i d \<longleftrightarrow> d = tsize (b ! i)"

text \<open>
  \<open>touch K i s s'\<close>: from \<open>s\<close> to \<open>s'\<close> the mode flags and the shape of the tables are kept,
  and only the entries at position \<open>i + 1\<close> of the tables in \<open>K\<close> may differ.
  \<open>cumulated K n Q s s'\<close>: the same for a whole loop over \<open>n\<close> entities, where moreover
  the difference between the entries \<open>i + 1\<close> and \<open>i\<close> of every table \<open>k\<close> in \<open>K\<close>
  satisfies \<open>Q k i\<close>.
\<close>

definition touch :: "nat set \<Rightarrow> nat \<Rightarrow> g1system \<Rightarrow> g1system \<Rightarrow> bool" where
  "touch K i s s' \<longleftrightarrow>
     m_twoPatch s' = m_twoPatch s \<and> m_neumannBdy s' = m_neumannBdy s \<and>
     m_isogeometric s' = m_isogeometric s \<and>
     length (numBasisFunctions s') = length (numBasisFunctions s) \<and>
     (\<forall>k. k \<notin> K \<longrightarrow> numBasisFunctions s' ! k = numBasisFunctions s ! k) \<and>
     (\<forall>k. length (numBasisFunctions s' ! k) = length (numBasisFunctions s ! k)) \<and>
     (\<forall>k j. j \<noteq> Suc i \<longrightarrow> numBasisFunctions s' ! k ! j = numBasisFunctions s ! k ! j)"

definition cumulated ::
  "nat set \<Rightarrow> nat \<Rightarrow> (nat \<Rightarrow> nat \<Rightarrow> int \<Rightarrow> bool) \<Rightarrow> g1system \<Rightarrow> g1system \<Rightarrow> bool" where
  "cumulated K n Q s s' \<longleftrightarrow>
     m_twoPatch s' = m_twoPatch s \<and> m_neumannBdy s' = m_neumannBdy s \<and>
     m_isogeometric s' = m_isogeometric s \<and>
     length (numBasisFunctions s') = length (numBasisFunctions s) \<and>
     (\<forall>k. k \<notin> K \<longrightarrow> numBasisFunctions s' ! k = numBasisFunctions s ! k) \<and>
     (\<forall>k. length (numBasisFunctions s' ! k) = length (numBasisFunctions s ! k)) \<and>
     (\<forall>k. numBasisFunctions s' ! k ! 0 = numBasisFunctions s ! k ! 0) \<and>
     (\<forall>k \<in> K. \<forall>i < n. Q k i (numBasisFunctions s' ! k ! Suc i - numBasisFunctions s' ! k ! i))"

text \<open>
  \<open>table_diffs Q n xs\<close>: the table \<open>xs\<close> has \<open>n + 1\<close> entries, and the difference between the
  entries \<open>i + 1\<close> and \<open>i\<close> satisfies \<open>Q i\<close>, for each of the \<open>n\<close> entities.
\<close>

definition table_diffs :: "(nat \<Rightarrow> int \<Rightarrow> bool) \<Rightarrow> nat \<Rightarrow> int list \<Rightarrow> bool" where
  "table_diffs Q n xs \<longleftrightarrow> length xs = Suc n \<and> (\<forall>i < n. Q i (xs ! Suc i - xs ! i))"

text \<open>
  The shape of the five entity tables after an initializer: seven tables, the first one
  starting at 0, every table of the chain starting where its predecessor ends, and the
  differences of each table described by \<open>Q0\<close> (interfaces), \<open>Q13\<close> (edge and boundary-edge
  functions of the boundary sides) and \<open>Q24\<close> (vertex and boundary-vertex functions).
\<close>

definition tables_ok ::
  "(nat \<Rightarrow> int \<Rightarrow> bool) \<Rightarrow> (nat \<Rightarrow> nat \<Rightarrow> int \<Rightarrow> bool) \<Rightarrow> (nat \<Rightarrow> nat \<Rightarrow> int \<Rightarrow> bool) \<Rightarrow>
   gsMultiPatch \<Rightarrow> g1system \<Rightarrow> bool" where
  "tables_ok Q0 Q13 Q24 mp s \<longleftrightarrow>
     length (numBasisFunctions s) = 7 \<and> numBasisFunctions s ! 0 ! 0 = 0 \<and>
     (\<forall>k < 4. numBasisFunctions s ! k \<noteq> [] \<and>
              numBasisFunctions s ! Suc k ! 0 = last (numBasisFunctions s ! k)) \<and>
     table_diffs Q0 (length (interfaces mp)) (numBasisFunctions s ! 0) \<and>
     (\<forall>k \<in> {1, 3}. table_diffs (Q13 k) (length (boundaries mp)) (numBasisFunctions s ! k)) \<and>
     (\<forall>k \<in> {2, 4}. table_diffs (Q24 k) (length (vertices mp)) (numBasisFunctions s ! k))"

text \<open>The chained invariant of the five entity tables.\<close>

definition chained :: "int list list \<Rightarrow> bool" where
  "chained T \<longleftrightarrow> (\<forall>k < 4. T ! k \<noteq> [] \<and> last (T ! k) = T ! Suc k ! 0)"

text \<open>
  The determinant whose square \<^verbatim>\<open>initialize_twoPatch\<close> tests at an end of the interface:
  the first Jacobian columns of patch 0 at \<open>p\<close> and of patch 1 at \<open>q\<close>.
\<close>

definition corner_determinant :: "gsMultiPatch \<Rightarrow> real \<times> real \<Rightarrow> real \<times> real \<Rightarrow> real" where
  "corner_determinant mp p q =
     determinant (fst (jacobian (patches mp ! 0) p)) (fst (jacobian (patches mp ! 1) q))"

text \<open>
  The ordinals that \<^verbatim>\<open>insertInterfaceEdge\<close> reroutes in two-patch mode without Neumann
  boundary, for the plus-space size \<open>plusInt = sizePlusInt[0]\<close>: the first and the last
  function of the plus and of the minus space, and one more function at each end with a
  kink.
\<close>

definition rerouted :: "g1system \<Rightarrow> int \<Rightarrow> int \<Rightarrow> bool" where
  "rerouted s plusInt bfID \<longleftrightarrow>
     bfID = 0 \<or> bfID = plusInt - 1 \<or> bfID = plusInt \<or> bfID = 2 * plusInt - 2 \<or>
     (bfID = 1 \<and> elem_at (kink s) 0 = Inr True) \<or>
     (bfID = plusInt - 2 \<and> elem_at (kink s) 1 = Inr True)"

definition vertex_rows :: "g1system \<Rightarrow> int set" where
  "vertex_rows s =
     {r. \<exists>d \<in> {0, 1, 2}. offset (nbf s 4 1) d = Inr r \<or> offset (nbf s 4 3) d = Inr r}"

subsection \<open>Calls, slots and rows\<close>

text \<open>A call of one of the three insertion functions, with its arguments.\<close>

datatype insertion =
    InterfaceEdge gsMultiPatch boundaryInterface int int
  | BoundaryEdge gsMultiPatch patchSide int nat
  | Vertex gsMultiPatch "int list" int int int

fun insert_call :: "insertion \<Rightarrow> g1system \<Rightarrow> error + g1system" where
  "insert_call (InterfaceEdge mp item iID bfID) s = insertInterfaceEdge mp item iID bfID s"
| "insert_call (BoundaryEdge mp item bID bfID) s = insertBoundaryEdge mp item bID bfID s"
| "insert_call (Vertex mp patchIndex vID nDofs bfID) s = insertVertex mp patchIndex vID nDofs bfID s"

fun call_entries :: "insertion \<Rightarrow> g1system \<Rightarrow> error + entry list" where
  "call_entries (InterfaceEdge mp item iID bfID) s = interface_entries mp item iID bfID s"
| "call_entries (BoundaryEdge mp item bID bfID) s = boundary_entries mp item bID bfID s"
| "call_entries (Vertex mp patchIndex vID nDofs bfID) s = vertex_entries mp patchIndex vID nDofs bfID s"

text \<open>
  A slot \<open>(k, i, d)\<close> is the function \<open>d\<close> of the entity \<open>i\<close> of the category \<open>k\<close>; its row is
  \<open>numBasisFunctions[k][i] + d\<close>, and it lies within the rows allotted to the entity when
  \<open>0 \<le> d\<close> and the row is below \<open>numBasisFunctions[k][i + 1]\<close>.
\<close>

type_synonym slot = "int \<times> int \<times> int"

definition slot_row :: "g1system \<Rightarrow> slot \<Rightarrow> error + int" where
  "slot_row s sl = (case sl of (k, i, d) \<Rightarrow> offset (nbf s k i) d)"

definition fits :: "g1system \<Rightarrow> slot \<Rightarrow> bool" where
  "fits s sl =
     (case sl of (k, i, d) \<Rightarrow>
        0 \<le> k \<and> k < 5 \<and> 0 \<le> d \<and>
        (case (nbf s k i, nbf s k (i + 1)) of (Inr b, Inr e) \<Rightarrow> b + d < e | _ \<Rightarrow> False))"

text \<open>The slots that the row expressions of the three insertion functions address.\<close>

definition interface_slots :: "g1system \<Rightarrow> int \<Rightarrow> int \<Rightarrow> error + slot list" where
  "interface_slots s iID bfID =
     (if m_twoPatch s \<and> \<not> m_neumannBdy s then
        ebind (elem_at (sizePlusInt s) 0) (\<lambda>plusInt.
        if bfID = 0 \<or> bfID = plusInt - 1 \<or> bfID = plusInt \<or> bfID = 2 * plusInt - 2 then
          Inr ((if bfID = 0 \<or> bfID = plusInt then [(4, 1, if bfID = 0 then 0 else 1)] else []) @
               (if bfID = plusInt - 1 \<or> bfID = 2 * plusInt - 2
                then [(4, 3, if bfID = plusInt - 1 then 0 else 1)] else []))
        else
          ebind (elem_at (kink s) 0) (\<lambda>kink0.
          ebind (elem_at (kink s) 1) (\<lambda>kink1.
          if bfID = 1 \<and> kink0 then Inr [(4, 1, 2)]
          else if bfID = plusInt - 2 \<and> kink1 then Inr [(4, 3, 2)]
          else Inr [(0, iID,
                 bfID - (if bfID < plusInt - (if kink1 then 2 else 1)
                         then (if kink0 then 2 else 1)
                         else 3 + (if kink0 then 1 else 0) + (if kink1 then 1 else 0)))])))
      else Inr [(0, iID, bfID)])"

definition boundary_slots :: "g1system \<Rightarrow> int \<Rightarrow> nat \<Rightarrow> error + slot list" where
  "boundary_slots s bID bfID =
     (if m_twoPatch s \<and> \<not> m_neumannBdy s then
        ebind (elem_at (sizePlusBdy s) bID) (\<lambda>sp.
        Inr [if int bfID < sp then (3, bID, int bfID) else (1, bID, int bfID - sp)])
      else if \<not> m_neumannBdy s then
        ebind (elem_at (sizePlusBdy s) bID) (\<lambda>sp.
        Inr [if int bfID < to_size_t (sp - 6) then (3, bID, int bfID)
             else (1, bID, int bfID - sp + 6)])
      else Inr [(3, bID, int bfID)])"

text \<open>A vertex of an unknown kind has no slot: its row stays \<open>-1\<close>.\<close>

definition vertex_slots :: "g1system \<Rightarrow> int \<Rightarrow> int \<Rightarrow> int \<Rightarrow> error + slot list" where
  "vertex_slots s vID nDofs bfID =
     ebind (elem_at (kindOfVertex s) vID) (\<lambda>kv.
     if kv = 0 then Inr [(2, vID, bfID)]
     else if kv = - 1 \<or> kv = 1 then
       Inr [if bfID < nDofs then (2, vID, bfID) else (4, vID, bfID - nDofs)]
     else Inl IndexOutOfRange)"

fun call_slots :: "g1system \<Rightarrow> insertion \<Rightarrow> error + slot list" where
  "call_slots s (InterfaceEdge mp item iID bfID) = interface_slots s iID bfID"
| "call_slots s (BoundaryEdge mp item bID bfID) = boundary_slots s bID bfID"
| "call_slots s (Vertex mp patchIndex vID nDofs bfID) = vertex_slots s vID nDofs bfID"

text \<open>Two slots of the same entity; the rows that a call has appended to \<^verbatim>\<open>D_sparse\<close>.\<close>

definition same_entity :: "slot \<Rightarrow> slot \<Rightarrow> bool" where
  "same_entity x y \<longleftrightarrow> fst x = fst y \<and> fst (snd x) = fst (snd y)"

definition rows_written :: "g1system \<Rightarrow> g1system \<Rightarrow> int set" where
  "rows_written s s' =
     (\<lambda>e. fst (fst e)) ` set (drop (length (entries (D_sparse s))) (entries (D_sparse s')))"

text \<open>
  The five entity tables are allotted: chained, and each of them non-decreasing (the
  counts of all entities are non-negative).
\<close>

definition allotted :: "g1system \<Rightarrow> bool" where
  "allotted s \<longleftrightarrow>
     chained (numBasisFunctions s) \<and> 5 \<le> length (numBasisFunctions s) \<and>
     sorted (numBasisFunctions s ! 0) \<and> sorted (numBasisFunctions s ! 1) \<and>
     sorted (numBasisFunctions s ! 2) \<and> sorted (numBasisFunctions s ! 3) \<and>
     sorted (numBasisFunctions s ! 4)"

text \<open>
  The factor that \<^verbatim>\<open>constructSparseG1Solution\<close> applies to the row \<open>r\<close> of the block: the
  coefficient \<open>solVector[r]\<close> on the rows of the G1 functions, the stored boundary value
  \<open>m_g1[r]\<close> on the rows of the boundary functions, none on the last row.
\<close>

definition row_factor :: "real list \<Rightarrow> g1system \<Rightarrow> int \<Rightarrow> real" where
  "row_factor solVector sys r =
     (if 0 \<le> r \<and> r < dim_G1_Dofs sys then solVector ! nat r
      else if 0 \<le> r \<and> dim_G1_Dofs sys \<le> r \<and> r < dim_G1_Dofs sys + dim_G1_Bdy sys
      then m_g1 sys ! nat r
      else 1)"






subsection \<open>The reduced system in the words of the specification\<close>

text \<open>
  The coefficient of a matrix at \<open>(i, j)\<close>: the sum of the values stored at that position
  (the operations of the model store at most one).  The columns of all stored entries
  lie inside the matrix.
\<close>

definition mat :: "sparse \<Rightarrow> int \<Rightarrow> int \<Rightarrow> real" where
  "mat M i j = sum_list (map snd (filter (\<lambda>e. fst e = (i, j)) (entries M)))"




subsection \<open>Concrete inputs\<close>

text \<open>
  Two square patches side by side, joined along the east side of patch 0 and the west
  side of patch 1, each with a bicubic basis of two elements per direction (five
  functions per direction).  In the second multipatch the parametrisation of patch 1
  is turned by a quarter, so that the boundary tangents of the two patches meet at a
  right angle in both end points of the interface.
\<close>

definition example_spline :: gsBSplineBasis where
  "example_spline = \<lparr>degree = 3, bsize = 5, numElements = 2, multiplicityIndex = (\<lambda>i. 1)\<rparr>"

definition example_basis :: gsBasis where
  "example_basis = \<lparr>component = [example_spline, example_spline], tsize = 25\<rparr>"

definition straight :: gsGeometry where
  "straight = \<lparr>jacobian = (\<lambda>p. ((1, 0), (0, 1))), coefs = []\<rparr>"

definition turned :: gsGeometry where
  "turned = \<lparr>jacobian = (\<lambda>p. ((0, 1), (- 1, 0))), coefs = []\<rparr>"

definition side :: "int \<Rightarrow> int \<Rightarrow> patchSide" where
  "side p i = \<lparr>patch = p, m_index = i\<rparr>"

definition example_interface :: boundaryInterface where
  "example_interface = \<lparr>first = side 0 2, second = side 1 1\<rparr>"

definition two_patches :: "gsGeometry \<Rightarrow> gsMultiPatch" where
  "two_patches g =
     \<lparr>patches = [straight, g],
      interfaces = [example_interface],
      boundaries = [side 0 1, side 0 3, side 0 4, side 1 2, side 1 3, side 1 4],
      vertices = [[side 0 1], [side 0 2, side 1 1], [side 0 3], [side 0 4, side 1 3],
                  [side 1 2], [side 1 4]],
      subInterfaces = (\<lambda>ps. 1)\<rparr>"

text \<open>A basis function given by its coefficient vectors on the two patches.\<close>

definition basis_function :: "real list \<Rightarrow> real list \<Rightarrow> gsMultiPatch" where
  "basis_function c0 c1 =
     \<lparr>patches = [\<lparr>jacobian = (\<lambda>p. ((1, 0), (0, 1))), coefs = c0\<rparr>,
                 \<lparr>jacobian = (\<lambda>p. ((1, 0), (0, 1))), coefs = c1\<rparr>],
      interfaces = [], boundaries = [], vertices = [], subInterfaces = (\<lambda>ps. 0)\<rparr>"

text \<open>
  The two-patch system of the kinked multipatch (isogeometric, no Neumann boundary),
  after the insertion of the first interface function and \<^verbatim>\<open>finalize\<close> with the boundary
  values 1.
\<close>

definition example_run :: "error + g1system" where
  "example_run =
     ebind (gsG1System (two_patches turned) [[example_basis, example_basis]] 0 False True True)
       (\<lambda>s0.
     ebind (insertInterfaceEdge (basis_function (1 # replicate 24 0) (0 # 2 # replicate 23 0))
              example_interface 0 0 s0) (\<lambda>s1.
     finalize [example_basis, example_basis] (replicate 24 1) s1))"

definition example_system :: g1system where
  "example_system =
     \<lparr>m_twoPatch = True, m_neumannBdy = False, m_isogeometric = True,
      dim_K = 50, dim_G1_Dofs = 13, dim_G1_Bdy = 24,
      numBasisFunctions =
        [[0, 3], [3, 4, 5, 6, 7, 8, 9], [9, 10, 10, 11, 11, 12, 13],
         [13, 14, 15, 16, 17, 18, 19], [19, 22, 25, 28, 31, 34, 37],
         [0, 25, 50], [0, 25, 50]],
      kindOfVertex = [- 1, 1, - 1, 1, - 1, - 1], sizePlusInt = [5],
      sizePlusBdy = [1, 1, 1, 1, 1, 1],
      D_sparse = \<lparr>rows = 87, cols = 50,
                  entries = [((22, 0), 1), ((22, 26), 2), ((49, 12), 1), ((74, 37), 1)]\<rparr>,
      D_0_sparse = \<lparr>rows = 87, cols = 50, entries = [((49, 12), 1), ((74, 37), 1)]\<rparr>,
      D_boundary_sparse = \<lparr>rows = 87, cols = 50, entries = [((22, 0), 1), ((22, 26), 2)]\<rparr>,
      m_g1 = replicate 13 0 @ replicate 24 1 @ replicate 50 0,
      kink = [True, True]\<rparr>"

text \<open>A stiffness matrix, a load vector and a solver that gives up at once.\<close>

definition example_K :: sparse where
  "example_K = \<lparr>rows = 50, cols = 50, entries = map (\<lambda>i. ((int i, int i), 1)) [0..<50]\<rparr>"

definition example_f :: "real list" where
  "example_f = map real [0..<50]"

definition stalled_solver :: sparse_solver where
  "stalled_solver A F = \<lparr>solution = replicate (nat (rows A)) 0, info = NoConvergence\<rparr>"

text \<open>
  \<open>writes cs j col es\<close>: the entries \<open>es\<close> are what one loop iteration may write for the
  coefficient \<open>j\<close> of the vector \<open>cs\<close>, whose column is \<open>col\<close>: every entry carries that
  coefficient, which passed the pruning test, in that column; and a coefficient that
  passes the test is written.
\<close>

definition writes :: "real list \<Rightarrow> nat \<Rightarrow> error + int \<Rightarrow> entry list \<Rightarrow> bool" where
  "writes cs j col es \<longleftrightarrow>
     j < length cs \<and>
     (\<forall>e \<in> set es. snd e = cs ! j \<and> kept (cs ! j) \<and> col = Inr (snd (fst e))) \<and>
     (kept (cs ! j) \<longrightarrow> es \<noteq> [])"

text \<open>
  \<open>stores cs col es\<close>: the list \<open>es\<close> holds only values whose square exceeds the pruning
  tolerance of the insertion sites, \<open>10e-25 = 1e-24\<close>, and it holds every coefficient of
  \<open>cs\<close> whose square exceeds it, in the column \<open>col j\<close> of that coefficient.
\<close>

definition stores :: "real list \<Rightarrow> (nat \<Rightarrow> error + int) \<Rightarrow> entry list \<Rightarrow> bool" where
  "stores cs col es \<longleftrightarrow>
     (\<forall>j < length cs. cs ! j * cs ! j > 1 / 10 ^ 24 \<longrightarrow>
        (\<exists>i k. col j = Inr k \<and> ((i, k), cs ! j) \<in> set es))"

definition example_initial :: g1system where
  "example_initial =
     example_system\<lparr>D_sparse := sparse_resize 87 50, D_0_sparse := sparse_resize 87 50,
       D_boundary_sparse := sparse_resize 87 50, m_g1 := replicate 87 0\<rparr>"

text \<open>An entry lies inside a matrix; a list of entries holds no pruned value.\<close>

definition in_range :: "sparse \<Rightarrow> entry \<Rightarrow> bool" where
  "in_range M e \<longleftrightarrow>
     0 \<le> fst (fst e) \<and> fst (fst e) < rows M \<and> 0 \<le> snd (fst e) \<and> snd (fst e) < cols M"

definition pruned :: "entry list \<Rightarrow> bool" where
  "pruned es \<longleftrightarrow> (\<forall>e \<in> set es. snd e * snd e > 1 / 10 ^ 24)"

text \<open>
  The system of the smooth two-patch multipatch in two-patch mode, and the system that the
  general initializer builds for it.
\<close>

definition example_smooth :: g1system where
  "example_smooth =
     \<lparr>m_twoPatch = True, m_neumannBdy = False, m_isogeometric = True,
      dim_K = 50, dim_G1_Dofs = 15, dim_G1_Bdy = 22,
      numBasisFunctions =
        [[0, 5], [5, 6, 7, 8, 9, 10, 11], [11, 12, 12, 13, 13, 14, 15],
         [15, 16, 17, 18, 19, 20, 21], [21, 24, 26, 29, 31, 34, 37],
         [0, 25, 50], [0, 25, 50]],
      kindOfVertex = [- 1, 1, - 1, 1, - 1, - 1], sizePlusInt = [5],
      sizePlusBdy = [1, 1, 1, 1, 1, 1],
      D_sparse = sparse_resize 87 50, D_0_sparse = sparse_resize 87 50,
      D_boundary_sparse = sparse_resize 87 50,
      m_g1 = replicate 87 0,
      kink = [False, False]\<rparr>"

definition example_general :: g1system where
  "example_general =
     \<lparr>m_twoPatch = False, m_neumannBdy = False, m_isogeometric = True,
      dim_K = 50, dim_G1_Dofs = 9, dim_G1_Bdy = 30,
      numBasisFunctions =
        [[0, - 1], [- 1, - 1, - 1, - 1, - 1, - 1, - 1], [- 1, 0, 3, 4, 7, 8, 9],
         [9, 8, 7, 6, 5, 4, 3], [3, 9, 15, 21, 27, 33, 39],
         [0, 25, 50], [0, 25, 50]],
      kindOfVertex = [- 1, 1, - 1, 1, - 1, - 1], sizePlusInt = [5],
      sizePlusBdy = [5, 5, 5, 5, 5, 5],
      D_sparse = sparse_resize 89 50, D_0_sparse = sparse_resize 89 50,
      D_boundary_sparse = sparse_resize 89 50,
      m_g1 = replicate 89 0,
      kink = []\<rparr>"

text \<open>
  The kinked two-patch system after the insertion of the third interface function (the
  first one that is not rerouted), with the coefficients 1 and \<open>1e-11\<close>.
\<close>

definition example_inserted :: g1system where
  "example_inserted =
     example_initial\<lparr>D_sparse :=
       \<lparr>rows = 87, cols = 50, entries = [((0, 0), 1), ((0, 26), 1 / 10 ^ 11)]\<rparr>\<rparr>"


text \<open>
  A patch 1 whose first tangent is \<open>(0, 1)\<close> at the corner \<open>(0, 0)\<close>, at a right angle to
  that of the patch 0, and \<open>(1, 0)\<close> at the corner \<open>(0, 1)\<close>, collinear with it; two
  patches with the collinear first tangents \<open>(1, 1)\<close> and \<open>(2, 2)\<close>; and the two patches
  with the vertex of the corners \<open>(1, 0)\<close>, \<open>(0, 0)\<close> listed first.
\<close>

definition bent :: gsGeometry where
  "bent = \<lparr>jacobian = (\<lambda>p. ((snd p, 1 - snd p), (snd p - 1, snd p))), coefs = []\<rparr>"

definition slanted :: "real \<Rightarrow> gsGeometry" where
  "slanted t = \<lparr>jacobian = (\<lambda>p. ((t, t), (0, 1))), coefs = []\<rparr>"

definition two_slanted :: gsMultiPatch where
  "two_slanted = (two_patches (slanted 2))\<lparr>patches := [slanted 1, slanted 2]\<rparr>"

definition reordered :: "gsGeometry \<Rightarrow> gsMultiPatch" where
  "reordered g =
     (two_patches g)\<lparr>vertices := [[side 0 2, side 1 1], [side 0 1], [side 0 3],
                                  [side 0 4, side 1 3], [side 1 2], [side 1 4]]\<rparr>"


section \<open>Basic facts\<close>

lemma ebind_Inr_iff: "ebind m f = Inr y \<longleftrightarrow> (\<exists>x. m = Inr x \<and> f x = Inr y)"
  by (cases m) (simp_all add: ebind_def)

lemma ebind_InrE:
  assumes "ebind m f = Inr y"
  obtains x where "m = Inr x" and "f x = Inr y"
  using assms by (auto simp: ebind_Inr_iff)

lemma ebind_Inr [simp]: "ebind (Inr x) f = f x"
  by (simp add: ebind_def)

lemma ebind_Inl [simp]: "ebind (Inl e) f = Inl e"
  by (simp add: ebind_def)

lemma elem_at_Inr_iff:
  "elem_at xs i = Inr v \<longleftrightarrow> 0 \<le> i \<and> i < int (length xs) \<and> v = xs ! nat i"
  by (auto simp: elem_at_def)

lemma set_at_Inr_iff:
  "set_at xs i v = Inr ys \<longleftrightarrow> 0 \<le> i \<and> i < int (length xs) \<and> ys = xs[nat i := v]"
  by (auto simp: set_at_def)

lemma for_loop_append:
  "for_loop (xs @ ys) body s = ebind (for_loop xs body s) (for_loop ys body)"
  by (induction xs arbitrary: s) (auto simp: ebind_def split: sum.splits)

lemma for_loop_single: "for_loop [i] body s = body i s"
  by (simp split: sum.splits)

lemma for_loop_upt_induct:
  assumes "for_loop [0..<n] body s = Inr s'"
    and "P 0 s"
    and "\<And>i t t'. i < n \<Longrightarrow> P i t \<Longrightarrow> body i t = Inr t' \<Longrightarrow> P (Suc i) t'"
  shows "P n s'"
  using assms
proof (induction n arbitrary: s')
  case 0
  then show ?case by simp
next
  case (Suc n)
  from Suc.prems(1) have "ebind (for_loop [0..<n] body s) (for_loop [n] body) = Inr s'"
    by (simp add: for_loop_append del: for_loop.simps)
  then obtain t where t: "for_loop [0..<n] body s = Inr t"
    and "for_loop [n] body t = Inr s'"
    by (rule ebind_InrE)
  then have last: "body n t = Inr s'"
    by (cases "body n t") simp_all
  have "P n t"
    by (rule Suc.IH [OF t Suc.prems(2)]) (use Suc.prems(3) in auto)
  then show ?case using last Suc.prems(3) by blast
qed

lemma example_run_eq: "example_run = Inr example_system"
  unfolding example_run_def by code_simp

section \<open>The solver adapter\<close>

text \<open>
  C8.  The claim is that a solver that does not converge makes \<^verbatim>\<open>solve\<close> fail.  The code
  never reads the solver's status: \<^verbatim>\<open>solve\<close> returns the vector \<^verbatim>\<open>x0\<close> of the solver as it
  is.  On the example system the solver gives up with \<open>NoConvergence\<close>, and \<^verbatim>\<open>solve\<close>
  returns its vector as a regular result.
\<close>

theorem solve_returns_stalled_vector:
  "info (stalled_solver
           \<lparr>rows = 87, cols = 87, entries = [((49, 49), 1), ((74, 74), 1)]\<rparr>
           (replicate 49 0 @ [12] @ replicate 24 0 @ [37] @ replicate 12 0)) = NoConvergence
   \<and> system_matrix example_system example_K
       = Inr \<lparr>rows = 87, cols = 87, entries = [((49, 49), 1), ((74, 74), 1)]\<rparr>
   \<and> system_rhs example_system example_K example_f
       = Inr (replicate 49 0 @ [12] @ replicate 24 0 @ [37] @ replicate 12 0)
   \<and> solve stalled_solver example_system example_K example_f = Inr (replicate 87 0)"
  by code_simp

text \<open>
  C8, as the code has it: the status reported by the solver has no influence on the
  result of \<^verbatim>\<open>solve\<close>, and whenever the reduced matrix \<open>A\<close> and right-hand side \<open>F\<close> can
  be formed the result is the solver's vector for them, without an error, a second
  attempt or another solver.
\<close>

theorem solve_ignores_solver_status:
  "solve (\<lambda>A F. (solver A F)\<lparr>info := st\<rparr>) sys K f = solve solver sys K f
   \<and> (system_matrix sys K = Inr A \<and> system_rhs sys K f = Inr F
        \<longrightarrow> solve solver sys K f = Inr (solution (solver A F)))"
  by (auto simp: solve_def)

theorem solve_ignores_solver_status_witness:
  "solve (\<lambda>A F. (stalled_solver A F)\<lparr>info := Success\<rparr>) example_system example_K example_f
     = solve stalled_solver example_system example_K example_f
   \<and> system_matrix example_system example_K
       = Inr \<lparr>rows = 87, cols = 87, entries = [((49, 49), 1), ((74, 74), 1)]\<rparr>
   \<and> system_rhs example_system example_K example_f
       = Inr (replicate 49 0 @ [12] @ replicate 24 0 @ [37] @ replicate 12 0)
   \<and> solve stalled_solver example_system example_K example_f
       = Inr (solution (stalled_solver
           \<lparr>rows = 87, cols = 87, entries = [((49, 49), 1), ((74, 74), 1)]\<rparr>
           (replicate 49 0 @ [12] @ replicate 24 0 @ [37] @ replicate 12 0)))"
proof -
  have A: "system_matrix example_system example_K
       = Inr \<lparr>rows = 87, cols = 87, entries = [((49, 49), 1), ((74, 74), 1)]\<rparr>"
    by code_simp
  have F: "system_rhs example_system example_K example_f
       = Inr (replicate 49 0 @ [12] @ replicate 24 0 @ [37] @ replicate 12 0)"
    by code_simp
  show ?thesis
    using solve_ignores_solver_status [where solver = stalled_solver and st = Success
        and sys = example_system and K = example_K and f = example_f
        and A = "\<lparr>rows = 87, cols = 87, entries = [((49, 49), 1), ((74, 74), 1)]\<rparr>"
        and F = "replicate 49 0 @ [12] @ replicate 24 0 @ [37] @ replicate 12 0"] A F
    by simp
qed

section \<open>Insertion: the entries of a call\<close>

lemma same_tables_refl [simp]: "same_tables s s"
  by (simp add: same_tables_def)

lemma same_tables_upd [simp]: "same_tables s (s\<lparr>D_sparse := D\<rparr>)"
  by (simp add: same_tables_def)

lemma same_tables_updE:
  assumes "same_tables s t"
  obtains D where "t = s\<lparr>D_sparse := D\<rparr>"
  using assms unfolding same_tables_def by blast

lemma sparse_insert_Inr_iff:
  "sparse_insert M i j v = Inr M' \<longleftrightarrow>
     0 \<le> i \<and> i < rows M \<and> 0 \<le> j \<and> j < cols M \<and> (i, j) \<notin> fst ` set (entries M) \<and>
     M' = M\<lparr>entries := entries M @ [((i, j), v)]\<rparr>"
  by (auto simp: sparse_insert_def)


lemma sparse_insert_list_Inr_iff:
  "sparse_insert_list M es = Inr M' \<longleftrightarrow>
     (\<forall>e \<in> set es. in_range M e) \<and> distinct (map fst es) \<and>
     fst ` set es \<inter> fst ` set (entries M) = {} \<and>
     M' = M\<lparr>entries := entries M @ es\<rparr>"
proof (induction es arbitrary: M)
  case Nil
  then show ?case by auto
next
  case (Cons e es)
  obtain i j v where e: "e = ((i, j), v)" by (metis prod.collapse)
  show ?case
    unfolding sparse_insert_list.simps ebind_Inr_iff sparse_insert_Inr_iff e
    by (auto simp: Cons.IH in_range_def image_iff)
qed

lemma insert_all_Inr_iff:
  "insert_all es s = Inr s' \<longleftrightarrow>
     (\<forall>e \<in> set es. in_range (D_sparse s) e) \<and> distinct (map fst es) \<and>
     fst ` set es \<inter> fst ` set (entries (D_sparse s)) = {} \<and>
     s' = s\<lparr>D_sparse := (D_sparse s)\<lparr>entries := entries (D_sparse s) @ es\<rparr>\<rparr>"
  by (auto simp: insert_all_def ebind_Inr_iff sparse_insert_list_Inr_iff)

lemma insert_all_Nil [simp]: "insert_all [] s = Inr s"
  by (simp add: insert_all_def)

lemma insert_all_same_tables: "insert_all es s = Inr s' \<Longrightarrow> same_tables s s'"
  by (auto simp: insert_all_Inr_iff)

lemma insert_all_append:
  "insert_all (es @ es') s = Inr s' \<longleftrightarrow>
     (\<exists>t. insert_all es s = Inr t \<and> insert_all es' t = Inr s')"
  by (auto simp: insert_all_Inr_iff in_range_def image_Un)

lemma insert_D_plan:
  "insert_D s ii jj c = Inr s' \<longleftrightarrow>
     (\<exists>es. entry_at ii jj c = Inr es \<and> insert_all es s = Inr s')"
  by (auto simp: insert_D_def entry_at_def insert_all_def ebind_Inr_iff)

lemma nbf_D_upd [simp]: "nbf (s\<lparr>D_sparse := D\<rparr>) k i = nbf s k i"
  by (simp add: nbf_def)

lemma interface_column_D_upd [simp]:
  "interface_column (s\<lparr>D_sparse := D\<rparr>) item np j = interface_column s item np j"
  by (simp add: interface_column_def)

lemma boundary_row_D_upd [simp]: "boundary_row (s\<lparr>D_sparse := D\<rparr>) bID bfID = boundary_row s bID bfID"
  by (simp add: boundary_row_def cong: if_cong)

lemma vertex_row_D_upd [simp]:
  "vertex_row (s\<lparr>D_sparse := D\<rparr>) vID nDofs bfID = vertex_row s vID nDofs bfID"
  by (simp add: vertex_row_def cong: if_cong)

lemma interface_plan_same_tables:
  "same_tables s t \<Longrightarrow> interface_plan item iID bfID np cs j t = interface_plan item iID bfID np cs j s"
  by (erule same_tables_updE) (simp add: interface_plan_def cong: if_cong)

lemma boundary_plan_same_tables:
  "same_tables s t \<Longrightarrow> boundary_plan item bID bfID cs j t = boundary_plan item bID bfID cs j s"
  by (erule same_tables_updE) (simp add: boundary_plan_def cong: if_cong)

lemma vertex_plan_same_tables:
  "same_tables s t \<Longrightarrow>
     vertex_plan patchIndex vID nDofs bfID np cs j t = vertex_plan patchIndex vID nDofs bfID np cs j s"
  by (erule same_tables_updE) (simp add: vertex_plan_def cong: if_cong)

lemma same_tables_trans: "same_tables s t \<Longrightarrow> same_tables t u \<Longrightarrow> same_tables s u"
  by (elim same_tables_updE) simp

lemma insertBoundaryEdge_body_plan:
  "insertBoundaryEdge_body item bID bfID cs j s = Inr s' \<longleftrightarrow>
     (\<exists>es. boundary_plan item bID bfID cs j s = Inr es \<and> insert_all es s = Inr s')"
proof (cases "elem_at cs (int j)")
  case (Inl e)
  then show ?thesis by (simp add: insertBoundaryEdge_body_def boundary_plan_def)
next
  case (Inr c)
  then show ?thesis
    by (cases "kept c") (simp_all add: insertBoundaryEdge_body_def boundary_plan_def insert_D_plan)
qed

lemma insertVertex_body_plan:
  "insertVertex_body patchIndex vID nDofs bfID np cs j s = Inr s' \<longleftrightarrow>
     (\<exists>es. vertex_plan patchIndex vID nDofs bfID np cs j s = Inr es \<and> insert_all es s = Inr s')"
proof (cases "elem_at cs (int j)")
  case (Inl e)
  then show ?thesis by (simp add: insertVertex_body_def vertex_plan_def)
next
  case (Inr c)
  then show ?thesis
    by (cases "kept c") (simp_all add: insertVertex_body_def vertex_plan_def insert_D_plan)
qed

lemma for_loop_plan:
  assumes "\<And>j t t'. j \<in> set js \<Longrightarrow> same_tables s t \<Longrightarrow>
             (body j t = Inr t') = (\<exists>es. plan j = Inr es \<and> insert_all es t = Inr t')"
  shows "(for_loop js body s = Inr s') = (\<exists>es. collect js plan = Inr es \<and> insert_all es s = Inr s')"
proof -
  have "same_tables s t \<Longrightarrow>
        (for_loop js body t = Inr s') = (\<exists>es. collect js plan = Inr es \<and> insert_all es t = Inr s')"
    for t
    using assms
  proof (induction js arbitrary: t)
    case Nil
    then show ?case by auto
  next
    case (Cons j js)
    have step: "(body j t = Inr t') = (\<exists>es. plan j = Inr es \<and> insert_all es t = Inr t')" for t'
      using Cons.prems by simp
    have rest: "(for_loop js body t' = Inr s') =
                (\<exists>es. collect js plan = Inr es \<and> insert_all es t' = Inr s')"
      if "same_tables t t'" for t'
      using Cons.IH [of t'] Cons.prems that by (auto intro: same_tables_trans)
    have "(for_loop (j # js) body t = Inr s') = (\<exists>t'. body j t = Inr t' \<and> for_loop js body t' = Inr s')"
      by (cases "body j t") auto
    also have "\<dots> = (\<exists>t' es. plan j = Inr es \<and> insert_all es t = Inr t' \<and> for_loop js body t' = Inr s')"
      using step by blast
    also have "\<dots> = (\<exists>t' es es'. plan j = Inr es \<and> insert_all es t = Inr t' \<and>
                        collect js plan = Inr es' \<and> insert_all es' t' = Inr s')"
      using rest insert_all_same_tables by blast
    also have "\<dots> = (\<exists>es. collect (j # js) plan = Inr es \<and> insert_all es t = Inr s')"
      by (auto simp: ebind_Inr_iff insert_all_append)
    finally show ?case .
  qed
  then show ?thesis by simp
qed

lemma guarded_insert_plan:
  "(ebind (elem_at cs j) (\<lambda>c. if kept c then insert_D s r col c else Inr s) = Inr s') =
   (\<exists>es. ebind (elem_at cs j) (\<lambda>c. if kept c then entry_at r col c else Inr []) = Inr es \<and>
         insert_all es s = Inr s')"
proof (cases "elem_at cs j")
  case (Inl e)
  then show ?thesis by simp
next
  case (Inr c)
  then show ?thesis by (cases "kept c") (simp_all add: insert_D_plan)
qed

lemma seq_plan:
  assumes A: "\<And>s1. (a s = Inr s1) = (\<exists>es. pa = Inr es \<and> insert_all es s = Inr s1)"
    and B: "\<And>s1 s'. same_tables s s1 \<Longrightarrow>
              (b s1 = Inr s') = (\<exists>es. pb = Inr es \<and> insert_all es s1 = Inr s')"
  shows "(ebind (a s) b = Inr s') =
         (\<exists>es. ebind pa (\<lambda>es1. ebind pb (\<lambda>es2. Inr (es1 @ es2))) = Inr es \<and>
               insert_all es s = Inr s')"
proof
  assume "ebind (a s) b = Inr s'"
  then obtain s1 where a: "a s = Inr s1" and b: "b s1 = Inr s'"
    by (rule ebind_InrE)
  from a obtain es1 where pa: "pa = Inr es1" and i1: "insert_all es1 s = Inr s1"
    using A [of s1] by blast
  from i1 have "same_tables s s1"
    by (rule insert_all_same_tables)
  with b obtain es2 where pb: "pb = Inr es2" and i2: "insert_all es2 s1 = Inr s'"
    using B [of s1 s'] by blast
  from i1 i2 have "insert_all (es1 @ es2) s = Inr s'"
    unfolding insert_all_append by blast
  then show "\<exists>es. ebind pa (\<lambda>es1. ebind pb (\<lambda>es2. Inr (es1 @ es2))) = Inr es \<and>
               insert_all es s = Inr s'"
    by (simp add: pa pb)
next
  assume "\<exists>es. ebind pa (\<lambda>es1. ebind pb (\<lambda>es2. Inr (es1 @ es2))) = Inr es \<and>
               insert_all es s = Inr s'"
  then obtain es where es: "ebind pa (\<lambda>es1. ebind pb (\<lambda>es2. Inr (es1 @ es2))) = Inr es"
    and ins: "insert_all es s = Inr s'"
    by blast
  from es obtain es1 where pa: "pa = Inr es1"
    and "ebind pb (\<lambda>es2. Inr (es1 @ es2)) = Inr es"
    by (rule ebind_InrE)
  then obtain es2 where pb: "pb = Inr es2" and "Inr (es1 @ es2) = (Inr es :: error + entry list)"
    by (elim ebind_InrE)
  then have "es = es1 @ es2" by simp
  with ins have "insert_all (es1 @ es2) s = Inr s'" by simp
  then obtain t where i1: "insert_all es1 s = Inr t" and i2: "insert_all es2 t = Inr s'"
    unfolding insert_all_append by blast
  from pa i1 have a: "a s = Inr t"
    using A [of t] by blast
  from i1 have "same_tables s t"
    by (rule insert_all_same_tables)
  with pb i2 have "b t = Inr s'"
    using B [of t s'] by blast
  with a show "ebind (a s) b = Inr s'"
    by simp
qed

lemma optional_plan:
  assumes "(a = Inr s') = (\<exists>es. p = Inr es \<and> insert_all es s = Inr s')"
  shows "((if c then a else Inr s) = Inr s') =
         (\<exists>es. (if c then p else Inr []) = Inr es \<and> insert_all es s = Inr s')"
  using assms by (cases c) auto

lemma insertInterfaceEdge_body_plan:
  "insertInterfaceEdge_body item iID bfID np cs j s = Inr s' \<longleftrightarrow>
     (\<exists>es. interface_plan item iID bfID np cs j s = Inr es \<and> insert_all es s = Inr s')"
proof (cases "m_twoPatch s \<and> \<not> m_neumannBdy s")
  case False
  then show ?thesis
    by (cases "m_twoPatch s"; cases "m_neumannBdy s")
      (simp_all add: insertInterfaceEdge_body_def interface_plan_def guarded_insert_plan)
next
  case mode: True
  show ?thesis
  proof (cases "elem_at (sizePlusInt s) 0")
    case (Inl e)
    then show ?thesis
      using mode by (simp add: insertInterfaceEdge_body_def interface_plan_def)
  next
    case (Inr plusInt)
    show ?thesis
    proof (cases "bfID = 0 \<or> bfID = plusInt - 1 \<or> bfID = plusInt \<or> bfID = 2 * plusInt - 2")
      case True
      let ?a = "\<lambda>t. if bfID = 0 \<or> bfID = plusInt then
                   ebind (elem_at cs (int j)) (\<lambda>c.
                   if kept c
                   then insert_D t (offset (nbf t 4 1) (if bfID = 0 then 0 else 1))
                          (interface_column t item np j) c
                   else Inr t)
                 else Inr t"
      let ?b = "\<lambda>t. if bfID = plusInt - 1 \<or> bfID = 2 * plusInt - 2 then
            ebind (elem_at cs (int j)) (\<lambda>c.
            if kept c
            then insert_D t (offset (nbf t 4 3) (if bfID = plusInt - 1 then 0 else 1))
                   (interface_column t item np j) c
            else Inr t)
          else Inr t"
      let ?pa = "if bfID = 0 \<or> bfID = plusInt then
                   ebind (elem_at cs (int j)) (\<lambda>c.
                   if kept c
                   then entry_at (offset (nbf s 4 1) (if bfID = 0 then 0 else 1))
                          (interface_column s item np j) c
                   else Inr [])
                 else Inr []"
      let ?pb = "if bfID = plusInt - 1 \<or> bfID = 2 * plusInt - 2 then
                   ebind (elem_at cs (int j)) (\<lambda>c.
                   if kept c
                   then entry_at (offset (nbf s 4 3) (if bfID = plusInt - 1 then 0 else 1))
                          (interface_column s item np j) c
                   else Inr [])
                 else Inr []"
      have body: "insertInterfaceEdge_body item iID bfID np cs j s = ebind (?a s) ?b"
        by (simp only: insertInterfaceEdge_body_def if_P [OF mode] Inr ebind_Inr if_P [OF True])
      have plan: "interface_plan item iID bfID np cs j s
                  = ebind ?pa (\<lambda>es1. ebind ?pb (\<lambda>es2. Inr (es1 @ es2)))"
        by (simp only: interface_plan_def if_P [OF mode] Inr ebind_Inr if_P [OF True])
      have A: "(?a s = Inr s1) = (\<exists>es. ?pa = Inr es \<and> insert_all es s = Inr s1)" for s1
        by (rule optional_plan) (rule guarded_insert_plan)
      have B: "(?b s1 = Inr s2) = (\<exists>es. ?pb = Inr es \<and> insert_all es s1 = Inr s2)"
        if "same_tables s s1" for s1 s2
      proof -
        from that obtain D where s1: "s1 = s\<lparr>D_sparse := D\<rparr>" by (rule same_tables_updE)
        have "(?b s1 = Inr s2) =
              (\<exists>es. (if bfID = plusInt - 1 \<or> bfID = 2 * plusInt - 2 then
                   ebind (elem_at cs (int j)) (\<lambda>c.
                   if kept c
                   then entry_at (offset (nbf s1 4 3) (if bfID = plusInt - 1 then 0 else 1))
                          (interface_column s1 item np j) c
                   else Inr [])
                 else Inr []) = Inr es \<and> insert_all es s1 = Inr s2)"
          by (rule optional_plan) (rule guarded_insert_plan)
        then show ?thesis by (simp add: s1 cong: if_cong)
      qed
      show ?thesis
        unfolding body plan by (rule seq_plan [where a = ?a, OF A B])
    next
      case False
      show ?thesis
        using mode Inr False
        by (cases "elem_at (kink s) 0"; cases "elem_at (kink s) 1"; cases "elem_at cs (int j)")
          (simp_all add: insertInterfaceEdge_body_def interface_plan_def insert_D_plan)
    qed
  qed
qed

lemma insertBoundaryEdge_plan:
  "insertBoundaryEdge mp item bID bfID s = Inr s' \<longleftrightarrow>
     (\<exists>es. boundary_entries mp item bID bfID s = Inr es \<and> insert_all es s = Inr s')"
proof (cases "elem_at (patches mp) 0")
  case (Inl e)
  then show ?thesis by (simp add: insertBoundaryEdge_def boundary_entries_def)
next
  case (Inr g)
  have "(for_loop [0..<length (coefs g)] (insertBoundaryEdge_body item bID bfID (coefs g)) s = Inr s')
        = (\<exists>es. collect [0..<length (coefs g)] (\<lambda>j. boundary_plan item bID bfID (coefs g) j s) = Inr es
              \<and> insert_all es s = Inr s')"
  proof (rule for_loop_plan)
    fix j t t'
    assume "same_tables s t"
    then have "boundary_plan item bID bfID (coefs g) j t = boundary_plan item bID bfID (coefs g) j s"
      by (rule boundary_plan_same_tables)
    then show "(insertBoundaryEdge_body item bID bfID (coefs g) j t = Inr t') =
               (\<exists>es. boundary_plan item bID bfID (coefs g) j s = Inr es \<and> insert_all es t = Inr t')"
      by (simp only: insertBoundaryEdge_body_plan)
  qed
  then show ?thesis
    by (simp add: insertBoundaryEdge_def boundary_entries_def Inr)
qed

lemma patch_loop_plan:
  assumes body: "\<And>np cs j t t'. (body np cs j t = Inr t') =
                   (\<exists>es. plan np cs j t = Inr es \<and> insert_all es t = Inr t')"
    and same: "\<And>np cs j t. same_tables s t \<Longrightarrow> plan np cs j t = plan np cs j s"
  shows "(for_loop nps (\<lambda>np t. ebind (elem_at (patches mp) (int np)) (\<lambda>g.
             for_loop [0..<length (coefs g)] (body np (coefs g)) t)) s = Inr s') =
         (\<exists>es. collect nps (\<lambda>np. ebind (elem_at (patches mp) (int np)) (\<lambda>g.
                  collect [0..<length (coefs g)] (\<lambda>j. plan np (coefs g) j s))) = Inr es \<and>
               insert_all es s = Inr s')"
proof (rule for_loop_plan)
  fix np t t'
  assume t: "same_tables s t"
  show "(ebind (elem_at (patches mp) (int np)) (\<lambda>g.
             for_loop [0..<length (coefs g)] (body np (coefs g)) t) = Inr t') =
        (\<exists>es. ebind (elem_at (patches mp) (int np)) (\<lambda>g.
                  collect [0..<length (coefs g)] (\<lambda>j. plan np (coefs g) j s)) = Inr es \<and>
              insert_all es t = Inr t')"
  proof (cases "elem_at (patches mp) (int np)")
    case (Inl e)
    then show ?thesis by simp
  next
    case (Inr g)
    have "(for_loop [0..<length (coefs g)] (body np (coefs g)) t = Inr t') =
          (\<exists>es. collect [0..<length (coefs g)] (\<lambda>j. plan np (coefs g) j s) = Inr es \<and>
                insert_all es t = Inr t')"
    proof (rule for_loop_plan)
      fix j u u'
      assume "same_tables t u"
      with t have "same_tables s u" by (rule same_tables_trans)
      then have "plan np (coefs g) j u = plan np (coefs g) j s"
        by (rule same)
      then show "(body np (coefs g) j u = Inr u') =
                 (\<exists>es. plan np (coefs g) j s = Inr es \<and> insert_all es u = Inr u')"
        by (simp only: body)
    qed
    then show ?thesis by (simp add: Inr)
  qed
qed

lemma insertVertex_plan:
  "insertVertex mp patchIndex vID nDofs bfID s = Inr s' \<longleftrightarrow>
     (\<exists>es. vertex_entries mp patchIndex vID nDofs bfID s = Inr es \<and> insert_all es s = Inr s')"
  unfolding insertVertex_def vertex_entries_def
  by (rule patch_loop_plan [where body = "insertVertex_body patchIndex vID nDofs bfID"
        and plan = "vertex_plan patchIndex vID nDofs bfID"])
    (rule insertVertex_body_plan, erule vertex_plan_same_tables)

lemma insertInterfaceEdge_plan:
  "insertInterfaceEdge mp item iID bfID s = Inr s' \<longleftrightarrow>
     (\<exists>es. interface_entries mp item iID bfID s = Inr es \<and> insert_all es s = Inr s')"
  unfolding insertInterfaceEdge_def interface_entries_def
  by (rule patch_loop_plan [where body = "insertInterfaceEdge_body item iID bfID"
        and plan = "interface_plan item iID bfID"])
    (rule insertInterfaceEdge_body_plan, erule interface_plan_same_tables)

lemma collect_Inr_iff:
  "collect js p = Inr es \<longleftrightarrow>
     (\<forall>j \<in> set js. \<exists>e. p j = Inr e) \<and> es = concat (map (\<lambda>j. projr (p j)) js)"
proof (induction js arbitrary: es)
  case Nil
  then show ?case by auto
next
  case (Cons j js)
  show ?case
    by (cases "p j") (auto simp: ebind_Inr_iff Cons.IH)
qed

lemma guarded_writes:
  assumes "ebind (elem_at cs (int j)) (\<lambda>c. if kept c then entry_at r col c else Inr []) = Inr es"
  shows "writes cs j col es"
  using assms
  by (auto simp: writes_def ebind_Inr_iff elem_at_Inr_iff entry_at_def split: if_splits)

lemma writes_append: "writes cs j col es \<Longrightarrow> writes cs j col es' \<Longrightarrow> writes cs j col (es @ es')"
  by (auto simp: writes_def)

lemma writes_Nil: "j < length cs \<Longrightarrow> \<not> kept (cs ! j) \<Longrightarrow> writes cs j col []"
  by (simp add: writes_def)

lemma boundary_plan_writes:
  "boundary_plan item bID bfID cs j s = Inr es \<Longrightarrow>
     writes cs j (offset (nbf s 5 (patch item)) (int j)) es"
  unfolding boundary_plan_def by (rule guarded_writes)

lemma vertex_plan_writes:
  "vertex_plan patchIndex vID nDofs bfID np cs j s = Inr es \<Longrightarrow>
     writes cs j (ebind (elem_at patchIndex (int np)) (\<lambda>p. offset (nbf s 5 p) (int j))) es"
  unfolding vertex_plan_def by (rule guarded_writes)

lemma interface_plan_writes:
  assumes "interface_plan item iID bfID np cs j s = Inr es" and j: "j < length cs"
  shows "writes cs j (interface_column s item np j) es"
proof (cases "m_twoPatch s \<and> \<not> m_neumannBdy s")
  case False
  then have "ebind (elem_at cs (int j)) (\<lambda>c. if kept c
        then entry_at (offset (nbf s 0 iID) bfID) (interface_column s item np j) c
        else Inr []) = Inr es"
    using assms(1) by (cases "m_twoPatch s"; cases "m_neumannBdy s") (simp_all add: interface_plan_def)
  then show ?thesis by (rule guarded_writes)
next
  case mode: True
  from assms(1) obtain plusInt where p: "elem_at (sizePlusInt s) 0 = Inr plusInt"
    by (cases "elem_at (sizePlusInt s) 0") (simp_all add: interface_plan_def if_P [OF mode])
  show ?thesis
  proof (cases "bfID = 0 \<or> bfID = plusInt - 1 \<or> bfID = plusInt \<or> bfID = 2 * plusInt - 2")
    case True
    let ?ga = "ebind (elem_at cs (int j)) (\<lambda>c.
                   if kept c
                   then entry_at (offset (nbf s 4 1) (if bfID = 0 then 0 else 1))
                          (interface_column s item np j) c
                   else Inr [])"
    let ?gb = "ebind (elem_at cs (int j)) (\<lambda>c.
                   if kept c
                   then entry_at (offset (nbf s 4 3) (if bfID = plusInt - 1 then 0 else 1))
                          (interface_column s item np j) c
                   else Inr [])"
    let ?pa = "if bfID = 0 \<or> bfID = plusInt then ?ga else Inr []"
    let ?pb = "if bfID = plusInt - 1 \<or> bfID = 2 * plusInt - 2 then ?gb else Inr []"
    have plan: "interface_plan item iID bfID np cs j s
                  = ebind ?pa (\<lambda>es1. ebind ?pb (\<lambda>es2. Inr (es1 @ es2)))"
      by (simp only: interface_plan_def if_P [OF mode] p ebind_Inr if_P [OF True])
    with assms(1) obtain es1 es2 where pa: "?pa = Inr es1" and pb: "?pb = Inr es2"
      and es: "es = es1 @ es2"
      by (auto elim!: ebind_InrE)
    have ab: "(bfID = 0 \<or> bfID = plusInt) \<or> (bfID = plusInt - 1 \<or> bfID = 2 * plusInt - 2)"
      using True by blast
    have w1: "writes cs j (interface_column s item np j) es1"
      if "bfID = 0 \<or> bfID = plusInt"
    proof -
      from pa have "?ga = Inr es1" unfolding if_P [OF that] .
      then show ?thesis by (rule guarded_writes)
    qed
    have w2: "writes cs j (interface_column s item np j) es2"
      if "bfID = plusInt - 1 \<or> bfID = 2 * plusInt - 2"
    proof -
      from pb have "?gb = Inr es2" unfolding if_P [OF that] .
      then show ?thesis by (rule guarded_writes)
    qed
    have e1: "es1 = []" if "\<not> (bfID = 0 \<or> bfID = plusInt)"
    proof -
      from pa have "Inr [] = (Inr es1 :: error + entry list)" unfolding if_not_P [OF that] .
      then show ?thesis by simp
    qed
    have e2: "es2 = []" if "\<not> (bfID = plusInt - 1 \<or> bfID = 2 * plusInt - 2)"
    proof -
      from pb have "Inr [] = (Inr es2 :: error + entry list)" unfolding if_not_P [OF that] .
      then show ?thesis by simp
    qed
    show ?thesis
    proof (cases "bfID = 0 \<or> bfID = plusInt")
      case a: True
      show ?thesis
      proof (cases "bfID = plusInt - 1 \<or> bfID = 2 * plusInt - 2")
        case True
        with a show ?thesis unfolding es by (intro writes_append w1 w2)
      next
        case False
        with a show ?thesis unfolding es by (simp add: e2 w1)
      qed
    next
      case a: False
      with ab have b: "bfID = plusInt - 1 \<or> bfID = 2 * plusInt - 2" by blast
      show ?thesis unfolding es by (simp add: e1 [OF a] w2 [OF b])
    qed
  next
    case False
    show ?thesis
      using assms(1) mode p False
        by (cases "elem_at (kink s) 0"; cases "elem_at (kink s) 1"; cases "elem_at cs (int j)")
          (auto simp: interface_plan_def writes_def entry_at_def ebind_Inr_iff elem_at_Inr_iff
             split: if_splits)
  qed
qed

lemma kept_iff: "kept c \<longleftrightarrow> c * c > 1 / 10 ^ 24"
  by (simp add: kept_def)


lemma stores_mono: "stores cs col es \<Longrightarrow> set es \<subseteq> set es' \<Longrightarrow> stores cs col es'"
  unfolding stores_def by blast

lemma collect_set:
  assumes "collect js p = Inr es"
  shows "set es = (\<Union>j \<in> set js. set (projr (p j)))" and "\<And>j. j \<in> set js \<Longrightarrow> p j = Inr (projr (p j))"
  using assms by (auto simp: collect_Inr_iff)

lemma collect_writes:
  assumes c: "collect [0..<length cs] p = Inr es"
    and w: "\<And>j e. j < length cs \<Longrightarrow> p j = Inr e \<Longrightarrow> writes cs j (col j) e"
  shows "pruned es \<and> stores cs col es"
proof -
  have set: "set es = (\<Union>j \<in> {0..<length cs}. set (projr (p j)))"
    using collect_set(1) [OF c] by simp
  have wj: "writes cs j (col j) (projr (p j))" if "j < length cs" for j
    using w [OF that] collect_set(2) [OF c, of j] that by simp
  have "pruned es"
    unfolding pruned_def set using wj by (auto simp: writes_def kept_iff)
  moreover have "stores cs col es"
    unfolding stores_def
  proof (intro allI impI)
    fix j assume j: "j < length cs" and k: "cs ! j * cs ! j > 1 / 10 ^ 24"
    from wj [OF j] k obtain e where e: "e \<in> set (projr (p j))"
      and "snd e = cs ! j" and "col j = Inr (snd (fst e))"
      by (cases "projr (p j)") (auto simp: writes_def kept_iff)
    moreover from e j have "e \<in> set es" unfolding set by auto
    ultimately show "\<exists>i k. col j = Inr k \<and> ((i, k), cs ! j) \<in> set es"
      by (metis prod.collapse)
  qed
  ultimately show ?thesis ..
qed

lemma patch_collect_writes:
  assumes c: "collect nps (\<lambda>np. ebind (elem_at (patches mp) (int np)) (\<lambda>g.
                  collect [0..<length (coefs g)] (\<lambda>j. plan np (coefs g) j))) = Inr es"
    and w: "\<And>np cs j e. j < length cs \<Longrightarrow> plan np cs j = Inr e \<Longrightarrow> writes cs j (col np j) e"
  shows "pruned es \<and> (\<forall>np \<in> set nps. np < length (patches mp) \<and>
            stores (coefs (patches mp ! np)) (col np) es)"
proof -
  let ?q = "\<lambda>np. ebind (elem_at (patches mp) (int np)) (\<lambda>g.
                  collect [0..<length (coefs g)] (\<lambda>j. plan np (coefs g) j))"
  have set: "set es = (\<Union>np \<in> set nps. set (projr (?q np)))"
    by (rule collect_set(1) [OF c])
  have each: "np < length (patches mp) \<and> pruned (projr (?q np)) \<and>
              stores (coefs (patches mp ! np)) (col np) (projr (?q np))"
    if "np \<in> set nps" for np
  proof -
    from collect_set(2) [OF c that] have "?q np = Inr (projr (?q np))" .
    then obtain g where g: "elem_at (patches mp) (int np) = Inr g"
      and cg: "collect [0..<length (coefs g)] (\<lambda>j. plan np (coefs g) j) = Inr (projr (?q np))"
      by (rule ebind_InrE)
    from g have np: "np < length (patches mp)" and gg: "g = patches mp ! np"
      by (auto simp: elem_at_Inr_iff)
    from collect_writes [OF cg w] show ?thesis
      using np gg by simp
  qed
  have "pruned es"
    unfolding pruned_def set using each by (auto simp: pruned_def)
  moreover have "np < length (patches mp) \<and> stores (coefs (patches mp ! np)) (col np) es"
    if "np \<in> set nps" for np
  proof -
    have "set (projr (?q np)) \<subseteq> set es"
      unfolding set using that by blast
    with each [OF that] show ?thesis
      by (blast intro: stores_mono)
  qed
  ultimately show ?thesis by blast
qed

lemma insert_all_entries:
  "insert_all es s = Inr s' \<Longrightarrow> entries (D_sparse s') = entries (D_sparse s) @ es"
  by (auto simp: insert_all_Inr_iff)

lemma interface_entries_stores:
  assumes "interface_entries mp item iID bfID s = Inr es"
  shows "pruned es \<and> (\<forall>np < 2. stores (coefs (patches mp ! np)) (interface_column s item np) es)"
proof -
  have "pruned es \<and> (\<forall>np \<in> set [0..<2]. np < length (patches mp) \<and>
            stores (coefs (patches mp ! np)) (interface_column s item np) es)"
    by (rule patch_collect_writes [where plan = "\<lambda>np cs j. interface_plan item iID bfID np cs j s"])
       (use assms in \<open>simp add: interface_entries_def\<close>, rule interface_plan_writes)
  then show ?thesis by simp
qed

lemma vertex_entries_stores:
  assumes "vertex_entries mp patchIndex vID nDofs bfID s = Inr es"
  shows "pruned es \<and> (\<forall>np < length (patches mp). stores (coefs (patches mp ! np))
            (\<lambda>j. ebind (elem_at patchIndex (int np)) (\<lambda>p. offset (nbf s 5 p) (int j))) es)"
proof -
  have "pruned es \<and> (\<forall>np \<in> set [0..<length (patches mp)]. np < length (patches mp) \<and>
            stores (coefs (patches mp ! np))
              (\<lambda>j. ebind (elem_at patchIndex (int np)) (\<lambda>p. offset (nbf s 5 p) (int j))) es)"
    by (rule patch_collect_writes
          [where plan = "\<lambda>np cs j. vertex_plan patchIndex vID nDofs bfID np cs j s"])
       (use assms in \<open>simp add: vertex_entries_def\<close>, rule vertex_plan_writes)
  then show ?thesis by simp
qed

lemma boundary_entries_stores:
  assumes "boundary_entries mp item bID bfID s = Inr es"
  shows "pruned es \<and> stores (coefs (patches mp ! 0)) (\<lambda>j. offset (nbf s 5 (patch item)) (int j)) es"
proof -
  from assms obtain g where g: "elem_at (patches mp) 0 = Inr g"
    and c: "collect [0..<length (coefs g)] (\<lambda>j. boundary_plan item bID bfID (coefs g) j s) = Inr es"
    unfolding boundary_entries_def by (rule ebind_InrE)
  from g have gg: "g = patches mp ! 0" by (simp add: elem_at_Inr_iff)
  show ?thesis
    using collect_writes [OF c boundary_plan_writes] by (simp add: gg)
qed

lemma example_initial_eq:
  "gsG1System (two_patches turned) [[example_basis, example_basis]] 0 False True True
     = Inr example_initial"
  by code_simp

section \<open>The pruning tolerance\<close>

text \<open>
  C1.  The claim puts the pruning tolerance at \<open>1e-25\<close>: a coefficient whose square is
  \<open>1e-24\<close> would be stored.  Every insertion site compares against the literal
  \<^verbatim>\<open>10e-25\<close>, which is \<open>1e-24\<close>, with a strict comparison.  The coefficient \<open>1e-12\<close>,
  whose square is exactly \<open>1e-24\<close> and exceeds \<open>1e-25\<close>, is dropped by all three
  operations: the system is returned unchanged.
\<close>

theorem tolerance_is_not_1e25:
  "(1 / 10 ^ 12) * (1 / 10 ^ 12) = (1 / 10 ^ 24 :: real) \<and> (1 / 10 ^ 25 :: real) < 1 / 10 ^ 24
   \<and> insertInterfaceEdge (basis_function [1 / 10 ^ 12] []) example_interface 0 2 example_initial
       = Inr example_initial
   \<and> insertBoundaryEdge (basis_function [1 / 10 ^ 12] []) (side 1 2) 3 0 example_initial
       = Inr example_initial
   \<and> insertVertex (basis_function [1 / 10 ^ 12] []) [0, 1] 3 0 1 example_initial
       = Inr example_initial"
  by code_simp

text \<open>
  C1, with the tolerance of the code.  A successful call of any of the three insertion
  operations appends entries to \<^verbatim>\<open>D_sparse\<close> and changes nothing else in it; every
  appended value has a square strictly above \<open>1e-24\<close> (so no coefficient with a square
  of at most \<open>1e-24\<close>, in particular of \<open>1e-25\<close> or of \<open>1e-24\<close>, appears), and every
  coefficient of the inserted function whose square is strictly above \<open>1e-24\<close> is among
  the appended entries, in the column of that coefficient.
\<close>

theorem insertion_keeps_above_tolerance:
  "(insertInterfaceEdge mp item iID bfID s = Inr s' \<longrightarrow>
      (\<exists>es. entries (D_sparse s') = entries (D_sparse s) @ es \<and>
            (\<forall>e \<in> set es. snd e * snd e > 1 / 10 ^ 24) \<and>
            (\<forall>np < 2. stores (coefs (patches mp ! np)) (interface_column s item np) es))) \<and>
   (insertBoundaryEdge mp sd bID bfID' s = Inr s' \<longrightarrow>
      (\<exists>es. entries (D_sparse s') = entries (D_sparse s) @ es \<and>
            (\<forall>e \<in> set es. snd e * snd e > 1 / 10 ^ 24) \<and>
            stores (coefs (patches mp ! 0)) (\<lambda>j. offset (nbf s 5 (patch sd)) (int j)) es)) \<and>
   (insertVertex mp patchIndex vID nDofs bfID s = Inr s' \<longrightarrow>
      (\<exists>es. entries (D_sparse s') = entries (D_sparse s) @ es \<and>
            (\<forall>e \<in> set es. snd e * snd e > 1 / 10 ^ 24) \<and>
            (\<forall>np < length (patches mp). stores (coefs (patches mp ! np))
               (\<lambda>j. ebind (elem_at patchIndex (int np)) (\<lambda>p. offset (nbf s 5 p) (int j))) es)))"
proof (intro conjI impI)
  assume "insertInterfaceEdge mp item iID bfID s = Inr s'"
  then obtain es where "interface_entries mp item iID bfID s = Inr es" and "insert_all es s = Inr s'"
    unfolding insertInterfaceEdge_plan by blast
  then show "\<exists>es. entries (D_sparse s') = entries (D_sparse s) @ es \<and>
            (\<forall>e \<in> set es. snd e * snd e > 1 / 10 ^ 24) \<and>
            (\<forall>np < 2. stores (coefs (patches mp ! np)) (interface_column s item np) es)"
    using interface_entries_stores [of mp item iID bfID s es] insert_all_entries [of es s s']
    unfolding pruned_def by blast
next
  assume "insertBoundaryEdge mp sd bID bfID' s = Inr s'"
  then obtain es where "boundary_entries mp sd bID bfID' s = Inr es" and "insert_all es s = Inr s'"
    unfolding insertBoundaryEdge_plan by blast
  then show "\<exists>es. entries (D_sparse s') = entries (D_sparse s) @ es \<and>
            (\<forall>e \<in> set es. snd e * snd e > 1 / 10 ^ 24) \<and>
            stores (coefs (patches mp ! 0)) (\<lambda>j. offset (nbf s 5 (patch sd)) (int j)) es"
    using boundary_entries_stores [of mp sd bID bfID' s es] insert_all_entries [of es s s']
    unfolding pruned_def by blast
next
  assume "insertVertex mp patchIndex vID nDofs bfID s = Inr s'"
  then obtain es where "vertex_entries mp patchIndex vID nDofs bfID s = Inr es"
    and "insert_all es s = Inr s'"
    unfolding insertVertex_plan by blast
  then show "\<exists>es. entries (D_sparse s') = entries (D_sparse s) @ es \<and>
            (\<forall>e \<in> set es. snd e * snd e > 1 / 10 ^ 24) \<and>
            (\<forall>np < length (patches mp). stores (coefs (patches mp ! np))
               (\<lambda>j. ebind (elem_at patchIndex (int np)) (\<lambda>p. offset (nbf s 5 p) (int j))) es)"
    using vertex_entries_stores [of mp patchIndex vID nDofs bfID s es]
      insert_all_entries [of es s s']
    unfolding pruned_def by blast
qed

theorem insertion_keeps_above_tolerance_witness:
  "insertInterfaceEdge (basis_function [1, 1 / 10 ^ 12] [0, 1 / 10 ^ 11]) example_interface 0 2
       example_initial
     = Inr (example_initial\<lparr>D_sparse :=
              \<lparr>rows = 87, cols = 50, entries = [((0, 0), 1), ((0, 26), 1 / 10 ^ 11)]\<rparr>\<rparr>)
   \<and> (\<exists>es. [((0, 0), 1), ((0, 26), 1 / 10 ^ 11)] = entries (D_sparse example_initial) @ es \<and>
            (\<forall>e \<in> set es. snd e * snd e > 1 / 10 ^ 24) \<and>
            (\<forall>np < 2. stores (coefs (patches (basis_function [1, 1 / 10 ^ 12] [0, 1 / 10 ^ 11]) ! np))
                (interface_column example_initial example_interface np) es))
   \<and> insertBoundaryEdge (basis_function [1, 1 / 10 ^ 12] [0, 1 / 10 ^ 11]) (side 1 2) 3 0
       example_initial
     = Inr (example_initial\<lparr>D_sparse := \<lparr>rows = 87, cols = 50, entries = [((16, 25), 1)]\<rparr>\<rparr>)
   \<and> (\<exists>es. [((16, 25), 1)] = entries (D_sparse example_initial) @ es \<and>
            (\<forall>e \<in> set es. snd e * snd e > 1 / 10 ^ 24) \<and>
            stores (coefs (patches (basis_function [1, 1 / 10 ^ 12] [0, 1 / 10 ^ 11]) ! 0))
              (\<lambda>j. offset (nbf example_initial 5 (patch (side 1 2))) (int j)) es)
   \<and> insertVertex (basis_function [1, 1 / 10 ^ 12] [0, 1 / 10 ^ 11]) [0, 1] 3 0 1 example_initial
     = Inr (example_initial\<lparr>D_sparse :=
              \<lparr>rows = 87, cols = 50, entries = [((29, 0), 1), ((29, 26), 1 / 10 ^ 11)]\<rparr>\<rparr>)
   \<and> (\<exists>es. [((29, 0), 1), ((29, 26), 1 / 10 ^ 11)] = entries (D_sparse example_initial) @ es \<and>
            (\<forall>e \<in> set es. snd e * snd e > 1 / 10 ^ 24) \<and>
            (\<forall>np < length (patches (basis_function [1, 1 / 10 ^ 12] [0, 1 / 10 ^ 11])).
               stores (coefs (patches (basis_function [1, 1 / 10 ^ 12] [0, 1 / 10 ^ 11]) ! np))
                 (\<lambda>j. ebind (elem_at [0, 1] (int np))
                        (\<lambda>p. offset (nbf example_initial 5 p) (int j))) es))"
proof -
  let ?f = "basis_function [1, 1 / 10 ^ 12] [0, 1 / 10 ^ 11]"
  have h1: "insertInterfaceEdge ?f example_interface 0 2 example_initial
     = Inr (example_initial\<lparr>D_sparse :=
              \<lparr>rows = 87, cols = 50, entries = [((0, 0), 1), ((0, 26), 1 / 10 ^ 11)]\<rparr>\<rparr>)"
    by code_simp
  have h2: "insertBoundaryEdge ?f (side 1 2) 3 0 example_initial
     = Inr (example_initial\<lparr>D_sparse := \<lparr>rows = 87, cols = 50, entries = [((16, 25), 1)]\<rparr>\<rparr>)"
    by code_simp
  have h3: "insertVertex ?f [0, 1] 3 0 1 example_initial
     = Inr (example_initial\<lparr>D_sparse :=
              \<lparr>rows = 87, cols = 50, entries = [((29, 0), 1), ((29, 26), 1 / 10 ^ 11)]\<rparr>\<rparr>)"
    by code_simp
  note t1 = insertion_keeps_above_tolerance [THEN conjunct1, rule_format, OF h1]
  note t2 = insertion_keeps_above_tolerance [THEN conjunct2, THEN conjunct1, rule_format, OF h2]
  note t3 = insertion_keeps_above_tolerance [THEN conjunct2, THEN conjunct2, rule_format, OF h3]
  show ?thesis
    using h1 h2 h3 t1 t2 t3 by simp
qed

section \<open>The index allocator: what the loops compute\<close>

lemma nbf_Inr_iff:
  "nbf s k i = Inr v \<longleftrightarrow>
     0 \<le> k \<and> k < int (length (numBasisFunctions s)) \<and> 0 \<le> i \<and>
     i < int (length (numBasisFunctions s ! nat k)) \<and> v = numBasisFunctions s ! nat k ! nat i"
  by (auto simp: nbf_def ebind_Inr_iff elem_at_Inr_iff)

lemma nbf_set_Inr_iff:
  "nbf_set s k i v = Inr s' \<longleftrightarrow>
     0 \<le> k \<and> k < int (length (numBasisFunctions s)) \<and> 0 \<le> i \<and>
     i < int (length (numBasisFunctions s ! nat k)) \<and>
     s' = s\<lparr>numBasisFunctions :=
             (numBasisFunctions s)[nat k := (numBasisFunctions s ! nat k)[nat i := v]]\<rparr>"
  by (auto simp: nbf_set_def ebind_Inr_iff elem_at_Inr_iff set_at_Inr_iff)

lemma nth_update2:
  "xs[k := (xs ! k)[i := v]] ! k' ! j =
     (if k' = k \<and> j = i \<and> k < length xs \<and> i < length (xs ! k) then v else xs ! k' ! j)"
  by (cases "k' = k"; cases "k < length xs"; cases "j = i"; cases "i < length (xs ! k)")
    (simp_all add: list_update_beyond)

lemma length_update2: "length (xs[k := (xs ! k)[i := v]] ! k') = length (xs ! k')"
  by (cases "k' = k"; cases "k < length xs") (simp_all add: list_update_beyond)

lemma touch_refl: "touch K i s s"
  by (simp add: touch_def)

lemma touch_trans: "touch K i s t \<Longrightarrow> touch K i t u \<Longrightarrow> touch K i s u"
  by (simp add: touch_def)

lemma touch_mono: "touch K i s t \<Longrightarrow> K \<subseteq> K' \<Longrightarrow> touch K' i s t"
  by (auto simp: touch_def)

lemma nbf_set_touch:
  assumes "nbf_set s k (int i + 1) v = Inr s'"
  shows "touch {nat k} i s s'" and "numBasisFunctions s' ! nat k ! Suc i = v"
  using assms
  by (auto simp: nbf_set_Inr_iff touch_def nth_update2 length_update2 nat_add_distrib)

lemma nbf_value: "nbf s k (int i) = Inr v \<Longrightarrow> v = numBasisFunctions s ! nat k ! i"
  by (simp add: nbf_Inr_iff)

text \<open>One step \<open>T[k][i+1] = T[k][i] + c\<close>.\<close>

lemma advance':
  assumes "nbf s k (int i) = Inr prev" and "nbf_set s k (int i + 1) v = Inr s'"
  shows "touch {nat k} i s s'"
    and "numBasisFunctions s' ! nat k ! Suc i - numBasisFunctions s ! nat k ! i = v - prev"
  using nbf_set_touch [OF assms(2)] nbf_value [OF assms(1)] by simp_all

lemma advance:
  assumes "nbf s k (int i) = Inr prev" and "nbf_set s k (int i + 1) (prev + c) = Inr s'"
  shows "touch {nat k} i s s'"
    and "numBasisFunctions s' ! nat k ! Suc i = numBasisFunctions s ! nat k ! i + c"
  using nbf_set_touch [OF assms(2)] nbf_value [OF assms(1)] by simp_all

lemma cumulative_loop:
  assumes run: "for_loop [0..<n] body s = Inr s'"
    and inv0: "I s"
    and step: "\<And>i t t'. i < n \<Longrightarrow> I t \<Longrightarrow> m_neumannBdy t = m_neumannBdy s \<Longrightarrow>
                 body i t = Inr t' \<Longrightarrow>
                 I t' \<and> touch K i t t' \<and>
                 (\<forall>k \<in> K. Q k i (numBasisFunctions t' ! k ! Suc i - numBasisFunctions t ! k ! i))"
  shows "cumulated K n Q s s' \<and> I s'"
proof -
  let ?P = "\<lambda>i t. cumulated K i Q s t \<and> I t"
  have "?P n s'"
  proof (rule for_loop_upt_induct [OF run, where P = ?P])
    show "?P 0 s" using inv0 by (simp add: cumulated_def)
  next
    fix i t t'
    assume i: "i < n" and P: "?P i t" and b: "body i t = Inr t'"
    from P have flag: "m_neumannBdy t = m_neumannBdy s" by (simp add: cumulated_def)
    from step [OF i _ flag b] P
    have inv': "I t'" and touch: "touch K i t t'"
      and Q: "\<forall>k \<in> K. Q k i (numBasisFunctions t' ! k ! Suc i - numBasisFunctions t ! k ! i)"
      by blast+
    have old: "numBasisFunctions t' ! k ! j = numBasisFunctions t ! k ! j" if "j \<le> i" for k j
      using touch that by (simp add: touch_def)
    have "cumulated K (Suc i) Q s t'"
      unfolding cumulated_def
    proof (intro conjI allI ballI impI)
      fix k j
      assume k: "k \<in> K" and j: "j < Suc i"
      show "Q k j (numBasisFunctions t' ! k ! Suc j - numBasisFunctions t' ! k ! j)"
      proof (cases "j = i")
        case True
        with Q k show ?thesis by (simp add: old)
      next
        case False
        with j have "j < i" by simp
        with P k show ?thesis by (simp add: cumulated_def old)
      qed
    qed (use P touch in \<open>auto simp: cumulated_def touch_def\<close>)
    with inv' show "?P (Suc i) t'" by simp
  qed
  then show ?thesis .
qed

lemma touch_kink [simp]: "touch K i s (t\<lparr>kink := x\<rparr>) = touch K i s t"
  by (simp add: touch_def)

lemma touch_sizePlusInt [simp]: "touch K i s (t\<lparr>sizePlusInt := x\<rparr>) = touch K i s t"
  by (simp add: touch_def)

lemma touch_sizePlusBdy [simp]: "touch K i s (t\<lparr>sizePlusBdy := x\<rparr>) = touch K i s t"
  by (simp add: touch_def)

lemma touch_kindOfVertex [simp]: "touch K i s (t\<lparr>kindOfVertex := x\<rparr>) = touch K i s t"
  by (simp add: touch_def)

lemma touch_kink' [simp]: "touch K i (t\<lparr>kink := x\<rparr>) s = touch K i t s"
  by (simp add: touch_def)

lemma touch_kindOfVertex' [simp]: "touch K i (t\<lparr>kindOfVertex := x\<rparr>) s = touch K i t s"
  by (simp add: touch_def)

lemma nbf_set_kink: "nbf_set s k i v = Inr s' \<Longrightarrow> kink s' = kink s"
  by (auto simp: nbf_set_Inr_iff)

lemma patch_sizes_step_touch:
  assumes "patch_sizes_step k b i t = Inr t'"
  shows "touch {nat k} i t t'" and "kink t' = kink t"
    and "patch_diff b (nat k) i (numBasisFunctions t' ! nat k ! Suc i - numBasisFunctions t ! nat k ! i)"
proof -
  from assms obtain prev bi where prev: "nbf t k (int i) = Inr prev"
    and bi: "elem_at b (int i) = Inr bi"
    and set: "nbf_set t k (int i + 1) (prev + tsize bi) = Inr t'"
    unfolding patch_sizes_step_def by (elim ebind_InrE)
  from bi have "bi = b ! i" by (simp add: elem_at_Inr_iff)
  with advance [OF prev set] show "touch {nat k} i t t'"
    and "patch_diff b (nat k) i (numBasisFunctions t' ! nat k ! Suc i - numBasisFunctions t ! nat k ! i)"
    by (simp_all add: patch_diff_def)
  from set show "kink t' = kink t" by (rule nbf_set_kink)
qed

lemma interface_step_twoPatch_touch:
  assumes "interface_step_twoPatch mp mb0 ikm i t = Inr t'"
  shows "touch {0} i t t'"
    and "interface_diff_twoPatch mp mb0 ikm (m_neumannBdy t) i
           (numBasisFunctions t' ! 0 ! Suc i - numBasisFunctions t ! 0 ! i)"
    and "\<exists>k0 k1. kink_test mp (1, 0) (0, 0) = Inr k0 \<and> kink_test mp (1, 1) (0, 1) = Inr k1 \<and>
                 kink t' = [k0, k1]"
proof -
  from assms obtain item b1 b2 k0 k1 prev t2 sp where
    item: "elem_at (interfaces mp) (int i) = Inr item"
    and b1: "edge_basis mb0 (first item) = Inr b1"
    and b2: "edge_basis mb0 (second item) = Inr b2"
    and k0: "kink_test mp (1, 0) (0, 0) = Inr k0"
    and k1: "kink_test mp (1, 1) (0, 1) = Inr k1"
    and prev: "nbf (t\<lparr>kink := [k0, k1]\<rparr>) 0 (int i) = Inr prev"
    and set: "nbf_set (t\<lparr>kink := [k0, k1]\<rparr>) 0 (int i + 1)
                (prev + 2 * (interface_degree b1 b2 - interface_regularity b1 b2 - 1)
                   * (interface_elements b1 b2 - 1) + 2 * interface_degree b1 b2 + 1
                 - ((if m_neumannBdy t then 8 else 4) + bool_int k0 + bool_int k1)
                 + 2 * (if ikm > 0 \<and> interface_degree b1 b2 - 1 - interface_regularity b1 b2 = 1
                        then 3 else 0)) = Inr t2"
    and t': "Inr (t2\<lparr>sizePlusInt := sp\<rparr>) = (Inr t' :: error + g1system)"
    unfolding interface_step_twoPatch_def Let_def
    by (elim ebind_InrE) (rule that, assumption+)
  from item have it: "item = interfaces mp ! i" by (simp add: elem_at_Inr_iff)
  from t' have t': "t' = t2\<lparr>sizePlusInt := sp\<rparr>" by simp
  from advance' [OF prev set] show "touch {0} i t t'"
    by (simp add: t')
  from advance'(2) [OF prev set] b1 b2 k0 k1
  show "interface_diff_twoPatch mp mb0 ikm (m_neumannBdy t) i
           (numBasisFunctions t' ! 0 ! Suc i - numBasisFunctions t ! 0 ! i)"
    unfolding interface_diff_twoPatch_def raw_count_def it t'
    by (intro exI [of _ b1] exI [of _ b2] exI [of _ k0] exI [of _ k1]) simp
  from nbf_set_kink [OF set] k0 k1 show "\<exists>k0 k1. kink_test mp (1, 0) (0, 0) = Inr k0 \<and>
      kink_test mp (1, 1) (0, 1) = Inr k1 \<and> kink t' = [k0, k1]"
    by (simp add: t')
qed

lemma two_advance:
  assumes pa: "nbf t ka (int i) = Inr pa" and pb: "nbf t kb (int i) = Inr pb"
    and sa: "nbf_set t ka (int i + 1) va = Inr u"
    and sb: "nbf_set u kb (int i + 1) vb = Inr t'"
    and ne: "nat ka \<noteq> nat kb"
  shows "touch {nat ka, nat kb} i t t'"
    and "numBasisFunctions t' ! nat ka ! Suc i - numBasisFunctions t ! nat ka ! i = va - pa"
    and "numBasisFunctions t' ! nat kb ! Suc i - numBasisFunctions t ! nat kb ! i = vb - pb"
    and "kink t' = kink t"
proof -
  note a = nbf_set_touch [OF sa] and b = nbf_set_touch [OF sb]
  from a(1) b(1) show "touch {nat ka, nat kb} i t t'"
    by (auto simp: touch_def)
  from b(1) ne have "numBasisFunctions t' ! nat ka = numBasisFunctions u ! nat ka"
    by (simp add: touch_def)
  with a(2) nbf_value [OF pa]
  show "numBasisFunctions t' ! nat ka ! Suc i - numBasisFunctions t ! nat ka ! i = va - pa"
    by simp
  from a(1) have "numBasisFunctions u ! nat kb ! i = numBasisFunctions t ! nat kb ! i"
    by (simp add: touch_def)
  with b(2) nbf_value [OF pb]
  show "numBasisFunctions t' ! nat kb ! Suc i - numBasisFunctions t ! nat kb ! i = vb - pb"
    by simp
  from nbf_set_kink [OF sa] nbf_set_kink [OF sb] show "kink t' = kink t" by simp
qed

lemma boundary_step_twoPatch_touch:
  assumes "boundary_step_twoPatch mp mb0 i t = Inr t'"
  shows "touch {1, 3} i t t'" and "kink t' = kink t"
    and "\<forall>k \<in> {1, 3}. boundary_diff_twoPatch mp mb0 (m_neumannBdy t) k i
           (numBasisFunctions t' ! k ! Suc i - numBasisFunctions t ! k ! i)"
proof -
  from assms obtain sd b p3 p1 t2 sp where
    sd: "elem_at (boundaries mp) (int i) = Inr sd"
    and b: "edge_basis mb0 sd = Inr b"
    and p3: "nbf t 3 (int i) = Inr p3"
    and p1: "nbf t 1 (int i) = Inr p1"
    and sets: "(if m_neumannBdy t
            then ebind (nbf_set t 3 (int i + 1) (p3 + 2 * bsize b - 8))
                   (\<lambda>s. nbf_set s 1 (int i + 1) p1)
            else ebind (nbf_set t 3 (int i + 1) (p3 + bsize b - 4))
                   (\<lambda>s. nbf_set s 1 (int i + 1) (p1 + bsize b - 4))) = Inr t2"
    and t': "Inr (t2\<lparr>sizePlusBdy := sp\<rparr>) = (Inr t' :: error + g1system)"
    unfolding boundary_step_twoPatch_def
    by (elim ebind_InrE) (rule that, assumption+)
  from sd have sd': "sd = boundaries mp ! i" by (simp add: elem_at_Inr_iff)
  from t' have t': "t' = t2\<lparr>sizePlusBdy := sp\<rparr>" by simp
  show "touch {1, 3} i t t'" and "kink t' = kink t"
    and "\<forall>k \<in> {1, 3}. boundary_diff_twoPatch mp mb0 (m_neumannBdy t) k i
           (numBasisFunctions t' ! k ! Suc i - numBasisFunctions t ! k ! i)"
  proof (atomize (full), cases "m_neumannBdy t")
    case True
    with sets obtain u where sa: "nbf_set t 3 (int i + 1) (p3 + 2 * bsize b - 8) = Inr u"
      and sb: "nbf_set u 1 (int i + 1) p1 = Inr t2"
      by (auto elim: ebind_InrE)
    from two_advance [OF p3 p1 sa sb] True b
    show "touch {1, 3} i t t' \<and> kink t' = kink t \<and>
      (\<forall>k \<in> {1, 3}. boundary_diff_twoPatch mp mb0 (m_neumannBdy t) k i
           (numBasisFunctions t' ! k ! Suc i - numBasisFunctions t ! k ! i))"
      by (auto simp: t' sd' boundary_diff_twoPatch_def insert_commute)
  next
    case False
    with sets obtain u where sa: "nbf_set t 3 (int i + 1) (p3 + bsize b - 4) = Inr u"
      and sb: "nbf_set u 1 (int i + 1) (p1 + bsize b - 4) = Inr t2"
      by (auto elim: ebind_InrE)
    from two_advance [OF p3 p1 sa sb] False b
    show "touch {1, 3} i t t' \<and> kink t' = kink t \<and>
      (\<forall>k \<in> {1, 3}. boundary_diff_twoPatch mp mb0 (m_neumannBdy t) k i
           (numBasisFunctions t' ! k ! Suc i - numBasisFunctions t ! k ! i))"
      by (auto simp: t' sd' boundary_diff_twoPatch_def insert_commute)
  qed
qed

lemma set_vertex_touch:
  assumes "set_vertex i kind n2 n4 t = Inr t'"
  shows "touch {2, 4} i t t'" and "kink t' = kink t"
    and "numBasisFunctions t' ! 2 ! Suc i - numBasisFunctions t ! 2 ! i = n2"
    and "numBasisFunctions t' ! 4 ! Suc i - numBasisFunctions t ! 4 ! i = n4"
proof -
  from assms obtain kv p2 u p4 where
    p2: "nbf (t\<lparr>kindOfVertex := kv\<rparr>) 2 (int i) = Inr p2"
    and s2: "nbf_set (t\<lparr>kindOfVertex := kv\<rparr>) 2 (int i + 1) (p2 + n2) = Inr u"
    and p4: "nbf u 4 (int i) = Inr p4"
    and s4: "nbf_set u 4 (int i + 1) (p4 + n4) = Inr t'"
    unfolding set_vertex_def Let_def
    by (elim ebind_InrE) (rule that, assumption+)
  note a = advance' [OF p2 s2] and b = advance' [OF p4 s4]
  from a(1) b(1) show "touch {2, 4} i t t'"
    by (auto simp: touch_def)
  from b(1) have "numBasisFunctions t' ! 2 = numBasisFunctions u ! 2"
    by (simp add: touch_def)
  with a(2) show "numBasisFunctions t' ! 2 ! Suc i - numBasisFunctions t ! 2 ! i = n2"
    by simp
  from a(1) have "numBasisFunctions u ! 4 ! i = numBasisFunctions t ! 4 ! i"
    by (simp add: touch_def)
  with b(2) show "numBasisFunctions t' ! 4 ! Suc i - numBasisFunctions t ! 4 ! i = n4"
    by simp
  from nbf_set_kink [OF s2] nbf_set_kink [OF s4] show "kink t' = kink t" by simp
qed

lemma vertex_is_interior_Inr:
  "vertex_is_interior mp cs = Inr b \<Longrightarrow> b = (length cs = subInterfaces mp (map patch cs))"
  unfolding vertex_is_interior_def by (auto elim: ebind_InrE)

lemma set_vertex_diff:
  assumes "set_vertex i kind n2 n4 t = Inr t'"
    and "Q 2 i n2" and "Q 4 i n4"
  shows "touch {2, 4} i t t' \<and> kink t' = kink t \<and>
         (\<forall>k \<in> {2, 4}. Q k i (numBasisFunctions t' ! k ! Suc i - numBasisFunctions t ! k ! i))"
  using set_vertex_touch [OF assms(1)] assms(2,3) by simp

lemma vertex_step_twoPatch_touch:
  assumes "vertex_step_twoPatch mp i t = Inr t'"
  shows "touch {2, 4} i t t' \<and> kink t' = kink t \<and>
         (\<forall>k \<in> {2, 4}. vertex_diff_twoPatch mp (m_neumannBdy t) (kink t) k i
           (numBasisFunctions t' ! k ! Suc i - numBasisFunctions t ! k ! i))"
proof -
  from assms obtain cs where cs: "elem_at (vertices mp) (int i) = Inr cs"
    and rest: "(if length cs = 1 then
       (if m_neumannBdy t then set_vertex i (- 1) 0 4 t else set_vertex i (- 1) 1 3 t)
     else
       ebind (vertex_is_interior mp cs) (\<lambda>interior.
       if interior then set_vertex i 0 0 0 t
       else if m_neumannBdy t then set_vertex i 1 0 4 t
       else
         ebind (set_vertex i 1 0 2 t) (\<lambda>sys1.
         ebind (elem_at (kink sys1) (if i = 1 then 0 else 1)) (\<lambda>k.
         if k then ebind (nbf sys1 4 (int i + 1)) (\<lambda>cur. nbf_set sys1 4 (int i + 1) (cur + 1))
         else Inr sys1)))) = Inr t'"
    unfolding vertex_step_twoPatch_def by (rule ebind_InrE)
  from cs have cs': "cs = vertices mp ! i" by (simp add: elem_at_Inr_iff)
  let ?Q = "vertex_diff_twoPatch mp (m_neumannBdy t) (kink t)"
  show ?thesis
  proof (cases "length cs = 1")
    case True
    then have kind: "vertex_kind mp i = - 1" by (simp add: vertex_kind_def cs')
    show ?thesis
    proof (cases "m_neumannBdy t")
      case n: True
      with rest True have "set_vertex i (- 1) 0 4 t = Inr t'" by simp
      then show ?thesis
        by (rule set_vertex_diff) (simp_all add: vertex_diff_twoPatch_def kind n)
    next
      case n: False
      with rest True have "set_vertex i (- 1) 1 3 t = Inr t'" by simp
      then show ?thesis
        by (rule set_vertex_diff) (simp_all add: vertex_diff_twoPatch_def kind n)
    qed
  next
    case False
    with rest obtain interior where int: "vertex_is_interior mp cs = Inr interior"
      and rest': "(if interior then set_vertex i 0 0 0 t
       else if m_neumannBdy t then set_vertex i 1 0 4 t
       else
         ebind (set_vertex i 1 0 2 t) (\<lambda>sys1.
         ebind (elem_at (kink sys1) (if i = 1 then 0 else 1)) (\<lambda>k.
         if k then ebind (nbf sys1 4 (int i + 1)) (\<lambda>cur. nbf_set sys1 4 (int i + 1) (cur + 1))
         else Inr sys1))) = Inr t'"
      by (auto elim: ebind_InrE)
    note interior = vertex_is_interior_Inr [OF int]
    show ?thesis
    proof (cases interior)
      case True
      with interior False have kind: "vertex_kind mp i = 0" by (simp add: vertex_kind_def cs')
      from rest' True have "set_vertex i 0 0 0 t = Inr t'" by simp
      then show ?thesis
        by (rule set_vertex_diff) (simp_all add: vertex_diff_twoPatch_def kind)
    next
      case notint: False
      with interior False have kind: "vertex_kind mp i = 1" by (simp add: vertex_kind_def cs')
      show ?thesis
      proof (cases "m_neumannBdy t")
        case n: True
        with rest' notint have "set_vertex i 1 0 4 t = Inr t'" by simp
        then show ?thesis
          by (rule set_vertex_diff) (simp_all add: vertex_diff_twoPatch_def kind n)
      next
        case n: False
        with rest' notint obtain u k where u: "set_vertex i 1 0 2 t = Inr u"
          and k: "elem_at (kink u) (if i = 1 then 0 else 1) = Inr k"
          and last: "(if k then ebind (nbf u 4 (int i + 1)) (\<lambda>cur. nbf_set u 4 (int i + 1) (cur + 1))
                      else Inr u) = Inr t'"
          by (auto elim!: ebind_InrE)
        note v = set_vertex_touch [OF u]
        from k v(2) have kk: "k = kink t ! (if i = 1 then 0 else 1)"
          by (auto simp: elem_at_Inr_iff split: if_splits)
        show ?thesis
        proof (cases k)
          case False
          with last have "t' = u" by simp
          with v kk False show ?thesis
            by (simp add: vertex_diff_twoPatch_def kind n bool_int_def)
        next
          case True
          with last obtain cur where cur: "nbf u 4 (int i + 1) = Inr cur"
            and set: "nbf_set u 4 (int i + 1) (cur + 1) = Inr t'"
            by (auto elim: ebind_InrE)
          note w = nbf_set_touch [OF set]
          from cur have c: "cur = numBasisFunctions u ! 4 ! Suc i"
            by (simp add: nbf_Inr_iff nat_add_distrib)
          from v(1) w(1) have "touch {2, 4} i t t'"
            by (auto simp: touch_def)
          moreover from v(2) nbf_set_kink [OF set] have "kink t' = kink t" by simp
          moreover from w(1) have "numBasisFunctions t' ! 2 = numBasisFunctions u ! 2"
            by (simp add: touch_def)
          with v(3) have "numBasisFunctions t' ! 2 ! Suc i - numBasisFunctions t ! 2 ! i = 0"
            by simp
          moreover from w(2) c v(4)
          have "numBasisFunctions t' ! 4 ! Suc i - numBasisFunctions t ! 4 ! i = 3"
            by simp
          ultimately show ?thesis
            using kk True by (simp add: vertex_diff_twoPatch_def kind n bool_int_def)
        qed
      qed
    qed
  qed
qed

lemma interface_step_touch:
  assumes "interface_step mp mb0 i t = Inr t'"
  shows "touch {0} i t t'" and "kink t' = kink t"
    and "interface_diff mp mb0 i (numBasisFunctions t' ! 0 ! Suc i - numBasisFunctions t ! 0 ! i)"
proof -
  from assms obtain item b prev t2 sp where
    item: "elem_at (interfaces mp) (int i) = Inr item"
    and b: "edge_basis mb0 (first item) = Inr b"
    and prev: "nbf t 0 (int i) = Inr prev"
    and set: "nbf_set t 0 (int i + 1)
                (prev + 2 * (degree b - 1 - 1) * (numElements b - 1) + 2 * degree b - 9) = Inr t2"
    and t': "Inr (t2\<lparr>sizePlusInt := sp\<rparr>) = (Inr t' :: error + g1system)"
    unfolding interface_step_def Let_def
    by (elim ebind_InrE) (rule that, assumption+)
  from item have it: "item = interfaces mp ! i" by (simp add: elem_at_Inr_iff)
  from t' have t': "t' = t2\<lparr>sizePlusInt := sp\<rparr>" by simp
  from advance' [OF prev set] show "touch {0} i t t'"
    by (simp add: t')
  from advance'(2) [OF prev set] b
  show "interface_diff mp mb0 i (numBasisFunctions t' ! 0 ! Suc i - numBasisFunctions t ! 0 ! i)"
    unfolding interface_diff_def raw_count_def it t'
    by (intro exI [of _ b]) simp
  from nbf_set_kink [OF set] show "kink t' = kink t" by (simp add: t')
qed

lemma boundary_step_touch:
  assumes "boundary_step mp mb0 i t = Inr t'"
  shows "touch {1, 3} i t t' \<and> kink t' = kink t \<and>
    (\<forall>k \<in> {1, 3}. boundary_diff mp mb0 (m_neumannBdy t) k i
           (numBasisFunctions t' ! k ! Suc i - numBasisFunctions t ! k ! i))"
proof -
  from assms obtain sd b p3 p1 t2 sp where
    sd: "elem_at (boundaries mp) (int i) = Inr sd"
    and b: "edge_basis mb0 sd = Inr b"
    and p3: "nbf t 3 (int i) = Inr p3"
    and p1: "nbf t 1 (int i) = Inr p1"
    and sets: "(if m_neumannBdy t
            then ebind (nbf_set t 3 (int i + 1)
                          (p3 + 2 * (degree b - 1 - 1) * (numElements b - 1) + 2 * degree b + 1 - 10))
                   (\<lambda>s. nbf_set s 1 (int i + 1) p1)
            else ebind (nbf_set t 3 (int i + 1)
                          (p3 + (degree b - 1 - 1) * (numElements b - 1) + degree b + 1 - 6))
                   (\<lambda>s. nbf_set s 1 (int i + 1)
                          (p1 + (degree b - 1 - 1) * (numElements b - 1) + degree b - 4))) = Inr t2"
    and t': "Inr (t2\<lparr>sizePlusBdy := sp\<rparr>) = (Inr t' :: error + g1system)"
    unfolding boundary_step_def Let_def
    by (elim ebind_InrE) (rule that, assumption+)
  from sd have sd': "sd = boundaries mp ! i" by (simp add: elem_at_Inr_iff)
  from t' have t': "t' = t2\<lparr>sizePlusBdy := sp\<rparr>" by simp
  show ?thesis
  proof (cases "m_neumannBdy t")
    case True
    with sets obtain u where
      sa: "nbf_set t 3 (int i + 1)
             (p3 + 2 * (degree b - 1 - 1) * (numElements b - 1) + 2 * degree b + 1 - 10) = Inr u"
      and sb: "nbf_set u 1 (int i + 1) p1 = Inr t2"
      by (auto elim: ebind_InrE)
    from two_advance [OF p3 p1 sa sb] True b show ?thesis
      by (auto simp: t' sd' boundary_diff_def raw_count_def insert_commute)
  next
    case False
    with sets obtain u where
      sa: "nbf_set t 3 (int i + 1)
             (p3 + (degree b - 1 - 1) * (numElements b - 1) + degree b + 1 - 6) = Inr u"
      and sb: "nbf_set u 1 (int i + 1)
             (p1 + (degree b - 1 - 1) * (numElements b - 1) + degree b - 4) = Inr t2"
      by (auto elim: ebind_InrE)
    from two_advance [OF p3 p1 sa sb] False b show ?thesis
      by (auto simp: t' sd' boundary_diff_def insert_commute)
  qed
qed

lemma vertex_step_touch:
  assumes "vertex_step mp i t = Inr t'"
  shows "touch {2, 4} i t t' \<and> kink t' = kink t \<and>
         (\<forall>k \<in> {2, 4}. vertex_diff mp k i
           (numBasisFunctions t' ! k ! Suc i - numBasisFunctions t ! k ! i))"
proof -
  from assms obtain cs where cs: "elem_at (vertices mp) (int i) = Inr cs"
    and rest: "(if length cs = 1 then set_vertex i (- 1) 1 6 t
     else
       ebind (vertex_is_interior mp cs) (\<lambda>interior.
       if interior then set_vertex i 0 6 0 t
       else set_vertex i 1 3 6 t)) = Inr t'"
    unfolding vertex_step_def by (rule ebind_InrE)
  from cs have cs': "cs = vertices mp ! i" by (simp add: elem_at_Inr_iff)
  show ?thesis
  proof (cases "length cs = 1")
    case True
    then have kind: "vertex_kind mp i = - 1" by (simp add: vertex_kind_def cs')
    from rest True have "set_vertex i (- 1) 1 6 t = Inr t'" by simp
    then show ?thesis
      by (rule set_vertex_diff) (simp_all add: vertex_diff_def kind)
  next
    case False
    with rest obtain interior where int: "vertex_is_interior mp cs = Inr interior"
      and rest': "(if interior then set_vertex i 0 6 0 t else set_vertex i 1 3 6 t) = Inr t'"
      by (auto elim: ebind_InrE)
    note interior = vertex_is_interior_Inr [OF int]
    show ?thesis
    proof (cases interior)
      case True
      with interior False have kind: "vertex_kind mp i = 0" by (simp add: vertex_kind_def cs')
      from rest' True have "set_vertex i 0 6 0 t = Inr t'" by simp
      then show ?thesis
        by (rule set_vertex_diff) (simp_all add: vertex_diff_def kind)
    next
      case notint: False
      with interior False have kind: "vertex_kind mp i = 1" by (simp add: vertex_kind_def cs')
      from rest' notint have "set_vertex i 1 3 6 t = Inr t'" by simp
      then show ?thesis
        by (rule set_vertex_diff) (simp_all add: vertex_diff_def kind)
    qed
  qed
qed

lemma patch_sizes_cumulated:
  assumes "patch_sizes k b s = Inr s'"
  shows "cumulated {nat k} (length b) (patch_diff b) s s' \<and> kink s' = kink s"
  using assms unfolding patch_sizes_def
  by (rule cumulative_loop [where I = "\<lambda>t. kink t = kink s"])
    (use patch_sizes_step_touch in auto)

lemma interface_loop_twoPatch:
  assumes "for_loop [0..<n] (interface_step_twoPatch mp mb0 ikm) s = Inr s'"
  shows "cumulated {0} n (\<lambda>k. interface_diff_twoPatch mp mb0 ikm (m_neumannBdy s)) s s'"
proof -
  have "cumulated {0} n (\<lambda>k. interface_diff_twoPatch mp mb0 ikm (m_neumannBdy s)) s s' \<and> True"
    using assms
  proof (rule cumulative_loop [where I = "\<lambda>t. True"])
    fix i t t'
    assume "m_neumannBdy t = m_neumannBdy s" "interface_step_twoPatch mp mb0 ikm i t = Inr t'"
    with interface_step_twoPatch_touch(1,2) [of mp mb0 ikm i t t']
    show "True \<and> touch {0} i t t' \<and>
        (\<forall>k \<in> {0}. interface_diff_twoPatch mp mb0 ikm (m_neumannBdy s) i
           (numBasisFunctions t' ! k ! Suc i - numBasisFunctions t ! k ! i))"
      by simp
  qed simp
  then show ?thesis by simp
qed

lemma interface_loop_twoPatch_kink:
  assumes "for_loop [0..<n] (interface_step_twoPatch mp mb0 ikm) s = Inr s'" and "0 < n"
  shows "\<exists>k0 k1. kink_test mp (1, 0) (0, 0) = Inr k0 \<and> kink_test mp (1, 1) (0, 1) = Inr k1 \<and>
                 kink s' = [k0, k1]"
proof -
  from \<open>0 < n\<close> obtain m where n: "n = Suc m" by (cases n) auto
  from assms(1) have "ebind (for_loop [0..<m] (interface_step_twoPatch mp mb0 ikm) s)
      (for_loop [m] (interface_step_twoPatch mp mb0 ikm)) = Inr s'"
    unfolding n by (simp add: for_loop_append del: for_loop.simps)
  then obtain t where "for_loop [m] (interface_step_twoPatch mp mb0 ikm) t = Inr s'"
    by (rule ebind_InrE)
  then have "interface_step_twoPatch mp mb0 ikm m t = Inr s'"
    by (simp only: for_loop_single)
  then show ?thesis by (rule interface_step_twoPatch_touch(3))
qed

lemma boundary_loop_twoPatch:
  assumes "for_loop [0..<n] (boundary_step_twoPatch mp mb0) s = Inr s'"
  shows "cumulated {1, 3} n (boundary_diff_twoPatch mp mb0 (m_neumannBdy s)) s s' \<and> kink s' = kink s"
  using assms
proof (rule cumulative_loop [where I = "\<lambda>t. kink t = kink s"])
  fix i t t'
  assume "kink t = kink s" "m_neumannBdy t = m_neumannBdy s"
    "boundary_step_twoPatch mp mb0 i t = Inr t'"
  with boundary_step_twoPatch_touch [of mp mb0 i t t']
  show "kink t' = kink s \<and> touch {1, 3} i t t' \<and>
        (\<forall>k \<in> {1, 3}. boundary_diff_twoPatch mp mb0 (m_neumannBdy s) k i
           (numBasisFunctions t' ! k ! Suc i - numBasisFunctions t ! k ! i))"
    by simp
qed simp

lemma vertex_loop_twoPatch:
  assumes "for_loop [0..<n] (vertex_step_twoPatch mp) s = Inr s'"
  shows "cumulated {2, 4} n (vertex_diff_twoPatch mp (m_neumannBdy s) (kink s)) s s' \<and>
         kink s' = kink s"
  using assms
proof (rule cumulative_loop [where I = "\<lambda>t. kink t = kink s"])
  fix i t t'
  assume "kink t = kink s" "m_neumannBdy t = m_neumannBdy s" "vertex_step_twoPatch mp i t = Inr t'"
  with vertex_step_twoPatch_touch [of mp i t t']
  show "kink t' = kink s \<and> touch {2, 4} i t t' \<and>
        (\<forall>k \<in> {2, 4}. vertex_diff_twoPatch mp (m_neumannBdy s) (kink s) k i
           (numBasisFunctions t' ! k ! Suc i - numBasisFunctions t ! k ! i))"
    by simp
qed simp

lemma interface_loop:
  assumes "for_loop [0..<n] (interface_step mp mb0) s = Inr s'"
  shows "cumulated {0} n (\<lambda>k. interface_diff mp mb0) s s' \<and> kink s' = kink s"
  using assms
  by (rule cumulative_loop [where I = "\<lambda>t. kink t = kink s"])
    (use interface_step_touch in auto)

lemma boundary_loop:
  assumes "for_loop [0..<n] (boundary_step mp mb0) s = Inr s'"
  shows "cumulated {1, 3} n (boundary_diff mp mb0 (m_neumannBdy s)) s s' \<and> kink s' = kink s"
  using assms
proof (rule cumulative_loop [where I = "\<lambda>t. kink t = kink s"])
  fix i t t'
  assume "kink t = kink s" "m_neumannBdy t = m_neumannBdy s" "boundary_step mp mb0 i t = Inr t'"
  with boundary_step_touch [of mp mb0 i t t']
  show "kink t' = kink s \<and> touch {1, 3} i t t' \<and>
        (\<forall>k \<in> {1, 3}. boundary_diff mp mb0 (m_neumannBdy s) k i
           (numBasisFunctions t' ! k ! Suc i - numBasisFunctions t ! k ! i))"
    by simp
qed simp

lemma vertex_loop:
  assumes "for_loop [0..<n] (vertex_step mp) s = Inr s'"
  shows "cumulated {2, 4} n (vertex_diff mp) s s' \<and> kink s' = kink s"
  using assms
  by (rule cumulative_loop [where I = "\<lambda>t. kink t = kink s"])
    (use vertex_step_touch in auto)

lemma last_at_Inr_iff: "last_at xs = Inr v \<longleftrightarrow> xs \<noteq> [] \<and> v = last xs"
  by (cases xs rule: rev_cases) (auto simp: last_at_def elem_at_Inr_iff)

lemma nbf_last_Inr_iff:
  "nbf_last s k = Inr v \<longleftrightarrow>
     0 \<le> k \<and> k < int (length (numBasisFunctions s)) \<and> numBasisFunctions s ! nat k \<noteq> [] \<and>
     v = last (numBasisFunctions s ! nat k)"
  by (auto simp: nbf_last_def ebind_Inr_iff elem_at_Inr_iff last_at_Inr_iff)

lemma nbf_shift_Inr_iff:
  "nbf_shift s k c = Inr s' \<longleftrightarrow>
     0 \<le> k \<and> k < int (length (numBasisFunctions s)) \<and>
     s' = s\<lparr>numBasisFunctions :=
             (numBasisFunctions s)[nat k := map (\<lambda>x. x + c) (numBasisFunctions s ! nat k)]\<rparr>"
  by (auto simp: nbf_shift_def ebind_Inr_iff elem_at_Inr_iff set_at_Inr_iff)

lemma chain_tables_Inr:
  assumes "chain_tables s = Inr s'"
  shows "s' = s\<lparr>numBasisFunctions := numBasisFunctions s'\<rparr>"
    and "length (numBasisFunctions s') = length (numBasisFunctions s)"
    and "4 < length (numBasisFunctions s)"
    and "numBasisFunctions s' ! 0 = numBasisFunctions s ! 0"
    and "\<forall>k \<in> {1, 2, 3, 4}. numBasisFunctions s' ! k
           = map (\<lambda>x. x + last (numBasisFunctions s' ! (k - 1))) (numBasisFunctions s ! k)"
    and "\<forall>k < 4. numBasisFunctions s' ! k \<noteq> []"
    and "\<forall>k > 4. numBasisFunctions s' ! k = numBasisFunctions s ! k"
proof -
  from assms obtain l0 s1 l1 s2 l2 s3 l3 where
    l0: "nbf_last s 0 = Inr l0" and s1: "nbf_shift s 1 l0 = Inr s1"
    and l1: "nbf_last s1 1 = Inr l1" and s2: "nbf_shift s1 2 l1 = Inr s2"
    and l2: "nbf_last s2 2 = Inr l2" and s3: "nbf_shift s2 3 l2 = Inr s3"
    and l3: "nbf_last s3 3 = Inr l3" and s4: "nbf_shift s3 4 l3 = Inr s'"
    unfolding chain_tables_def by (elim ebind_InrE) (rule that, assumption+)
  note facts = l0 s1 l1 s2 l2 s3 l3 s4
  show "s' = s\<lparr>numBasisFunctions := numBasisFunctions s'\<rparr>"
    using facts by (simp add: nbf_shift_Inr_iff)
  show "length (numBasisFunctions s') = length (numBasisFunctions s)"
    using facts by (simp add: nbf_shift_Inr_iff)
  show len: "4 < length (numBasisFunctions s)"
    using facts by (simp add: nbf_shift_Inr_iff)
  show "numBasisFunctions s' ! 0 = numBasisFunctions s ! 0"
    using facts by (simp add: nbf_shift_Inr_iff)
  show "\<forall>k \<in> {1, 2, 3, 4}. numBasisFunctions s' ! k
           = map (\<lambda>x. x + last (numBasisFunctions s' ! (k - 1))) (numBasisFunctions s ! k)"
    using facts len by (simp add: nbf_shift_Inr_iff nbf_last_Inr_iff)
  show "\<forall>k < 4. numBasisFunctions s' ! k \<noteq> []"
  proof (intro allI impI)
    fix k :: nat assume "k < 4"
    then consider "k = 0" | "k = 1" | "k = 2" | "k = 3" by linarith
    then show "numBasisFunctions s' ! k \<noteq> []"
      using facts len by cases (simp_all add: nbf_shift_Inr_iff nbf_last_Inr_iff)
  qed
  show "\<forall>k > 4. numBasisFunctions s' ! k = numBasisFunctions s ! k"
    using facts by (simp add: nbf_shift_Inr_iff)
qed

lemma setup_matrices_Inr:
  assumes "setup_matrices s = Inr s'"
  shows "numBasisFunctions s' = numBasisFunctions s" and "kink s' = kink s"
    and "m_twoPatch s' = m_twoPatch s" and "m_neumannBdy s' = m_neumannBdy s"
    and "m_isogeometric s' = m_isogeometric s"
    and "dim_K s' = last (numBasisFunctions s ! 6)"
    and "dim_G1_Dofs s' = last (numBasisFunctions s ! 2)"
    and "dim_G1_Bdy s' = last (numBasisFunctions s ! 4) - numBasisFunctions s ! 3 ! 0"
    and "D_sparse s' = sparse_resize (dim_G1_Dofs s' + dim_G1_Bdy s' + dim_K s') (dim_K s')"
  using assms unfolding setup_matrices_def Let_def
  by (auto simp: ebind_Inr_iff nbf_last_Inr_iff nbf_Inr_iff)

lemma interface_columns_twoPatch_Inr:
  assumes "interface_columns_twoPatch mb s = Inr s'"
  shows "m_neumannBdy s' = m_neumannBdy s \<and> m_twoPatch s' = m_twoPatch s \<and>
         m_isogeometric s' = m_isogeometric s \<and> kink s' = kink s \<and>
         length (numBasisFunctions s') = length (numBasisFunctions s) \<and>
         (\<forall>k. k \<noteq> 6 \<longrightarrow> numBasisFunctions s' ! k = numBasisFunctions s ! k)"
proof (cases "\<not> m_isogeometric s \<and> length mb = 2")
  case True
  with assms obtain l5 s1 mb1 where "nbf_set s 6 0 l5 = Inr s1"
    and "patch_sizes 6 mb1 s1 = Inr s'"
    unfolding interface_columns_twoPatch_def by (auto elim!: ebind_InrE)
  then show ?thesis
    using patch_sizes_cumulated [of 6 mb1 s1 s']
    by (auto simp: nbf_set_Inr_iff cumulated_def)
next
  case False
  show ?thesis
  proof (cases "m_isogeometric s")
    case True
    with assms obtain mb0 where "patch_sizes 6 mb0 s = Inr s'"
      unfolding interface_columns_twoPatch_def by (auto elim!: ebind_InrE)
    then show ?thesis
      using patch_sizes_cumulated [of 6 mb0 s s'] by (auto simp: cumulated_def)
  next
    case iso: False
    with False assms have "s' = s"
      unfolding interface_columns_twoPatch_def by auto
    then show ?thesis by simp
  qed
qed

lemma diffs_map: "table_diffs Q n xs \<Longrightarrow> table_diffs Q n (map (\<lambda>x. x + c) xs)"
  by (simp add: table_diffs_def)

lemma cumulated_diffs:
  assumes "cumulated K n Q s s'" and "k \<in> K" and "length (numBasisFunctions s ! k) = Suc n"
  shows "table_diffs (Q k) n (numBasisFunctions s' ! k)"
  using assms by (simp add: cumulated_def table_diffs_def)

lemma cumulated_same:
  assumes "cumulated K n Q s s'" and "k \<notin> K"
  shows "numBasisFunctions s' ! k = numBasisFunctions s ! k"
  using assms by (simp add: cumulated_def)

lemma cumulated_zero:
  assumes "cumulated K n Q s s'"
  shows "numBasisFunctions s' ! k ! 0 = numBasisFunctions s ! k ! 0"
    and "length (numBasisFunctions s' ! k) = length (numBasisFunctions s ! k)"
    and "length (numBasisFunctions s') = length (numBasisFunctions s)"
    and "m_neumannBdy s' = m_neumannBdy s"
    and "m_twoPatch s' = m_twoPatch s"
    and "m_isogeometric s' = m_isogeometric s"
  using assms by (simp_all add: cumulated_def)

lemma allocate_tables_simps:
  "m_neumannBdy (allocate_tables mp sys) = m_neumannBdy sys"
  "m_twoPatch (allocate_tables mp sys) = m_twoPatch sys"
  "m_isogeometric (allocate_tables mp sys) = m_isogeometric sys"
  "kink (allocate_tables mp sys) = kink sys"
  "length (numBasisFunctions (allocate_tables mp sys)) = 7"
  "numBasisFunctions (allocate_tables mp sys) ! 0 = replicate (Suc (length (interfaces mp))) 0"
  "numBasisFunctions (allocate_tables mp sys) ! 1 = replicate (Suc (length (boundaries mp))) 0"
  "numBasisFunctions (allocate_tables mp sys) ! Suc 0 = replicate (Suc (length (boundaries mp))) 0"
  "numBasisFunctions (allocate_tables mp sys) ! 2 = replicate (Suc (length (vertices mp))) 0"
  "numBasisFunctions (allocate_tables mp sys) ! 3 = replicate (Suc (length (boundaries mp))) 0"
  "numBasisFunctions (allocate_tables mp sys) ! 4 = replicate (Suc (length (vertices mp))) 0"
  by (simp_all add: allocate_tables_def Let_def eval_nat_numeral)

text \<open>The tables of the five entity categories after the three entity loops.\<close>

lemma entity_loops:
  assumes s1: "cumulated {5} n5 Q5 (allocate_tables mp sys) s1" and k1: "kink s1 = kink sys"
    and s2: "m_neumannBdy s2 = m_neumannBdy s1 \<and> m_twoPatch s2 = m_twoPatch s1 \<and>
         m_isogeometric s2 = m_isogeometric s1 \<and> kink s2 = kink s1 \<and>
         length (numBasisFunctions s2) = length (numBasisFunctions s1) \<and>
         (\<forall>k. k \<noteq> 6 \<longrightarrow> numBasisFunctions s2 ! k = numBasisFunctions s1 ! k)"
    and s3: "cumulated {0} (length (interfaces mp)) (\<lambda>k. Q0) s2 s3"
    and s4: "cumulated {1, 3} (length (boundaries mp)) Q13 s3 s4" and k4: "kink s4 = kink s3"
    and s5: "cumulated {2, 4} (length (vertices mp)) Q24 s4 s5" and k5: "kink s5 = kink s4"
  shows "length (numBasisFunctions s5) = 7"
    and "m_neumannBdy s5 = m_neumannBdy sys" and "m_twoPatch s5 = m_twoPatch sys"
    and "m_isogeometric s5 = m_isogeometric sys"
    and "kink s5 = kink s3"
    and "\<forall>k \<le> 4. numBasisFunctions s5 ! k ! 0 = 0"
    and "table_diffs Q0 (length (interfaces mp)) (numBasisFunctions s5 ! 0)"
    and "\<forall>k \<in> {1, 3}. table_diffs (Q13 k) (length (boundaries mp)) (numBasisFunctions s5 ! k)"
    and "\<forall>k \<in> {2, 4}. table_diffs (Q24 k) (length (vertices mp)) (numBasisFunctions s5 ! k)"
proof -
  note z = cumulated_zero
  show "length (numBasisFunctions s5) = 7"
    using z(3) [OF s5] z(3) [OF s4] z(3) [OF s3] s2 z(3) [OF s1]
    by (simp add: allocate_tables_simps)
  show "m_neumannBdy s5 = m_neumannBdy sys" and "m_twoPatch s5 = m_twoPatch sys"
    and "m_isogeometric s5 = m_isogeometric sys"
    using z(4-6) [OF s5] z(4-6) [OF s4] z(4-6) [OF s3] s2 z(4-6) [OF s1]
    by (simp_all add: allocate_tables_simps)
  show "kink s5 = kink s3" using k4 k5 by simp
  have pre: "numBasisFunctions s2 ! k = numBasisFunctions (allocate_tables mp sys) ! k"
    if "k \<le> 4" for k
    using that s2 cumulated_same [OF s1, of k] by simp
  have zero: "numBasisFunctions s2 ! k ! 0 = 0" if "k \<le> 4" for k
  proof -
    from that consider "k = 0" | "k = 1" | "k = 2" | "k = 3" | "k = 4" by linarith
    then show ?thesis
      by cases (simp_all add: pre allocate_tables_simps)
  qed
  show "\<forall>k \<le> 4. numBasisFunctions s5 ! k ! 0 = 0"
    using z(1) [OF s5] z(1) [OF s4] z(1) [OF s3] zero by simp
  have "table_diffs Q0 (length (interfaces mp)) (numBasisFunctions s3 ! 0)"
    by (rule cumulated_diffs [OF s3]) (simp_all add: pre allocate_tables_simps)
  then show "table_diffs Q0 (length (interfaces mp)) (numBasisFunctions s5 ! 0)"
    using cumulated_same [OF s4, of 0] cumulated_same [OF s5, of 0] by simp
  have "table_diffs (Q13 k) (length (boundaries mp)) (numBasisFunctions s4 ! k)" if "k \<in> {1, 3}" for k
    by (rule cumulated_diffs [OF s4 that])
      (use that in \<open>auto simp: cumulated_same [OF s3] pre allocate_tables_simps\<close>)
  then show "\<forall>k \<in> {1, 3}. table_diffs (Q13 k) (length (boundaries mp)) (numBasisFunctions s5 ! k)"
    using cumulated_same [OF s5, of 1] cumulated_same [OF s5, of 3] by simp
  show "\<forall>k \<in> {2, 4}. table_diffs (Q24 k) (length (vertices mp)) (numBasisFunctions s5 ! k)"
  proof
    fix k :: nat assume k: "k \<in> {2, 4}"
    show "table_diffs (Q24 k) (length (vertices mp)) (numBasisFunctions s5 ! k)"
      by (rule cumulated_diffs [OF s5 k])
        (use k in \<open>auto simp: cumulated_same [OF s4] cumulated_same [OF s3] pre
           allocate_tables_simps\<close>)
  qed
qed

lemma chain_setup:
  assumes len: "length (numBasisFunctions s5) = 7"
    and zero: "\<forall>k \<le> 4. numBasisFunctions s5 ! k ! 0 = 0"
    and d0: "table_diffs Q0 (length (interfaces mp)) (numBasisFunctions s5 ! 0)"
    and d13: "\<forall>k \<in> {1, 3}. table_diffs (Q13 k) (length (boundaries mp)) (numBasisFunctions s5 ! k)"
    and d24: "\<forall>k \<in> {2, 4}. table_diffs (Q24 k) (length (vertices mp)) (numBasisFunctions s5 ! k)"
    and run: "ebind (chain_tables s5) setup_matrices = Inr s"
  shows "tables_ok Q0 Q13 Q24 mp s"
    and "kink s = kink s5" and "m_neumannBdy s = m_neumannBdy s5"
    and "m_twoPatch s = m_twoPatch s5" and "m_isogeometric s = m_isogeometric s5"
    and "dim_K s = last (numBasisFunctions s ! 6)"
    and "dim_G1_Dofs s = last (numBasisFunctions s ! 2)"
    and "dim_G1_Bdy s = last (numBasisFunctions s ! 4) - numBasisFunctions s ! 3 ! 0"
    and "D_sparse s = sparse_resize (dim_G1_Dofs s + dim_G1_Bdy s + dim_K s) (dim_K s)"
    and "numBasisFunctions s ! 5 = numBasisFunctions s5 ! 5"
    and "numBasisFunctions s ! 6 = numBasisFunctions s5 ! 6"
proof -
  from run obtain s6 where c: "chain_tables s5 = Inr s6" and m: "setup_matrices s6 = Inr s"
    by (rule ebind_InrE)
  note ch = chain_tables_Inr [OF c] and su = setup_matrices_Inr [OF m]
  have T: "numBasisFunctions s = numBasisFunctions s6" by (rule su(1))
  from ch(1) have fields: "kink s6 = kink s5" "m_neumannBdy s6 = m_neumannBdy s5"
    "m_twoPatch s6 = m_twoPatch s5" "m_isogeometric s6 = m_isogeometric s5"
    by (metis g1system.select_convs g1system.update_convs(7) g1system.surjective)+
  show "kink s = kink s5" and "m_neumannBdy s = m_neumannBdy s5"
    and "m_twoPatch s = m_twoPatch s5" and "m_isogeometric s = m_isogeometric s5"
    using su fields by simp_all
  show "dim_K s = last (numBasisFunctions s ! 6)"
    and "dim_G1_Dofs s = last (numBasisFunctions s ! 2)"
    and "dim_G1_Bdy s = last (numBasisFunctions s ! 4) - numBasisFunctions s ! 3 ! 0"
    and "D_sparse s = sparse_resize (dim_G1_Dofs s + dim_G1_Bdy s + dim_K s) (dim_K s)"
    using su by (simp_all add: T)
  show "numBasisFunctions s ! 5 = numBasisFunctions s5 ! 5"
    and "numBasisFunctions s ! 6 = numBasisFunctions s5 ! 6"
    using ch(7) by (simp_all add: T)
  have shifted: "numBasisFunctions s6 ! k
      = map (\<lambda>x. x + last (numBasisFunctions s6 ! (k - 1))) (numBasisFunctions s5 ! k)"
    if "k \<in> {1, 2, 3, 4}" for k
    using ch(5) that by blast
  have nonempty: "numBasisFunctions s5 ! k \<noteq> []" if "k \<in> {1, 2, 3, 4}" for k
    using d13 d24 that by (auto simp: table_diffs_def)
  have start: "numBasisFunctions s6 ! Suc k ! 0 = last (numBasisFunctions s6 ! k)" if "k < 4" for k
  proof -
    from that have k: "Suc k \<in> {1, 2, 3, 4}" by auto
    from zero that have "numBasisFunctions s5 ! Suc k ! 0 = 0" by simp
    with nonempty [OF k] show ?thesis
      unfolding shifted [OF k] by (simp add: nth_map)
  qed
  show "tables_ok Q0 Q13 Q24 mp s"
    unfolding tables_ok_def T
  proof (intro conjI)
    show "length (numBasisFunctions s6) = 7" using ch(2) len by simp
    show "numBasisFunctions s6 ! 0 ! 0 = 0" using ch(4) zero by simp
    show "\<forall>k < 4. numBasisFunctions s6 ! k \<noteq> [] \<and>
              numBasisFunctions s6 ! Suc k ! 0 = last (numBasisFunctions s6 ! k)"
      using ch(6) start by simp
    show "table_diffs Q0 (length (interfaces mp)) (numBasisFunctions s6 ! 0)"
      using d0 ch(4) by simp
    show "\<forall>k \<in> {1, 3}. table_diffs (Q13 k) (length (boundaries mp)) (numBasisFunctions s6 ! k)"
    proof
      fix k :: nat assume k: "k \<in> {1, 3}"
      then have "k \<in> {1, 2, 3, 4}" by auto
      from shifted [OF this] d13 k show "table_diffs (Q13 k) (length (boundaries mp)) (numBasisFunctions s6 ! k)"
        by (simp only: diffs_map)
    qed
    show "\<forall>k \<in> {2, 4}. table_diffs (Q24 k) (length (vertices mp)) (numBasisFunctions s6 ! k)"
    proof
      fix k :: nat assume k: "k \<in> {2, 4}"
      then have "k \<in> {1, 2, 3, 4}" by auto
      from shifted [OF this] d24 k show "table_diffs (Q24 k) (length (vertices mp)) (numBasisFunctions s6 ! k)"
        by (simp only: diffs_map)
    qed
  qed
qed

lemma initialize_twoPatch_tables:
  assumes "initialize_twoPatch mp mb ikm sys = Inr s"
  shows "tables_ok (interface_diff_twoPatch mp (mb ! 0) ikm (m_neumannBdy sys))
           (boundary_diff_twoPatch mp (mb ! 0) (m_neumannBdy sys))
           (vertex_diff_twoPatch mp (m_neumannBdy sys) (kink s)) mp s"
    and "m_neumannBdy s = m_neumannBdy sys" and "m_twoPatch s = m_twoPatch sys"
    and "m_isogeometric s = m_isogeometric sys"
    and "interfaces mp \<noteq> [] \<Longrightarrow>
           \<exists>k0 k1. kink_test mp (1, 0) (0, 0) = Inr k0 \<and> kink_test mp (1, 1) (0, 1) = Inr k1 \<and>
                   kink s = [k0, k1]"
    and "dim_K s = last (numBasisFunctions s ! 6)"
    and "dim_G1_Dofs s = last (numBasisFunctions s ! 2)"
    and "dim_G1_Bdy s = last (numBasisFunctions s ! 4) - numBasisFunctions s ! 3 ! 0"
    and "D_sparse s = sparse_resize (dim_G1_Dofs s + dim_G1_Bdy s + dim_K s) (dim_K s)"
proof -
  from assms obtain mb0 s1 s2 s3 s4 s5 s6 where
    mb0: "elem_at mb 0 = Inr mb0"
    and s1: "patch_sizes 5 mb0 (allocate_tables mp sys) = Inr s1"
    and s2: "interface_columns_twoPatch mb s1 = Inr s2"
    and s3: "for_loop [0..<length (interfaces mp)] (interface_step_twoPatch mp mb0 ikm) s2 = Inr s3"
    and s4: "for_loop [0..<length (boundaries mp)] (boundary_step_twoPatch mp mb0) s3 = Inr s4"
    and s5: "for_loop [0..<length (vertices mp)] (vertex_step_twoPatch mp) s4 = Inr s5"
    and s6: "chain_tables s5 = Inr s6" and s7: "setup_matrices s6 = Inr s"
    unfolding initialize_twoPatch_def by (elim ebind_InrE) (rule that, assumption+)
  from s6 s7 have run: "ebind (chain_tables s5) setup_matrices = Inr s" by simp
  from mb0 have mb0': "mb0 = mb ! 0" by (simp add: elem_at_Inr_iff)
  note c1 = patch_sizes_cumulated [OF s1, simplified]
    and c2 = interface_columns_twoPatch_Inr [OF s2]
    and c3 = interface_loop_twoPatch [OF s3]
    and c4 = boundary_loop_twoPatch [OF s4]
    and c5 = vertex_loop_twoPatch [OF s5]
  have n2: "m_neumannBdy s2 = m_neumannBdy sys"
    using c2 cumulated_zero(4) [OF conjunct1 [OF c1]] by (simp add: allocate_tables_simps)
  have n3: "m_neumannBdy s3 = m_neumannBdy sys"
    using cumulated_zero(4) [OF c3] n2 by simp
  have n4: "m_neumannBdy s4 = m_neumannBdy sys"
    using cumulated_zero(4) [OF conjunct1 [OF c4]] n3 by simp
  note loops = entity_loops [OF conjunct1 [OF c1] _ c2 c3 conjunct1 [OF c4] conjunct2 [OF c4]
      conjunct1 [OF c5] conjunct2 [OF c5]]
  have k1: "kink s1 = kink sys" using c1 by (simp add: allocate_tables_simps)
  note l = loops [OF k1]
  have k54: "kink s5 = kink s4" using c5 by simp
  note fin = chain_setup [OF l(1) l(6) l(7) l(8) l(9) run]
  have ks: "kink s = kink s4" using fin(2) k54 by simp
  show "tables_ok (interface_diff_twoPatch mp (mb ! 0) ikm (m_neumannBdy sys))
           (boundary_diff_twoPatch mp (mb ! 0) (m_neumannBdy sys))
           (vertex_diff_twoPatch mp (m_neumannBdy sys) (kink s)) mp s"
    using fin(1) by (simp add: n2 n3 n4 ks mb0')
  show "m_neumannBdy s = m_neumannBdy sys" and "m_twoPatch s = m_twoPatch sys"
    and "m_isogeometric s = m_isogeometric sys"
    using fin(3-5) l(2-4) by simp_all
  show "dim_K s = last (numBasisFunctions s ! 6)"
    and "dim_G1_Dofs s = last (numBasisFunctions s ! 2)"
    and "dim_G1_Bdy s = last (numBasisFunctions s ! 4) - numBasisFunctions s ! 3 ! 0"
    and "D_sparse s = sparse_resize (dim_G1_Dofs s + dim_G1_Bdy s + dim_K s) (dim_K s)"
    by (rule fin(6-9))+
  show "\<exists>k0 k1. kink_test mp (1, 0) (0, 0) = Inr k0 \<and> kink_test mp (1, 1) (0, 1) = Inr k1 \<and>
                   kink s = [k0, k1]" if "interfaces mp \<noteq> []"
  proof -
    from that have "0 < length (interfaces mp)" by simp
    from interface_loop_twoPatch_kink [OF s3 this] show ?thesis
      using fin(2) l(5) by simp
  qed
qed

lemma initialize_tables:
  assumes "initialize mp mb sys = Inr s"
  shows "tables_ok (interface_diff mp (mb ! 0)) (boundary_diff mp (mb ! 0) (m_neumannBdy sys))
           (vertex_diff mp) mp s"
    and "m_neumannBdy s = m_neumannBdy sys" and "m_twoPatch s = m_twoPatch sys"
    and "m_isogeometric s = m_isogeometric sys"
    and "dim_K s = last (numBasisFunctions s ! 6)"
    and "dim_G1_Dofs s = last (numBasisFunctions s ! 2)"
    and "dim_G1_Bdy s = last (numBasisFunctions s ! 4) - numBasisFunctions s ! 3 ! 0"
    and "D_sparse s = sparse_resize (dim_G1_Dofs s + dim_G1_Bdy s + dim_K s) (dim_K s)"
proof -
  from assms obtain mb0 s1 s2 s3 s4 s5 s6 where
    mb0: "elem_at mb 0 = Inr mb0"
    and s1: "patch_sizes 5 mb0 (allocate_tables mp sys) = Inr s1"
    and s2: "(if m_isogeometric s1 then patch_sizes 6 mb0 s1 else Inr s1) = Inr s2"
    and s3: "for_loop [0..<length (interfaces mp)] (interface_step mp mb0) s2 = Inr s3"
    and s4: "for_loop [0..<length (boundaries mp)] (boundary_step mp mb0) s3 = Inr s4"
    and s5: "for_loop [0..<length (vertices mp)] (vertex_step mp) s4 = Inr s5"
    and s6: "chain_tables s5 = Inr s6" and s7: "setup_matrices s6 = Inr s"
    unfolding initialize_def by (elim ebind_InrE) (rule that, assumption+)
  from s6 s7 have run: "ebind (chain_tables s5) setup_matrices = Inr s" by simp
  from mb0 have mb0': "mb0 = mb ! 0" by (simp add: elem_at_Inr_iff)
  note c1 = patch_sizes_cumulated [OF s1, simplified]
    and c3 = interface_loop [OF s3]
    and c4 = boundary_loop [OF s4]
    and c5 = vertex_loop [OF s5]
  have c2: "m_neumannBdy s2 = m_neumannBdy s1 \<and> m_twoPatch s2 = m_twoPatch s1 \<and>
         m_isogeometric s2 = m_isogeometric s1 \<and> kink s2 = kink s1 \<and>
         length (numBasisFunctions s2) = length (numBasisFunctions s1) \<and>
         (\<forall>k. k \<noteq> 6 \<longrightarrow> numBasisFunctions s2 ! k = numBasisFunctions s1 ! k)"
  proof (cases "m_isogeometric s1")
    case True
    with s2 have "patch_sizes 6 mb0 s1 = Inr s2" by simp
    from patch_sizes_cumulated [OF this] show ?thesis by (auto simp: cumulated_def)
  next
    case False
    with s2 show ?thesis by simp
  qed
  have n2: "m_neumannBdy s2 = m_neumannBdy sys"
    using c2 cumulated_zero(4) [OF conjunct1 [OF c1]] by (simp add: allocate_tables_simps)
  have n3: "m_neumannBdy s3 = m_neumannBdy sys"
    using cumulated_zero(4) [OF conjunct1 [OF c3]] n2 by simp
  have k1: "kink s1 = kink sys" using c1 by (simp add: allocate_tables_simps)
  note l = entity_loops [OF conjunct1 [OF c1] k1 c2 conjunct1 [OF c3] conjunct1 [OF c4]
      conjunct2 [OF c4] conjunct1 [OF c5] conjunct2 [OF c5]]
  note fin = chain_setup [OF l(1) l(6) l(7) l(8) l(9) run]
  show "tables_ok (interface_diff mp (mb ! 0)) (boundary_diff mp (mb ! 0) (m_neumannBdy sys))
           (vertex_diff mp) mp s"
    using fin(1) by (simp add: n3 mb0')
  show "m_neumannBdy s = m_neumannBdy sys" and "m_twoPatch s = m_twoPatch sys"
    and "m_isogeometric s = m_isogeometric sys"
    using fin(3-5) l(2-4) by simp_all
  show "dim_K s = last (numBasisFunctions s ! 6)"
    and "dim_G1_Dofs s = last (numBasisFunctions s ! 2)"
    and "dim_G1_Bdy s = last (numBasisFunctions s ! 4) - numBasisFunctions s ! 3 ! 0"
    and "D_sparse s = sparse_resize (dim_G1_Dofs s + dim_G1_Bdy s + dim_K s) (dim_K s)"
    by (rule fin(6-9))+
qed

section \<open>The claims about the allocator\<close>

lemma example_smooth_eq:
  "initialize_twoPatch (two_patches straight) [[example_basis, example_basis]] 0
     (construct False True True) = Inr example_smooth"
  by code_simp

lemma example_kinked_eq:
  "initialize_twoPatch (two_patches turned) [[example_basis, example_basis]] 0
     (construct False True True) = Inr example_initial"
  by code_simp

lemma example_general_eq:
  "initialize (two_patches straight) [[example_basis, example_basis]]
     (construct False False True) = Inr example_general"
  by code_simp

text \<open>
  C2.  The claim gives the interface count as the raw count minus 4 (minus 8 in Neumann
  mode) minus 2 per kink, in both initializers.  The general initializer subtracts 10
  whatever the mode (here: raw count 9, count \<open>-1\<close>, not 5), and the two-patch initializer
  subtracts 1 per kink (here, with a kink at both ends: count 3, not 1).
\<close>

theorem interface_count_is_not_raw_minus_4:
  "initialize (two_patches straight) [[example_basis, example_basis]] (construct False False True)
     = Inr example_general
   \<and> numBasisFunctions example_general ! 0 = [0, - 1]
   \<and> raw_count 3 1 2 - 4 = 5
   \<and> initialize_twoPatch (two_patches turned) [[example_basis, example_basis]] 0
        (construct False True True) = Inr example_initial
   \<and> kink example_initial = [True, True]
   \<and> numBasisFunctions example_initial ! 0 = [0, 3]
   \<and> raw_count 3 1 2 - 4 - 2 * 2 = 1"
  by code_simp

text \<open>
  C2, as the code has it.  In \<^verbatim>\<open>initialize_twoPatch\<close> the count of an interface is the raw
  count for the lower degree, the regularity and the smaller element count of its two
  sides, minus 4 (8 in Neumann mode), minus 1 for each of the two ends with a kink, plus
  6 when \<^verbatim>\<open>innerKnotMulti\<close> is positive and \<open>m_p - 1 - m_r = 1\<close>.  In \<^verbatim>\<open>initialize\<close> it is
  the raw count for the degree and element count of the first side with regularity 1,
  minus 10, in every mode.
\<close>

theorem interface_counts:
  "(initialize_twoPatch mp mb innerKnotMulti sys = Inr s \<longrightarrow>
      (\<forall>i < length (interfaces mp). \<exists>b1 b2 k0 k1.
         edge_basis (mb ! 0) (first (interfaces mp ! i)) = Inr b1 \<and>
         edge_basis (mb ! 0) (second (interfaces mp ! i)) = Inr b2 \<and>
         kink_test mp (1, 0) (0, 0) = Inr k0 \<and> kink_test mp (1, 1) (0, 1) = Inr k1 \<and>
         numBasisFunctions s ! 0 ! Suc i - numBasisFunctions s ! 0 ! i
           = raw_count (interface_degree b1 b2) (interface_regularity b1 b2)
               (interface_elements b1 b2)
             - (if m_neumannBdy sys then 8 else 4) - bool_int k0 - bool_int k1
             + 2 * (if innerKnotMulti > 0 \<and>
                       interface_degree b1 b2 - 1 - interface_regularity b1 b2 = 1
                    then 3 else 0))) \<and>
   (initialize mp mb sys = Inr s \<longrightarrow>
      (\<forall>i < length (interfaces mp). \<exists>b.
         edge_basis (mb ! 0) (first (interfaces mp ! i)) = Inr b \<and>
         numBasisFunctions s ! 0 ! Suc i - numBasisFunctions s ! 0 ! i
           = raw_count (degree b) 1 (numElements b) - 10))"
proof (intro conjI impI)
  assume "initialize_twoPatch mp mb innerKnotMulti sys = Inr s"
  from initialize_twoPatch_tables(1) [OF this]
  have "table_diffs (interface_diff_twoPatch mp (mb ! 0) innerKnotMulti (m_neumannBdy sys))
          (length (interfaces mp)) (numBasisFunctions s ! 0)"
    by (simp add: tables_ok_def)
  then show "\<forall>i < length (interfaces mp). \<exists>b1 b2 k0 k1.
         edge_basis (mb ! 0) (first (interfaces mp ! i)) = Inr b1 \<and>
         edge_basis (mb ! 0) (second (interfaces mp ! i)) = Inr b2 \<and>
         kink_test mp (1, 0) (0, 0) = Inr k0 \<and> kink_test mp (1, 1) (0, 1) = Inr k1 \<and>
         numBasisFunctions s ! 0 ! Suc i - numBasisFunctions s ! 0 ! i
           = raw_count (interface_degree b1 b2) (interface_regularity b1 b2)
               (interface_elements b1 b2)
             - (if m_neumannBdy sys then 8 else 4) - bool_int k0 - bool_int k1
             + 2 * (if innerKnotMulti > 0 \<and>
                       interface_degree b1 b2 - 1 - interface_regularity b1 b2 = 1
                    then 3 else 0)"
    unfolding table_diffs_def interface_diff_twoPatch_def by blast
next
  assume "initialize mp mb sys = Inr s"
  from initialize_tables(1) [OF this]
  have "table_diffs (interface_diff mp (mb ! 0)) (length (interfaces mp)) (numBasisFunctions s ! 0)"
    by (simp add: tables_ok_def)
  then show "\<forall>i < length (interfaces mp). \<exists>b.
         edge_basis (mb ! 0) (first (interfaces mp ! i)) = Inr b \<and>
         numBasisFunctions s ! 0 ! Suc i - numBasisFunctions s ! 0 ! i
           = raw_count (degree b) 1 (numElements b) - 10"
    unfolding table_diffs_def interface_diff_def by blast
qed

theorem interface_counts_witness:
  "initialize_twoPatch (two_patches turned) [[example_basis, example_basis]] 0
        (construct False True True) = Inr example_initial
   \<and> (0::nat) < length (interfaces (two_patches turned))
   \<and> (\<exists>b1 b2 k0 k1.
         edge_basis ([[example_basis, example_basis]] ! 0)
           (first (interfaces (two_patches turned) ! 0)) = Inr b1 \<and>
         edge_basis ([[example_basis, example_basis]] ! 0)
           (second (interfaces (two_patches turned) ! 0)) = Inr b2 \<and>
         kink_test (two_patches turned) (1, 0) (0, 0) = Inr k0 \<and>
         kink_test (two_patches turned) (1, 1) (0, 1) = Inr k1 \<and>
         numBasisFunctions example_initial ! 0 ! Suc 0 - numBasisFunctions example_initial ! 0 ! 0
           = raw_count (interface_degree b1 b2) (interface_regularity b1 b2)
               (interface_elements b1 b2)
             - (if m_neumannBdy (construct False True True) then 8 else 4)
             - bool_int k0 - bool_int k1
             + 2 * (if (0::int) > 0 \<and>
                       interface_degree b1 b2 - 1 - interface_regularity b1 b2 = 1
                    then 3 else 0))
   \<and> initialize (two_patches straight) [[example_basis, example_basis]]
        (construct False False True) = Inr example_general
   \<and> (0::nat) < length (interfaces (two_patches straight))
   \<and> (\<exists>b.
         edge_basis ([[example_basis, example_basis]] ! 0)
           (first (interfaces (two_patches straight) ! 0)) = Inr b \<and>
         numBasisFunctions example_general ! 0 ! Suc 0 - numBasisFunctions example_general ! 0 ! 0
           = raw_count (degree b) 1 (numElements b) - 10)"
proof -
  have l1: "(0::nat) < length (interfaces (two_patches turned))"
    and l2: "(0::nat) < length (interfaces (two_patches straight))"
    by (simp_all add: two_patches_def)
  show ?thesis
    using interface_counts [THEN conjunct1, rule_format, OF example_kinked_eq l1]
      interface_counts [THEN conjunct2, rule_format, OF example_general_eq l2]
      example_kinked_eq example_general_eq l1 l2
    by blast
qed













lemma kink_test_Inr:
  assumes "kink_test mp p q = Inr k"
  shows "k = (corner_determinant mp p q * corner_determinant mp p q > 1 / 10 ^ 25)"
  using assms unfolding kink_test_def corner_determinant_def Let_def
  by (auto simp: ebind_Inr_iff elem_at_Inr_iff)

lemma initialize_twoPatch_kink:
  assumes "initialize_twoPatch mp mb innerKnotMulti sys = Inr s" and "interfaces mp \<noteq> []"
  shows "kink_test mp (1, 0) (0, 0) = Inr (kink s ! 0)"
    and "kink_test mp (1, 1) (0, 1) = Inr (kink s ! 1)"
    and "kink s =
      [corner_determinant mp (1, 0) (0, 0) * corner_determinant mp (1, 0) (0, 0) > 1 / 10 ^ 25,
       corner_determinant mp (1, 1) (0, 1) * corner_determinant mp (1, 1) (0, 1) > 1 / 10 ^ 25]"
proof -
  from initialize_twoPatch_tables(5) [OF assms] obtain k0 k1 where
    k0: "kink_test mp (1, 0) (0, 0) = Inr k0" and k1: "kink_test mp (1, 1) (0, 1) = Inr k1"
    and k: "kink s = [k0, k1]"
    by blast
  from k0 k1 k show "kink_test mp (1, 0) (0, 0) = Inr (kink s ! 0)"
    and "kink_test mp (1, 1) (0, 1) = Inr (kink s ! 1)"
    by simp_all
  from kink_test_Inr [OF k0] kink_test_Inr [OF k1] k
  show "kink s =
      [corner_determinant mp (1, 0) (0, 0) * corner_determinant mp (1, 0) (0, 0) > 1 / 10 ^ 25,
       corner_determinant mp (1, 1) (0, 1) * corner_determinant mp (1, 1) (0, 1) > 1 / 10 ^ 25]"
    by simp
qed

lemma example_slanted_eq:
  "initialize_twoPatch two_slanted [[example_basis, example_basis]] 0
     (construct False True True) = Inr example_smooth"
  by code_simp

text \<open>
  C6.  The claim ties a kink to a shared corner and to the vertex of that corner.  The
  code tests the fixed parameter points \<open>(1, 0)\<close>, \<open>(0, 0)\<close> and \<open>(1, 1)\<close>, \<open>(0, 1)\<close> of the
  patches 0 and 1, and lets the vertex with the index 1 read the first flag and every
  other interface-boundary vertex the second one.  When the vertex of the corners
  \<open>(1, 0)\<close>, \<open>(0, 0)\<close> is listed first and the tangents meet at a right angle there (and are
  collinear at the other end), the first flag is set and the interface loses one more
  function, but the boundary-vertex count of that vertex is 2, as it is without any kink:
  the counts of the six vertices are 2, 3, 3, 2, 3, 3 in both cases.
\<close>

theorem kink_raises_no_vertex_count:
  "ebind (initialize_twoPatch (reordered bent) [[example_basis, example_basis]] 0
            (construct False True True))
     (\<lambda>s. Inr (kink s, numBasisFunctions s ! 0, numBasisFunctions s ! 4, kindOfVertex s))
     = Inr ([True, False], [0, 4], [20, 22, 25, 28, 30, 33, 36], [1, - 1, - 1, 1, - 1, - 1])
   \<and> ebind (initialize_twoPatch (reordered straight) [[example_basis, example_basis]] 0
            (construct False True True))
     (\<lambda>s. Inr (kink s, numBasisFunctions s ! 0, numBasisFunctions s ! 4, kindOfVertex s))
     = Inr ([False, False], [0, 5], [21, 23, 26, 29, 31, 34, 37], [1, - 1, - 1, 1, - 1, - 1])
   \<and> vertices (reordered bent) ! 0 = [side 0 2, side 1 1]
   \<and> fst (jacobian (patches (reordered bent) ! 0) (1, 0)) = (1, 0)
   \<and> fst (jacobian (patches (reordered bent) ! 1) (0, 0)) = (0, 1)
   \<and> fst (jacobian (patches (reordered bent) ! 0) (1, 1)) = (1, 0)
   \<and> fst (jacobian (patches (reordered bent) ! 1) (0, 1)) = (1, 0)"
proof -
  have "ebind (initialize_twoPatch (reordered bent) [[example_basis, example_basis]] 0
            (construct False True True))
     (\<lambda>s. Inr (kink s, numBasisFunctions s ! 0, numBasisFunctions s ! 4, kindOfVertex s))
     = Inr ([True, False], [0, 4], [20, 22, 25, 28, 30, 33, 36], [1, - 1, - 1, 1, - 1, - 1])"
    by code_simp
  moreover have "ebind (initialize_twoPatch (reordered straight) [[example_basis, example_basis]] 0
            (construct False True True))
     (\<lambda>s. Inr (kink s, numBasisFunctions s ! 0, numBasisFunctions s ! 4, kindOfVertex s))
     = Inr ([False, False], [0, 5], [21, 23, 26, 29, 31, 34, 37], [1, - 1, - 1, 1, - 1, - 1])"
    by code_simp
  moreover have "vertices (reordered bent) ! 0 = [side 0 2, side 1 1]
   \<and> fst (jacobian (patches (reordered bent) ! 0) (1, 0)) = (1, 0)
   \<and> fst (jacobian (patches (reordered bent) ! 1) (0, 0)) = (0, 1)
   \<and> fst (jacobian (patches (reordered bent) ! 0) (1, 1)) = (1, 0)
   \<and> fst (jacobian (patches (reordered bent) ! 1) (0, 1)) = (1, 0)"
    by (simp add: reordered_def two_patches_def bent_def straight_def)
  ultimately show ?thesis by blast
qed

text \<open>
  C6, by parameter points and vertex indices.  In \<^verbatim>\<open>initialize_twoPatch\<close>, with at least
  one interface, let \<open>(x0, y0)\<close> and \<open>(u0, v0)\<close> be the first Jacobian columns of the patch 0
  at \<open>(1, 0)\<close> and of the patch 1 at \<open>(0, 0)\<close>, and \<open>(x1, y1)\<close>, \<open>(u1, v1)\<close> those at \<open>(1, 1)\<close>
  and \<open>(0, 1)\<close>.  The flag of an end is set exactly when the square of \<open>x * v - u * y\<close>
  exceeds \<open>1e-25\<close>; collinear columns set no flag.  Every set flag takes one more function
  from every interface.  Outside Neumann mode the boundary-vertex count of an
  interface-boundary vertex is 2, raised to 3 by the flag that the vertex reads: the
  first flag for the vertex with the index 1, the second flag for every other one.
\<close>

theorem kink_detection:
  "initialize_twoPatch mp mb innerKnotMulti sys = Inr s \<and> interfaces mp \<noteq> [] \<and>
   fst (jacobian (patches mp ! 0) (1, 0)) = (x0, y0) \<and>
   fst (jacobian (patches mp ! 1) (0, 0)) = (u0, v0) \<and>
   fst (jacobian (patches mp ! 0) (1, 1)) = (x1, y1) \<and>
   fst (jacobian (patches mp ! 1) (0, 1)) = (u1, v1) \<longrightarrow>
     kink s =
      [(x0 * v0 - u0 * y0) * (x0 * v0 - u0 * y0) > 1 / 10 ^ 25,
       (x1 * v1 - u1 * y1) * (x1 * v1 - u1 * y1) > 1 / 10 ^ 25] \<and>
     (\<forall>t. u0 = t * x0 \<and> v0 = t * y0 \<longrightarrow> \<not> kink s ! 0) \<and>
     (\<forall>t. u1 = t * x1 \<and> v1 = t * y1 \<longrightarrow> \<not> kink s ! 1) \<and>
     (\<forall>i < length (interfaces mp). \<exists>b1 b2.
         edge_basis (mb ! 0) (first (interfaces mp ! i)) = Inr b1 \<and>
         edge_basis (mb ! 0) (second (interfaces mp ! i)) = Inr b2 \<and>
         numBasisFunctions s ! 0 ! Suc i - numBasisFunctions s ! 0 ! i
           = raw_count (interface_degree b1 b2) (interface_regularity b1 b2)
               (interface_elements b1 b2)
             - (if m_neumannBdy sys then 8 else 4)
             - bool_int (kink s ! 0) - bool_int (kink s ! 1)
             + 2 * (if innerKnotMulti > 0 \<and>
                       interface_degree b1 b2 - 1 - interface_regularity b1 b2 = 1
                    then 3 else 0)) \<and>
     (\<not> m_neumannBdy sys \<longrightarrow>
        (\<forall>i < length (vertices mp). vertex_kind mp i = 1 \<longrightarrow>
           numBasisFunctions s ! 4 ! Suc i - numBasisFunctions s ! 4 ! i
             = 2 + bool_int (kink s ! (if i = 1 then 0 else 1))))"
proof (intro impI, elim conjE)
  assume init: "initialize_twoPatch mp mb innerKnotMulti sys = Inr s" and ne: "interfaces mp \<noteq> []"
    and j: "fst (jacobian (patches mp ! 0) (1, 0)) = (x0, y0)"
      "fst (jacobian (patches mp ! 1) (0, 0)) = (u0, v0)"
      "fst (jacobian (patches mp ! 0) (1, 1)) = (x1, y1)"
      "fst (jacobian (patches mp ! 1) (0, 1)) = (u1, v1)"
  note k = initialize_twoPatch_kink [OF init ne]
  note t = initialize_twoPatch_tables(1) [OF init]
  have d0: "table_diffs (interface_diff_twoPatch mp (mb ! 0) innerKnotMulti (m_neumannBdy sys))
          (length (interfaces mp)) (numBasisFunctions s ! 0)"
    and d4: "table_diffs (vertex_diff_twoPatch mp (m_neumannBdy sys) (kink s) 4)
          (length (vertices mp)) (numBasisFunctions s ! 4)"
    using t by (simp_all add: tables_ok_def)
  have flags: "kink s =
      [(x0 * v0 - u0 * y0) * (x0 * v0 - u0 * y0) > 1 / 10 ^ 25,
       (x1 * v1 - u1 * y1) * (x1 * v1 - u1 * y1) > 1 / 10 ^ 25]"
    using k(3) unfolding corner_determinant_def determinant_def j fst_conv snd_conv .
  have c0: "\<not> kink s ! 0" if "u0 = t * x0 \<and> v0 = t * y0" for t
    using that by (simp add: flags)
  have c1: "\<not> kink s ! 1" if "u1 = t * x1 \<and> v1 = t * y1" for t
    using that by (simp add: flags)
  have a: "\<exists>b1 b2.
         edge_basis (mb ! 0) (first (interfaces mp ! i)) = Inr b1 \<and>
         edge_basis (mb ! 0) (second (interfaces mp ! i)) = Inr b2 \<and>
         numBasisFunctions s ! 0 ! Suc i - numBasisFunctions s ! 0 ! i
           = raw_count (interface_degree b1 b2) (interface_regularity b1 b2)
               (interface_elements b1 b2)
             - (if m_neumannBdy sys then 8 else 4)
             - bool_int (kink s ! 0) - bool_int (kink s ! 1)
             + 2 * (if innerKnotMulti > 0 \<and>
                       interface_degree b1 b2 - 1 - interface_regularity b1 b2 = 1
                    then 3 else 0)" if "i < length (interfaces mp)" for i
  proof -
    from d0 that
    have "interface_diff_twoPatch mp (mb ! 0) innerKnotMulti (m_neumannBdy sys) i
            (numBasisFunctions s ! 0 ! Suc i - numBasisFunctions s ! 0 ! i)"
      by (simp add: table_diffs_def)
    then show ?thesis
      unfolding interface_diff_twoPatch_def using k(1,2) by auto
  qed
  have b: "numBasisFunctions s ! 4 ! Suc i - numBasisFunctions s ! 4 ! i
             = 2 + bool_int (kink s ! (if i = 1 then 0 else 1))"
    if "\<not> m_neumannBdy sys" "i < length (vertices mp)" "vertex_kind mp i = 1" for i
  proof -
    from d4 that(2)
    have "vertex_diff_twoPatch mp (m_neumannBdy sys) (kink s) 4 i
            (numBasisFunctions s ! 4 ! Suc i - numBasisFunctions s ! 4 ! i)"
      by (simp add: table_diffs_def)
    with that(1,3) show ?thesis
      by (simp add: vertex_diff_twoPatch_def)
  qed
  from flags c0 c1 a b show "kink s =
      [(x0 * v0 - u0 * y0) * (x0 * v0 - u0 * y0) > 1 / 10 ^ 25,
       (x1 * v1 - u1 * y1) * (x1 * v1 - u1 * y1) > 1 / 10 ^ 25] \<and>
     (\<forall>t. u0 = t * x0 \<and> v0 = t * y0 \<longrightarrow> \<not> kink s ! 0) \<and>
     (\<forall>t. u1 = t * x1 \<and> v1 = t * y1 \<longrightarrow> \<not> kink s ! 1) \<and>
     (\<forall>i < length (interfaces mp). \<exists>b1 b2.
         edge_basis (mb ! 0) (first (interfaces mp ! i)) = Inr b1 \<and>
         edge_basis (mb ! 0) (second (interfaces mp ! i)) = Inr b2 \<and>
         numBasisFunctions s ! 0 ! Suc i - numBasisFunctions s ! 0 ! i
           = raw_count (interface_degree b1 b2) (interface_regularity b1 b2)
               (interface_elements b1 b2)
             - (if m_neumannBdy sys then 8 else 4)
             - bool_int (kink s ! 0) - bool_int (kink s ! 1)
             + 2 * (if innerKnotMulti > 0 \<and>
                       interface_degree b1 b2 - 1 - interface_regularity b1 b2 = 1
                    then 3 else 0)) \<and>
     (\<not> m_neumannBdy sys \<longrightarrow>
        (\<forall>i < length (vertices mp). vertex_kind mp i = 1 \<longrightarrow>
           numBasisFunctions s ! 4 ! Suc i - numBasisFunctions s ! 4 ! i
             = 2 + bool_int (kink s ! (if i = 1 then 0 else 1))))"
    by blast
qed

theorem kink_detection_witness:
  "initialize_twoPatch (two_patches turned) [[example_basis, example_basis]] 0
        (construct False True True) = Inr example_initial
   \<and> interfaces (two_patches turned) \<noteq> []
   \<and> fst (jacobian (patches (two_patches turned) ! 0) (1, 0)) = (1, 0)
   \<and> fst (jacobian (patches (two_patches turned) ! 1) (0, 0)) = (0, 1)
   \<and> fst (jacobian (patches (two_patches turned) ! 0) (1, 1)) = (1, 0)
   \<and> fst (jacobian (patches (two_patches turned) ! 1) (0, 1)) = (0, 1)
   \<and> kink example_initial = [True, True]
   \<and> numBasisFunctions example_initial ! 0 ! Suc 0 - numBasisFunctions example_initial ! 0 ! 0
       = raw_count 3 1 2 - 4 - 1 - 1
   \<and> \<not> m_neumannBdy (construct False True True)
   \<and> vertex_kind (two_patches turned) 1 = 1 \<and> vertex_kind (two_patches turned) 3 = 1
   \<and> numBasisFunctions example_initial ! 4 ! Suc 1 - numBasisFunctions example_initial ! 4 ! 1 = 3
   \<and> numBasisFunctions example_initial ! 4 ! Suc 3 - numBasisFunctions example_initial ! 4 ! 3 = 3
   \<and> initialize_twoPatch two_slanted [[example_basis, example_basis]] 0
        (construct False True True) = Inr example_smooth
   \<and> interfaces two_slanted \<noteq> []
   \<and> fst (jacobian (patches two_slanted ! 0) (1, 0)) = (1, 1)
   \<and> fst (jacobian (patches two_slanted ! 1) (0, 0)) = (2, 2)
   \<and> fst (jacobian (patches two_slanted ! 0) (1, 1)) = (1, 1)
   \<and> fst (jacobian (patches two_slanted ! 1) (0, 1)) = (2, 2)
   \<and> kink example_smooth = [False, False]
   \<and> numBasisFunctions example_smooth ! 0 ! Suc 0 - numBasisFunctions example_smooth ! 0 ! 0
       = raw_count 3 1 2 - 4
   \<and> vertex_kind two_slanted 1 = 1 \<and> vertex_kind two_slanted 3 = 1
   \<and> numBasisFunctions example_smooth ! 4 ! Suc 1 - numBasisFunctions example_smooth ! 4 ! 1 = 2
   \<and> numBasisFunctions example_smooth ! 4 ! Suc 3 - numBasisFunctions example_smooth ! 4 ! 3 = 2"
proof -
  have n1: "interfaces (two_patches turned) \<noteq> []" and n2: "interfaces two_slanted \<noteq> []"
    by (simp_all add: two_patches_def two_slanted_def)
  have j1: "fst (jacobian (patches (two_patches turned) ! 0) (1, 0)) = (1, 0)
   \<and> fst (jacobian (patches (two_patches turned) ! 1) (0, 0)) = (0, 1)
   \<and> fst (jacobian (patches (two_patches turned) ! 0) (1, 1)) = (1, 0)
   \<and> fst (jacobian (patches (two_patches turned) ! 1) (0, 1)) = (0, 1)"
    by (simp add: two_patches_def turned_def straight_def)
  have j2: "fst (jacobian (patches two_slanted ! 0) (1, 0)) = (1, 1)
   \<and> fst (jacobian (patches two_slanted ! 1) (0, 0)) = (2, 2)
   \<and> fst (jacobian (patches two_slanted ! 0) (1, 1)) = (1, 1)
   \<and> fst (jacobian (patches two_slanted ! 1) (0, 1)) = (2, 2)"
    by (simp add: two_slanted_def two_patches_def slanted_def)
  have rest: "numBasisFunctions example_initial ! 0 ! Suc 0 - numBasisFunctions example_initial ! 0 ! 0
       = raw_count 3 1 2 - 4 - 1 - 1
   \<and> \<not> m_neumannBdy (construct False True True)
   \<and> vertex_kind (two_patches turned) 1 = 1 \<and> vertex_kind (two_patches turned) 3 = 1
   \<and> numBasisFunctions example_initial ! 4 ! Suc 1 - numBasisFunctions example_initial ! 4 ! 1 = 3
   \<and> numBasisFunctions example_initial ! 4 ! Suc 3 - numBasisFunctions example_initial ! 4 ! 3 = 3
   \<and> numBasisFunctions example_smooth ! 0 ! Suc 0 - numBasisFunctions example_smooth ! 0 ! 0
       = raw_count 3 1 2 - 4
   \<and> vertex_kind two_slanted 1 = 1 \<and> vertex_kind two_slanted 3 = 1
   \<and> numBasisFunctions example_smooth ! 4 ! Suc 1 - numBasisFunctions example_smooth ! 4 ! 1 = 2
   \<and> numBasisFunctions example_smooth ! 4 ! Suc 3 - numBasisFunctions example_smooth ! 4 ! 3 = 2"
    by code_simp
  have k1: "kink example_initial = [True, True]"
    using kink_detection [of "two_patches turned" "[[example_basis, example_basis]]" 0
        "construct False True True" example_initial 1 0 0 1 1 0 0 1] example_kinked_eq n1 j1
    by simp
  have k2: "kink example_smooth = [False, False]"
    using kink_detection [of two_slanted "[[example_basis, example_basis]]" 0
        "construct False True True" example_smooth 1 1 2 2 1 1 2 2] example_slanted_eq n2 j2
    by simp
  show ?thesis
    using example_kinked_eq example_slanted_eq n1 n2 j1 j2 rest k1 k2 by simp
qed

section \<open>Rerouted interface functions\<close>

lemma interface_plan_rerouted:
  assumes mode: "m_twoPatch s \<and> \<not> m_neumannBdy s"
    and p: "elem_at (sizePlusInt s) 0 = Inr plusInt"
    and r: "rerouted s plusInt bfID"
  shows "interface_plan item iID bfID np cs j s = interface_plan item iID' bfID np cs j s"
proof (cases "bfID = 0 \<or> bfID = plusInt - 1 \<or> bfID = plusInt \<or> bfID = 2 * plusInt - 2")
  case True
  show ?thesis
    by (simp only: interface_plan_def if_P [OF mode] p ebind_Inr if_P [OF True])
next
  case False
  with r have k: "(bfID = 1 \<and> elem_at (kink s) 0 = Inr True) \<or>
     (bfID = plusInt - 2 \<and> elem_at (kink s) 1 = Inr True)"
    by (auto simp: rerouted_def)
  show ?thesis
    unfolding interface_plan_def if_P [OF mode] p ebind_Inr if_not_P [OF False]
    using k
    by (cases "elem_at (kink s) 0"; cases "elem_at (kink s) 1") (auto cong: if_cong)
qed

lemma guarded_row:
  assumes "ebind (elem_at cs (int j)) (\<lambda>c. if kept c then entry_at r col c else Inr []) = Inr es"
  shows "\<forall>e \<in> set es. r = Inr (fst (fst e))"
  using assms
  by (auto simp: ebind_Inr_iff elem_at_Inr_iff entry_at_def split: if_splits)

lemma vertex_rowsI:
  "offset (nbf s 4 1) d = Inr x \<Longrightarrow> d \<in> {0, 1, 2} \<Longrightarrow> x \<in> vertex_rows s"
  "offset (nbf s 4 3) d = Inr x \<Longrightarrow> d \<in> {0, 1, 2} \<Longrightarrow> x \<in> vertex_rows s"
  by (auto simp: vertex_rows_def)

lemma interface_plan_rerouted_rows:
  assumes mode: "m_twoPatch s \<and> \<not> m_neumannBdy s"
    and p: "elem_at (sizePlusInt s) 0 = Inr plusInt"
    and r: "rerouted s plusInt bfID"
    and plan: "interface_plan item iID bfID np cs j s = Inr es"
  shows "\<forall>e \<in> set es. fst (fst e) \<in> vertex_rows s"
proof (cases "bfID = 0 \<or> bfID = plusInt - 1 \<or> bfID = plusInt \<or> bfID = 2 * plusInt - 2")
  case True
  let ?ga = "ebind (elem_at cs (int j)) (\<lambda>c.
                   if kept c
                   then entry_at (offset (nbf s 4 1) (if bfID = 0 then 0 else 1))
                          (interface_column s item np j) c
                   else Inr [])"
  let ?gb = "ebind (elem_at cs (int j)) (\<lambda>c.
                   if kept c
                   then entry_at (offset (nbf s 4 3) (if bfID = plusInt - 1 then 0 else 1))
                          (interface_column s item np j) c
                   else Inr [])"
  let ?pa = "if bfID = 0 \<or> bfID = plusInt then ?ga else Inr []"
  let ?pb = "if bfID = plusInt - 1 \<or> bfID = 2 * plusInt - 2 then ?gb else Inr []"
  have "interface_plan item iID bfID np cs j s
                  = ebind ?pa (\<lambda>es1. ebind ?pb (\<lambda>es2. Inr (es1 @ es2)))"
    by (simp only: interface_plan_def if_P [OF mode] p ebind_Inr if_P [OF True])
  with plan obtain es1 es2 where pa: "?pa = Inr es1" and pb: "?pb = Inr es2"
    and es: "es = es1 @ es2"
    by (auto elim!: ebind_InrE)
  have "\<forall>e \<in> set es1. fst (fst e) \<in> vertex_rows s"
  proof (cases "bfID = 0 \<or> bfID = plusInt")
    case a: True
    from pa have "?ga = Inr es1" unfolding if_P [OF a] .
    from guarded_row [OF this] show ?thesis
      by (cases "bfID = 0") (auto intro: vertex_rowsI)
  next
    case a: False
    from pa have "Inr [] = (Inr es1 :: error + entry list)" unfolding if_not_P [OF a] .
    then show ?thesis by simp
  qed
  moreover have "\<forall>e \<in> set es2. fst (fst e) \<in> vertex_rows s"
  proof (cases "bfID = plusInt - 1 \<or> bfID = 2 * plusInt - 2")
    case b: True
    from pb have "?gb = Inr es2" unfolding if_P [OF b] .
    from guarded_row [OF this] show ?thesis
      by (cases "bfID = plusInt - 1") (auto intro: vertex_rowsI)
  next
    case b: False
    from pb have "Inr [] = (Inr es2 :: error + entry list)" unfolding if_not_P [OF b] .
    then show ?thesis by simp
  qed
  ultimately show ?thesis by (auto simp: es)
next
  case False
  with r have k: "(bfID = 1 \<and> elem_at (kink s) 0 = Inr True) \<or>
     (bfID = plusInt - 2 \<and> elem_at (kink s) 1 = Inr True)"
    by (auto simp: rerouted_def)
  have two: "offset (nbf s 4 1) 2 = Inr x \<Longrightarrow> x \<in> vertex_rows s"
    "offset (nbf s 4 3) 2 = Inr x \<Longrightarrow> x \<in> vertex_rows s" for x
    by (auto simp: vertex_rows_def)
  show ?thesis
  proof (cases "bfID = 1 \<and> elem_at (kink s) 0 = Inr True")
    case True
    from True have b: "bfID = 1 \<and> Inr True = Inr True" by simp
    from True have k0: "elem_at (kink s) 0 = Inr True" by simp
    from plan have "ebind (elem_at cs (int j)) (\<lambda>c.
            if kept c
            then entry_at (offset (nbf s 4 1) 2) (interface_column s item np j) c
            else Inr []) = Inr es"
      unfolding interface_plan_def if_P [OF mode] p ebind_Inr if_not_P [OF False]
      using True by (simp cong: if_cong)
    from guarded_row [OF this] show ?thesis
      using two by metis
  next
    case nk: False
    with k have k1: "bfID = plusInt - 2" "elem_at (kink s) 1 = Inr True" by auto
    from plan have "ebind (elem_at cs (int j)) (\<lambda>c.
            if kept c
            then entry_at (offset (nbf s 4 3) 2) (interface_column s item np j) c
            else Inr []) = Inr es"
      unfolding interface_plan_def if_P [OF mode] p ebind_Inr if_not_P [OF False]
      using nk k1 by (cases "elem_at (kink s) 0") (auto split: if_splits cong: if_cong)
    from guarded_row [OF this] show ?thesis
      using two by metis
  qed
qed

lemma patch_collect_all:
  assumes c: "collect nps (\<lambda>np. ebind (elem_at (patches mp) (int np)) (\<lambda>g.
                  collect [0..<length (coefs g)] (\<lambda>j. plan np (coefs g) j))) = Inr es"
    and w: "\<And>np cs j e. plan np cs j = Inr e \<Longrightarrow> \<forall>x \<in> set e. P x"
  shows "\<forall>x \<in> set es. P x"
proof
  fix x assume x: "x \<in> set es"
  let ?q = "\<lambda>np. ebind (elem_at (patches mp) (int np)) (\<lambda>g.
                  collect [0..<length (coefs g)] (\<lambda>j. plan np (coefs g) j))"
  from x collect_set(1) [OF c] obtain np where np: "np \<in> set nps" and x1: "x \<in> set (projr (?q np))"
    by auto
  from collect_set(2) [OF c np] have "?q np = Inr (projr (?q np))" .
  then obtain g where g: "elem_at (patches mp) (int np) = Inr g" and
    cg: "collect [0..<length (coefs g)] (\<lambda>j. plan np (coefs g) j) = Inr (projr (?q np))"
    by (rule ebind_InrE)
  from x1 collect_set(1) [OF cg] obtain j where j: "j \<in> set [0..<length (coefs g)]"
    and x2: "x \<in> set (projr (plan np (coefs g) j))"
    by auto
  from collect_set(2) [OF cg j] have "plan np (coefs g) j = Inr (projr (plan np (coefs g) j))" .
  from w [OF this] x2 show "P x" by blast
qed

lemma interface_entries_rerouted:
  assumes "m_twoPatch s \<and> \<not> m_neumannBdy s"
    and "elem_at (sizePlusInt s) 0 = Inr plusInt"
    and "rerouted s plusInt bfID"
  shows "interface_entries mp item iID bfID s = interface_entries mp item iID' bfID s"
  unfolding interface_entries_def
  by (simp only: interface_plan_rerouted [OF assms, of item iID _ _ _ iID'])

lemma interface_entries_rerouted_rows:
  assumes "m_twoPatch s \<and> \<not> m_neumannBdy s"
    and "elem_at (sizePlusInt s) 0 = Inr plusInt"
    and "rerouted s plusInt bfID"
    and "interface_entries mp item iID bfID s = Inr es"
  shows "\<forall>e \<in> set es. fst (fst e) \<in> vertex_rows s"
  by (rule patch_collect_all [where plan = "\<lambda>np cs j. interface_plan item iID bfID np cs j s"])
    (use assms(4) in \<open>simp add: interface_entries_def\<close>,
      rule interface_plan_rerouted_rows [OF assms(1-3)])

text \<open>
  C10. In two-patch mode without Neumann boundary, a rerouted call of
  \<^verbatim>\<open>insertInterfaceEdge\<close> does not depend on the interface index: which ordinals are rerouted
  is decided by \<open>sizePlusInt[0]\<close> and the two kink flags, the call succeeds with the same
  result for every \<open>iID\<close>, and every row it writes is one of the rows \<open>nbf[4][1] + {0, 1, 2}\<close>
  and \<open>nbf[4][3] + {0, 1, 2}\<close> of the vertices 1 and 3.  The kink flags are those that
  \<^verbatim>\<open>initialize_twoPatch\<close> computes from the Jacobians of the patches 0 and 1 at the corners
  \<open>(1, 0)\<close>, \<open>(0, 0)\<close> and \<open>(1, 1)\<close>, \<open>(0, 1)\<close>.
\<close>

theorem rerouting_ignores_interface_id:
  "(m_twoPatch s \<and> \<not> m_neumannBdy s \<and> elem_at (sizePlusInt s) 0 = Inr plusInt \<and>
    rerouted s plusInt bfID \<longrightarrow>
      ((insertInterfaceEdge mp item iID bfID s = Inr s') =
       (insertInterfaceEdge mp item iID' bfID s = Inr s')) \<and>
      (insertInterfaceEdge mp item iID bfID s = Inr s' \<longrightarrow>
         (\<exists>es. entries (D_sparse s') = entries (D_sparse s) @ es \<and>
               (\<forall>e \<in> set es. fst (fst e) \<in> vertex_rows s)))) \<and>
   (initialize_twoPatch mp0 mb innerKnotMulti sys = Inr s \<and> interfaces mp0 \<noteq> [] \<longrightarrow>
      kink s =
        [corner_determinant mp0 (1, 0) (0, 0) * corner_determinant mp0 (1, 0) (0, 0) > 1 / 10 ^ 25,
         corner_determinant mp0 (1, 1) (0, 1) * corner_determinant mp0 (1, 1) (0, 1) > 1 / 10 ^ 25])"
proof (intro conjI impI)
  assume a: "m_twoPatch s \<and> \<not> m_neumannBdy s \<and> elem_at (sizePlusInt s) 0 = Inr plusInt \<and>
    rerouted s plusInt bfID"
  then have mode: "m_twoPatch s \<and> \<not> m_neumannBdy s"
    and p: "elem_at (sizePlusInt s) 0 = Inr plusInt" and r: "rerouted s plusInt bfID"
    by simp_all
  show "(insertInterfaceEdge mp item iID bfID s = Inr s') =
       (insertInterfaceEdge mp item iID' bfID s = Inr s')"
    unfolding insertInterfaceEdge_plan
    by (simp only: interface_entries_rerouted [OF mode p r, of mp item iID iID'])
  assume "insertInterfaceEdge mp item iID bfID s = Inr s'"
  then obtain es where es: "interface_entries mp item iID bfID s = Inr es"
    and ins: "insert_all es s = Inr s'"
    unfolding insertInterfaceEdge_plan by blast
  from interface_entries_rerouted_rows [OF mode p r es] insert_all_entries [OF ins]
  show "\<exists>es. entries (D_sparse s') = entries (D_sparse s) @ es \<and>
               (\<forall>e \<in> set es. fst (fst e) \<in> vertex_rows s)"
    by blast
next
  assume "initialize_twoPatch mp0 mb innerKnotMulti sys = Inr s \<and> interfaces mp0 \<noteq> []"
  then show "kink s =
        [corner_determinant mp0 (1, 0) (0, 0) * corner_determinant mp0 (1, 0) (0, 0) > 1 / 10 ^ 25,
         corner_determinant mp0 (1, 1) (0, 1) * corner_determinant mp0 (1, 1) (0, 1) > 1 / 10 ^ 25]"
    using initialize_twoPatch_kink(3) [of mp0 mb innerKnotMulti sys s] by blast
qed

theorem rerouting_ignores_interface_id_witness:
  "m_twoPatch example_initial \<and> \<not> m_neumannBdy example_initial
   \<and> elem_at (sizePlusInt example_initial) 0 = Inr 5
   \<and> rerouted example_initial 5 1
   \<and> insertInterfaceEdge (basis_function [1, 1 / 10 ^ 12] [0, 1 / 10 ^ 11]) example_interface 0 1
       example_initial
     = Inr (example_initial\<lparr>D_sparse :=
              \<lparr>rows = 87, cols = 50, entries = [((24, 0), 1), ((24, 26), 1 / 10 ^ 11)]\<rparr>\<rparr>)
   \<and> insertInterfaceEdge (basis_function [1, 1 / 10 ^ 12] [0, 1 / 10 ^ 11]) example_interface 7 1
       example_initial
     = Inr (example_initial\<lparr>D_sparse :=
              \<lparr>rows = 87, cols = 50, entries = [((24, 0), 1), ((24, 26), 1 / 10 ^ 11)]\<rparr>\<rparr>)
   \<and> nbf example_initial 4 1 = Inr 22 \<and> nbf example_initial 4 3 = Inr 28
   \<and> (\<exists>es. [((24, 0), 1), ((24, 26), 1 / 10 ^ 11)] = entries (D_sparse example_initial) @ es \<and>
            (\<forall>e \<in> set es. fst (fst e) \<in> vertex_rows example_initial))
   \<and> initialize_twoPatch (two_patches turned) [[example_basis, example_basis]] 0
        (construct False True True) = Inr example_initial
   \<and> interfaces (two_patches turned) \<noteq> []
   \<and> kink example_initial =
        [corner_determinant (two_patches turned) (1, 0) (0, 0)
           * corner_determinant (two_patches turned) (1, 0) (0, 0) > 1 / 10 ^ 25,
         corner_determinant (two_patches turned) (1, 1) (0, 1)
           * corner_determinant (two_patches turned) (1, 1) (0, 1) > 1 / 10 ^ 25]"
proof -
  let ?f = "basis_function [1, 1 / 10 ^ 12] [0, 1 / 10 ^ 11]"
  let ?s' = "example_initial\<lparr>D_sparse :=
              \<lparr>rows = 87, cols = 50, entries = [((24, 0), 1), ((24, 26), 1 / 10 ^ 11)]\<rparr>\<rparr>"
  have m: "m_twoPatch example_initial \<and> \<not> m_neumannBdy example_initial
     \<and> elem_at (sizePlusInt example_initial) 0 = Inr 5 \<and> rerouted example_initial 5 1"
    by code_simp
  have h: "insertInterfaceEdge ?f example_interface 0 1 example_initial = Inr ?s'"
    by code_simp
  have n: "nbf example_initial 4 1 = Inr 22 \<and> nbf example_initial 4 3 = Inr 28"
    by code_simp
  have i: "initialize_twoPatch (two_patches turned) [[example_basis, example_basis]] 0
        (construct False True True) = Inr example_initial
     \<and> interfaces (two_patches turned) \<noteq> []"
    using example_kinked_eq by (simp add: two_patches_def)
  note t = rerouting_ignores_interface_id [of example_initial 5 1 ?f example_interface 0 ?s' 7
      "two_patches turned" "[[example_basis, example_basis]]" 0 "construct False True True"]
  from t m h have "insertInterfaceEdge ?f example_interface 7 1 example_initial = Inr ?s'"
    by blast
  moreover from t m h have "\<exists>es. entries (D_sparse ?s') = entries (D_sparse example_initial) @ es \<and>
               (\<forall>e \<in> set es. fst (fst e) \<in> vertex_rows example_initial)"
    by blast
  then have "\<exists>es. [((24, 0), 1), ((24, 26), 1 / 10 ^ 11)] = entries (D_sparse example_initial) @ es \<and>
            (\<forall>e \<in> set es. fst (fst e) \<in> vertex_rows example_initial)"
    by simp
  moreover from t i have "kink example_initial =
        [corner_determinant (two_patches turned) (1, 0) (0, 0)
           * corner_determinant (two_patches turned) (1, 0) (0, 0) > 1 / 10 ^ 25,
         corner_determinant (two_patches turned) (1, 1) (0, 1)
           * corner_determinant (two_patches turned) (1, 1) (0, 1) > 1 / 10 ^ 25]"
    by blast
  ultimately show ?thesis
    using m h n i by blast
qed

section \<open>The order of the insertions\<close>

lemma call_entries_same_tables:
  assumes "same_tables s t"
  shows "call_entries a t = call_entries a s"
  by (cases a)
    (simp_all only: call_entries.simps interface_entries_def boundary_entries_def
      vertex_entries_def interface_plan_same_tables [OF assms]
      boundary_plan_same_tables [OF assms] vertex_plan_same_tables [OF assms])

lemma insert_call_plan:
  "insert_call a s = Inr s' \<longleftrightarrow> (\<exists>es. call_entries a s = Inr es \<and> insert_all es s = Inr s')"
  by (cases a)
    (simp_all only: insert_call.simps call_entries.simps insertInterfaceEdge_plan
      insertBoundaryEdge_plan insertVertex_plan)

lemma insert_all_swap:
  assumes "insert_all (es @ es') s = Inr t"
  shows "insert_all (es' @ es) s
           = Inr (t\<lparr>D_sparse := (D_sparse t)\<lparr>entries := entries (D_sparse s) @ es' @ es\<rparr>\<rparr>)"
    and "entries (D_sparse t) = entries (D_sparse s) @ es @ es'"
  using assms unfolding insert_all_Inr_iff
  by (auto simp: image_Un)

lemma two_calls:
  "ebind (insert_call a s) (insert_call b) = Inr t \<longleftrightarrow>
     (\<exists>es es'. call_entries a s = Inr es \<and> call_entries b s = Inr es' \<and>
               insert_all (es @ es') s = Inr t)"
proof
  assume "ebind (insert_call a s) (insert_call b) = Inr t"
  then obtain s1 where a: "insert_call a s = Inr s1" and b: "insert_call b s1 = Inr t"
    by (rule ebind_InrE)
  from a obtain es where es: "call_entries a s = Inr es" and i1: "insert_all es s = Inr s1"
    unfolding insert_call_plan by blast
  from b obtain es' where es': "call_entries b s1 = Inr es'" and i2: "insert_all es' s1 = Inr t"
    unfolding insert_call_plan by blast
  from insert_all_same_tables [OF i1] have "call_entries b s1 = call_entries b s"
    by (rule call_entries_same_tables)
  with es' have "call_entries b s = Inr es'" by simp
  moreover from i1 i2 have "insert_all (es @ es') s = Inr t"
    unfolding insert_all_append by blast
  ultimately show "\<exists>es es'. call_entries a s = Inr es \<and> call_entries b s = Inr es' \<and>
               insert_all (es @ es') s = Inr t"
    using es by blast
next
  assume "\<exists>es es'. call_entries a s = Inr es \<and> call_entries b s = Inr es' \<and>
               insert_all (es @ es') s = Inr t"
  then obtain es es' where es: "call_entries a s = Inr es" and es': "call_entries b s = Inr es'"
    and i: "insert_all (es @ es') s = Inr t"
    by blast
  from i obtain s1 where i1: "insert_all es s = Inr s1" and i2: "insert_all es' s1 = Inr t"
    unfolding insert_all_append by blast
  from insert_all_same_tables [OF i1] have "call_entries b s1 = call_entries b s"
    by (rule call_entries_same_tables)
  with es' have "call_entries b s1 = Inr es'" by simp
  with i2 have "insert_call b s1 = Inr t"
    unfolding insert_call_plan by blast
  moreover from es i1 have "insert_call a s = Inr s1"
    unfolding insert_call_plan by blast
  ultimately show "ebind (insert_call a s) (insert_call b) = Inr t"
    by simp
qed

lemma rows_written_entries:
  "insert_all es s = Inr s' \<Longrightarrow> rows_written s s' = (\<lambda>e. fst (fst e)) ` set es"
  by (simp add: rows_written_def insert_all_entries)

lemma vertex_row_slots:
  assumes "vertex_row s vID nDofs bfID = Inr r" and "vertex_slots s vID nDofs bfID = Inr A"
  shows "\<exists>sl \<in> set A. slot_row s sl = Inr r"
  using assms unfolding vertex_row_def vertex_slots_def slot_row_def
  by (auto simp: ebind_Inr_iff split: if_splits)

lemma boundary_row_slots:
  assumes "boundary_row s bID bfID = Inr r" and "boundary_slots s bID bfID = Inr A"
  shows "\<exists>sl \<in> set A. slot_row s sl = Inr r"
  using assms unfolding boundary_row_def boundary_slots_def slot_row_def
  by (auto simp: ebind_Inr_iff split: if_splits)

lemma vertex_plan_slots:
  assumes "vertex_plan patchIndex vID nDofs bfID np cs j s = Inr es"
    and "vertex_slots s vID nDofs bfID = Inr A"
  shows "\<forall>e \<in> set es. \<exists>sl \<in> set A. slot_row s sl = Inr (fst (fst e))"
  using guarded_row [OF assms(1) [unfolded vertex_plan_def]] vertex_row_slots [OF _ assms(2)]
  by metis

lemma boundary_plan_slots:
  assumes "boundary_plan item bID bfID cs j s = Inr es"
    and "boundary_slots s bID bfID = Inr A"
  shows "\<forall>e \<in> set es. \<exists>sl \<in> set A. slot_row s sl = Inr (fst (fst e))"
  using guarded_row [OF assms(1) [unfolded boundary_plan_def]] boundary_row_slots [OF _ assms(2)]
  by metis

lemma guarded_slot:
  assumes "ebind (elem_at cs (int j)) (\<lambda>c.
             if kept c then entry_at (offset (nbf s k i) d) col c else Inr []) = Inr es"
    and "(k, i, d) \<in> set A"
  shows "\<forall>e \<in> set es. \<exists>sl \<in> set A. slot_row s sl = Inr (fst (fst e))"
proof
  fix e assume "e \<in> set es"
  with guarded_row [OF assms(1)] have "slot_row s (k, i, d) = Inr (fst (fst e))"
    by (simp add: slot_row_def)
  with assms(2) show "\<exists>sl \<in> set A. slot_row s sl = Inr (fst (fst e))"
    by blast
qed

lemma interface_plan_slots:
  assumes plan: "interface_plan item iID bfID np cs j s = Inr es"
    and slots: "interface_slots s iID bfID = Inr A"
  shows "\<forall>e \<in> set es. \<exists>sl \<in> set A. slot_row s sl = Inr (fst (fst e))"
proof (cases "m_twoPatch s \<and> \<not> m_neumannBdy s")
  case mode: False
  from slots have A: "A = [(0, iID, bfID)]"
    unfolding interface_slots_def if_not_P [OF mode] by simp
  from plan have "ebind (elem_at cs (int j)) (\<lambda>c.
        if kept c
        then entry_at (offset (nbf s 0 iID) bfID) (interface_column s item np j) c
        else Inr []) = Inr es"
    unfolding interface_plan_def if_not_P [OF mode] .
  then show ?thesis
    by (rule guarded_slot) (simp add: A)
next
  case mode: True
  from slots obtain plusInt where p: "elem_at (sizePlusInt s) 0 = Inr plusInt"
    unfolding interface_slots_def if_P [OF mode] by (rule ebind_InrE)
  show ?thesis
  proof (cases "bfID = 0 \<or> bfID = plusInt - 1 \<or> bfID = plusInt \<or> bfID = 2 * plusInt - 2")
    case True
    let ?ga = "ebind (elem_at cs (int j)) (\<lambda>c.
                   if kept c
                   then entry_at (offset (nbf s 4 1) (if bfID = 0 then 0 else 1))
                          (interface_column s item np j) c
                   else Inr [])"
    let ?gb = "ebind (elem_at cs (int j)) (\<lambda>c.
                   if kept c
                   then entry_at (offset (nbf s 4 3) (if bfID = plusInt - 1 then 0 else 1))
                          (interface_column s item np j) c
                   else Inr [])"
    let ?pa = "if bfID = 0 \<or> bfID = plusInt then ?ga else Inr []"
    let ?pb = "if bfID = plusInt - 1 \<or> bfID = 2 * plusInt - 2 then ?gb else Inr []"
    from slots have A: "A =
        (if bfID = 0 \<or> bfID = plusInt then [(4, 1, if bfID = 0 then 0 else 1)] else []) @
        (if bfID = plusInt - 1 \<or> bfID = 2 * plusInt - 2
         then [(4, 3, if bfID = plusInt - 1 then 0 else 1)] else [])"
      unfolding interface_slots_def if_P [OF mode] p ebind_Inr if_P [OF True] by simp
    have "interface_plan item iID bfID np cs j s
                  = ebind ?pa (\<lambda>es1. ebind ?pb (\<lambda>es2. Inr (es1 @ es2)))"
      by (simp only: interface_plan_def if_P [OF mode] p ebind_Inr if_P [OF True])
    with plan obtain es1 es2 where pa: "?pa = Inr es1" and pb: "?pb = Inr es2"
      and es: "es = es1 @ es2"
      by (auto elim!: ebind_InrE)
    have "\<forall>e \<in> set es1. \<exists>sl \<in> set A. slot_row s sl = Inr (fst (fst e))"
    proof (cases "bfID = 0 \<or> bfID = plusInt")
      case a: True
      from pa have "?ga = Inr es1" unfolding if_P [OF a] .
      then show ?thesis
        by (rule guarded_slot) (simp add: A if_P [OF a])
    next
      case a: False
      from pa have "Inr [] = (Inr es1 :: error + entry list)" unfolding if_not_P [OF a] .
      then show ?thesis by simp
    qed
    moreover have "\<forall>e \<in> set es2. \<exists>sl \<in> set A. slot_row s sl = Inr (fst (fst e))"
    proof (cases "bfID = plusInt - 1 \<or> bfID = 2 * plusInt - 2")
      case b: True
      from pb have "?gb = Inr es2" unfolding if_P [OF b] .
      then show ?thesis
        by (rule guarded_slot) (simp add: A if_P [OF b])
    next
      case b: False
      from pb have "Inr [] = (Inr es2 :: error + entry list)" unfolding if_not_P [OF b] .
      then show ?thesis by simp
    qed
    ultimately show ?thesis by (auto simp: es)
  next
    case False
    from slots obtain k0 k1 where k0: "elem_at (kink s) 0 = Inr k0"
      and k1: "elem_at (kink s) 1 = Inr k1"
      unfolding interface_slots_def if_P [OF mode] p ebind_Inr if_not_P [OF False]
      by (elim ebind_InrE)
    let ?shift = "if bfID < plusInt - (if k1 then 2 else 1)
                         then (if k0 then 2 else 1)
                         else 3 + (if k0 then 1 else 0) + (if k1 then 1 else 0)"
    from slots have A: "(if bfID = 1 \<and> k0 then Inr [(4, 1, 2)]
          else if bfID = plusInt - 2 \<and> k1 then Inr [(4, 3, 2)]
          else Inr [(0, iID, bfID - ?shift)]) = (Inr A :: error + slot list)"
      unfolding interface_slots_def if_P [OF mode] p ebind_Inr if_not_P [OF False] k0 k1 .
    show ?thesis
    proof (cases "bfID = 1 \<and> k0")
      case a: True
      have eq: "interface_plan item iID bfID np cs j s = ebind (elem_at cs (int j)) (\<lambda>c.
            if kept c
            then entry_at (offset (nbf s 4 1) 2) (interface_column s item np j) c
            else Inr [])"
        unfolding interface_plan_def if_P [OF mode] p ebind_Inr if_not_P [OF False]
        using a k0 by simp
      from A have A1: "A = [(4, 1, 2)]"
        unfolding if_P [OF a] by simp
      show ?thesis
        by (rule guarded_slot [OF plan [unfolded eq]]) (simp add: A1)
    next
      case a: False
      show ?thesis
      proof (cases "bfID = plusInt - 2 \<and> k1")
        case b: True
        have eq: "interface_plan item iID bfID np cs j s = ebind (elem_at cs (int j)) (\<lambda>c.
              if kept c
              then entry_at (offset (nbf s 4 3) 2) (interface_column s item np j) c
              else Inr [])"
          unfolding interface_plan_def if_P [OF mode] p ebind_Inr if_not_P [OF False]
          using a b k0 k1 by (cases "bfID = 1") simp_all
        from A have A1: "A = [(4, 3, 2)]"
          unfolding if_not_P [OF a] if_P [OF b] by simp
        show ?thesis
          by (rule guarded_slot [OF plan [unfolded eq]]) (simp add: A1)
      next
        case b: False
        have eq: "interface_plan item iID bfID np cs j s = ebind (elem_at cs (int j)) (\<lambda>c.
              if kept c
              then entry_at (offset (nbf s 0 iID) (bfID - ?shift)) (interface_column s item np j) c
              else Inr [])"
          unfolding interface_plan_def if_P [OF mode] p ebind_Inr if_not_P [OF False]
          using a b k0 k1 by (cases "bfID = 1"; cases "bfID = plusInt - 2") (simp_all cong: if_cong)
        from A have A1: "A = [(0, iID, bfID - ?shift)]"
          unfolding if_not_P [OF a] if_not_P [OF b] by simp
        show ?thesis
          by (rule guarded_slot [OF plan [unfolded eq]]) (simp add: A1)
      qed
    qed
  qed
qed

lemma call_entries_slots:
  assumes es: "call_entries a s = Inr es" and A: "call_slots s a = Inr A"
  shows "\<forall>e \<in> set es. \<exists>sl \<in> set A. slot_row s sl = Inr (fst (fst e))"
proof (cases a)
  case (InterfaceEdge mp item iID bfID)
  show ?thesis
    by (rule patch_collect_all [where plan = "\<lambda>np cs j. interface_plan item iID bfID np cs j s"
          and mp = mp and nps = "[0..<2]"])
      (use es A InterfaceEdge in \<open>simp add: interface_entries_def\<close>,
        rule interface_plan_slots, assumption, use A InterfaceEdge in simp)
next
  case (Vertex mp patchIndex vID nDofs bfID)
  show ?thesis
    by (rule patch_collect_all [where plan = "\<lambda>np cs j. vertex_plan patchIndex vID nDofs bfID np cs j s"
          and mp = mp and nps = "[0..<length (patches mp)]"])
      (use es A Vertex in \<open>simp add: vertex_entries_def\<close>,
        rule vertex_plan_slots, assumption, use A Vertex in simp)
next
  case (BoundaryEdge mp item bID bfID)
  with es have "boundary_entries mp item bID bfID s = Inr es" by simp
  then obtain g where g: "elem_at (patches mp) 0 = Inr g"
    and c: "collect [0..<length (coefs g)] (\<lambda>j. boundary_plan item bID bfID (coefs g) j s) = Inr es"
    unfolding boundary_entries_def by (rule ebind_InrE)
  from A BoundaryEdge have sl: "boundary_slots s bID bfID = Inr A" by simp
  show ?thesis
  proof
    fix e assume "e \<in> set es"
    with collect_set(1) [OF c] obtain j where j: "j \<in> set [0..<length (coefs g)]"
      and e: "e \<in> set (projr (boundary_plan item bID bfID (coefs g) j s))"
      by auto
    from collect_set(2) [OF c j]
    have "boundary_plan item bID bfID (coefs g) j s
            = Inr (projr (boundary_plan item bID bfID (coefs g) j s))" .
    from boundary_plan_slots [OF this sl] e
    show "\<exists>sl \<in> set A. slot_row s sl = Inr (fst (fst e))" by blast
  qed
qed

lemma chain_le:
  assumes c: "chained T" and s: "\<And>k. k < 5 \<Longrightarrow> sorted (T ! k)"
  shows "K < K' \<Longrightarrow> K' < 5 \<Longrightarrow> last (T ! K) \<le> T ! K' ! 0"
proof (induction K')
  case 0
  then show ?case by simp
next
  case (Suc K')
  from Suc.prems have k4: "K' < 4" by simp
  with c have ne: "T ! K' \<noteq> []" and l: "last (T ! K') = T ! Suc K' ! 0"
    by (simp_all add: chained_def)
  show ?case
  proof (cases "K = K'")
    case True
    with l show ?thesis by simp
  next
    case False
    with Suc.prems have "K < K'" by simp
    with Suc.IH k4 have "last (T ! K) \<le> T ! K' ! 0" by simp
    also from s [of K'] k4 ne have "T ! K' ! 0 \<le> last (T ! K')"
      by (simp add: last_conv_nth sorted_nth_mono)
    finally show ?thesis using l by simp
  qed
qed

lemma ranges_ordered:
  assumes c: "chained T" and s: "\<And>k. k < 5 \<Longrightarrow> sorted (T ! k)"
    and K: "K < 5" "K' < 5"
    and I: "Suc I < length (T ! K)" "Suc I' < length (T ! K')"
    and r: "r < T ! K ! Suc I" "T ! K' ! I' \<le> r"
  shows "\<not> K < K'" and "K = K' \<Longrightarrow> \<not> I < I'"
proof -
  show "\<not> K < K'"
  proof
    assume lt: "K < K'"
    from I(1) have "T ! K \<noteq> []" by auto
    then have "last (T ! K) = T ! K ! (length (T ! K) - 1)"
      by (rule last_conv_nth)
    moreover from I(1) have "Suc I \<le> length (T ! K) - 1" "length (T ! K) - 1 < length (T ! K)"
      by simp_all
    ultimately have "T ! K ! Suc I \<le> last (T ! K)"
      using sorted_nth_mono [OF s [OF K(1)], of "Suc I" "length (T ! K) - 1"] by simp
    also from chain_le [OF c s lt K(2)] have "\<dots> \<le> T ! K' ! 0" by simp
    also from s [OF K(2)] I(2) have "\<dots> \<le> T ! K' ! I'"
      by (simp add: sorted_nth_mono)
    finally show False using r by simp
  qed
  show "\<not> I < I'" if "K = K'"
  proof
    assume "I < I'"
    with s [OF K(1)] I(2) that have "T ! K ! Suc I \<le> T ! K' ! I'"
      by (simp add: sorted_nth_mono)
    with r show False by simp
  qed
qed

lemma fits_range:
  assumes f: "fits s (k, i, d)" and r: "slot_row s (k, i, d) = Inr r"
  shows "0 \<le> k \<and> 0 \<le> i \<and> nat k < 5 \<and> Suc (nat i) < length (numBasisFunctions s ! nat k) \<and>
         numBasisFunctions s ! nat k ! nat i \<le> r \<and> r < numBasisFunctions s ! nat k ! Suc (nat i)"
proof -
  from f obtain b e where k: "0 \<le> k" "k < 5" and d: "0 \<le> d"
    and b: "nbf s k i = Inr b" and e: "nbf s k (i + 1) = Inr e" and lt: "b + d < e"
    by (auto simp: fits_def split: sum.splits)
  from b have i: "0 \<le> i" and bv: "b = numBasisFunctions s ! nat k ! nat i"
    by (simp_all add: nbf_Inr_iff)
  from e i have len: "Suc (nat i) < length (numBasisFunctions s ! nat k)"
    and ev: "e = numBasisFunctions s ! nat k ! Suc (nat i)"
    by (auto simp: nbf_Inr_iff nat_add_distrib)
  from r b have "r = b + d"
    by (simp add: slot_row_def offset_def)
  moreover from k have "nat k < 5" by arith
  ultimately show ?thesis using k i d lt bv ev len by simp
qed

lemma slots_disjoint:
  assumes a: "allotted s"
    and f: "fits s x" "fits s y"
    and r: "slot_row s x = Inr r" "slot_row s y = Inr r"
  shows "same_entity x y"
proof -
  obtain k i d where x: "x = (k, i, d)" by (cases x)
  obtain k' i' d' where y: "y = (k', i', d')" by (cases y)
  let ?T = "numBasisFunctions s"
  from a have c: "chained ?T" and s: "\<And>k. k < 5 \<Longrightarrow> sorted (?T ! k)"
  proof -
    from a show "chained ?T" by (simp add: allotted_def)
    fix k :: nat assume "k < 5"
    then have "k = 0 \<or> k = 1 \<or> k = 2 \<or> k = 3 \<or> k = 4" by arith
    with a show "sorted (?T ! k)" by (auto simp: allotted_def)
  qed
  note X = fits_range [OF f(1) [unfolded x] r(1) [unfolded x]]
  note Y = fits_range [OF f(2) [unfolded y] r(2) [unfolded y]]
  from X Y have K: "nat k < 5" "nat k' < 5"
    and I: "Suc (nat i) < length (?T ! nat k)" "Suc (nat i') < length (?T ! nat k')"
    and lo: "?T ! nat k ! nat i \<le> r" "?T ! nat k' ! nat i' \<le> r"
    and hi: "r < ?T ! nat k ! Suc (nat i)" "r < ?T ! nat k' ! Suc (nat i')"
    by simp_all
  from ranges_ordered(1) [OF c s K I hi(1) lo(2)] ranges_ordered(1) [OF c s K(2,1) I(2,1) hi(2) lo(1)]
  have kk: "nat k = nat k'" by (metis nat_neq_iff)
  from ranges_ordered(2) [OF c s K I hi(1) lo(2) kk]
    ranges_ordered(2) [OF c s K(2,1) I(2,1) hi(2) lo(1) kk [symmetric]]
  have ii: "nat i = nat i'" by (metis nat_neq_iff)
  from X Y have "0 \<le> k" "0 \<le> i" "0 \<le> k'" "0 \<le> i'" by simp_all
  with kk ii have "k = k'" "i = i'"
    by (simp_all add: eq_nat_nat_iff)
  then show ?thesis
    by (simp add: same_entity_def x y)
qed

text \<open>
  C7.  The claim makes the rows written by calls for distinct entities disjoint.  In
  two-patch mode without Neumann boundary, the first function of the interface 0 is
  rerouted to the row \<open>numBasisFunctions[4][1]\<close> = 22, which is also the row that
  \<^verbatim>\<open>insertVertex\<close> writes for the first boundary-vertex function of the vertex 1 (an
  interface-boundary vertex, with the rows 22 to 24): both calls succeed, one after the
  other as well, and the row 22 of \<^verbatim>\<open>D_sparse\<close> then holds coefficients of both.
\<close>

theorem interface_and_vertex_share_a_row:
  "insertInterfaceEdge (basis_function [1, 1 / 10 ^ 12] [0, 1 / 10 ^ 11]) example_interface 0 0
       example_initial
     = Inr (example_initial\<lparr>D_sparse :=
              \<lparr>rows = 87, cols = 50, entries = [((22, 0), 1), ((22, 26), 1 / 10 ^ 11)]\<rparr>\<rparr>)
   \<and> insertVertex (basis_function [0, 1] []) [0, 1] 1 0 0 example_initial
     = Inr (example_initial\<lparr>D_sparse := \<lparr>rows = 87, cols = 50, entries = [((22, 1), 1)]\<rparr>\<rparr>)
   \<and> rows_written example_initial
         (example_initial\<lparr>D_sparse :=
              \<lparr>rows = 87, cols = 50, entries = [((22, 0), 1), ((22, 26), 1 / 10 ^ 11)]\<rparr>\<rparr>)
       \<inter> rows_written example_initial
         (example_initial\<lparr>D_sparse := \<lparr>rows = 87, cols = 50, entries = [((22, 1), 1)]\<rparr>\<rparr>)
       = {22}
   \<and> ebind (insertInterfaceEdge (basis_function [1, 1 / 10 ^ 12] [0, 1 / 10 ^ 11])
              example_interface 0 0 example_initial)
         (insertVertex (basis_function [0, 1] []) [0, 1] 1 0 0)
     = Inr (example_initial\<lparr>D_sparse :=
              \<lparr>rows = 87, cols = 50,
                 entries = [((22, 0), 1), ((22, 26), 1 / 10 ^ 11), ((22, 1), 1)]\<rparr>\<rparr>)
   \<and> kindOfVertex example_initial = [- 1, 1, - 1, 1, - 1, - 1]
   \<and> nbf example_initial 4 1 = Inr 22 \<and> nbf example_initial 4 2 = Inr 25"
proof -
  have "insertInterfaceEdge (basis_function [1, 1 / 10 ^ 12] [0, 1 / 10 ^ 11]) example_interface 0 0
       example_initial
     = Inr (example_initial\<lparr>D_sparse :=
              \<lparr>rows = 87, cols = 50, entries = [((22, 0), 1), ((22, 26), 1 / 10 ^ 11)]\<rparr>\<rparr>)"
    by code_simp
  moreover have "insertVertex (basis_function [0, 1] []) [0, 1] 1 0 0 example_initial
     = Inr (example_initial\<lparr>D_sparse := \<lparr>rows = 87, cols = 50, entries = [((22, 1), 1)]\<rparr>\<rparr>)"
    by code_simp
  moreover have "rows_written example_initial
         (example_initial\<lparr>D_sparse :=
              \<lparr>rows = 87, cols = 50, entries = [((22, 0), 1), ((22, 26), 1 / 10 ^ 11)]\<rparr>\<rparr>)
       \<inter> rows_written example_initial
         (example_initial\<lparr>D_sparse := \<lparr>rows = 87, cols = 50, entries = [((22, 1), 1)]\<rparr>\<rparr>)
       = {22}"
    by (simp add: rows_written_def example_initial_def sparse_resize_def)
  moreover have "ebind (insertInterfaceEdge (basis_function [1, 1 / 10 ^ 12] [0, 1 / 10 ^ 11])
              example_interface 0 0 example_initial)
         (insertVertex (basis_function [0, 1] []) [0, 1] 1 0 0)
     = Inr (example_initial\<lparr>D_sparse :=
              \<lparr>rows = 87, cols = 50,
                 entries = [((22, 0), 1), ((22, 26), 1 / 10 ^ 11), ((22, 1), 1)]\<rparr>\<rparr>)"
    by code_simp
  moreover have "kindOfVertex example_initial = [- 1, 1, - 1, 1, - 1, - 1]
     \<and> nbf example_initial 4 1 = Inr 22 \<and> nbf example_initial 4 2 = Inr 25"
    by code_simp
  ultimately show ?thesis by blast
qed

text \<open>
  C7, for calls that address distinct entities.  Two insertion calls (any mix of \<^verbatim>\<open>insertInterfaceEdge\<close>, \<^verbatim>\<open>insertBoundaryEdge\<close> and
  \<^verbatim>\<open>insertVertex\<close>) that succeed one after the other also succeed in the other order, and
  the two results differ only in the order in which the two blocks of entries were
  appended to \<^verbatim>\<open>D_sparse\<close>.  When the tables are allotted, the slots that the two calls
  address lie within the rows of their entities, and no slot of the one call belongs to
  the entity of a slot of the other, then the rows written by the two calls are disjoint.
  The slot of a rerouted interface function belongs to the vertex 1 or 3.
\<close>

theorem insertion_order_and_rows:
  "(ebind (insert_call a s) (insert_call b) = Inr t \<longrightarrow>
      (\<exists>es es'. call_entries a s = Inr es \<and> call_entries b s = Inr es' \<and>
         entries (D_sparse t) = entries (D_sparse s) @ es @ es' \<and>
         ebind (insert_call b s) (insert_call a)
           = Inr (t\<lparr>D_sparse := (D_sparse t)\<lparr>entries := entries (D_sparse s) @ es' @ es\<rparr>\<rparr>))) \<and>
   (allotted s \<and> insert_call a s = Inr s1 \<and> insert_call b s = Inr s2 \<and>
    call_slots s a = Inr A \<and> call_slots s b = Inr B \<and>
    (\<forall>x \<in> set A \<union> set B. fits s x) \<and> (\<forall>x \<in> set A. \<forall>y \<in> set B. \<not> same_entity x y) \<longrightarrow>
      rows_written s s1 \<inter> rows_written s s2 = {})"
proof (intro conjI impI)
  assume "ebind (insert_call a s) (insert_call b) = Inr t"
  then obtain es es' where es: "call_entries a s = Inr es" and es': "call_entries b s = Inr es'"
    and i: "insert_all (es @ es') s = Inr t"
    unfolding two_calls by blast
  let ?t' = "t\<lparr>D_sparse := (D_sparse t)\<lparr>entries := entries (D_sparse s) @ es' @ es\<rparr>\<rparr>"
  from insert_all_swap(1) [OF i] es es' have "ebind (insert_call b s) (insert_call a) = Inr ?t'"
    unfolding two_calls by blast
  with insert_all_swap(2) [OF i] es es'
  show "\<exists>es es'. call_entries a s = Inr es \<and> call_entries b s = Inr es' \<and>
         entries (D_sparse t) = entries (D_sparse s) @ es @ es' \<and>
         ebind (insert_call b s) (insert_call a)
           = Inr (t\<lparr>D_sparse := (D_sparse t)\<lparr>entries := entries (D_sparse s) @ es' @ es\<rparr>\<rparr>)"
    by blast
next
  assume h: "allotted s \<and> insert_call a s = Inr s1 \<and> insert_call b s = Inr s2 \<and>
    call_slots s a = Inr A \<and> call_slots s b = Inr B \<and>
    (\<forall>x \<in> set A \<union> set B. fits s x) \<and> (\<forall>x \<in> set A. \<forall>y \<in> set B. \<not> same_entity x y)"
  then have al: "allotted s" and a: "insert_call a s = Inr s1" and b: "insert_call b s = Inr s2"
    and A: "call_slots s a = Inr A" and B: "call_slots s b = Inr B"
    and f: "\<And>x. x \<in> set A \<union> set B \<Longrightarrow> fits s x"
    and ne: "\<And>x y. x \<in> set A \<Longrightarrow> y \<in> set B \<Longrightarrow> \<not> same_entity x y"
    by blast+
  from a obtain es where es: "call_entries a s = Inr es" and i1: "insert_all es s = Inr s1"
    unfolding insert_call_plan by blast
  from b obtain es' where es': "call_entries b s = Inr es'" and i2: "insert_all es' s = Inr s2"
    unfolding insert_call_plan by blast
  show "rows_written s s1 \<inter> rows_written s s2 = {}"
  proof (rule ccontr)
    assume "rows_written s s1 \<inter> rows_written s s2 \<noteq> {}"
    then obtain r where "r \<in> (\<lambda>e. fst (fst e)) ` set es" "r \<in> (\<lambda>e. fst (fst e)) ` set es'"
      unfolding rows_written_entries [OF i1] rows_written_entries [OF i2] by blast
    then obtain e e' where e: "e \<in> set es" and e': "e' \<in> set es'"
      and eq: "fst (fst e) = fst (fst e')"
      by blast
    from call_entries_slots [OF es A] e obtain x where x: "x \<in> set A"
      and rx: "slot_row s x = Inr (fst (fst e))" by blast
    from call_entries_slots [OF es' B] e' obtain y where y: "y \<in> set B"
      and ry: "slot_row s y = Inr (fst (fst e'))" by blast
    from slots_disjoint [OF al f f rx ry [folded eq]] x y have "same_entity x y" by simp
    with ne [OF x y] show False by simp
  qed
qed

theorem insertion_order_and_rows_witness:
  "ebind (insert_call (InterfaceEdge (basis_function [1, 1 / 10 ^ 12] [0, 1 / 10 ^ 11])
                         example_interface 0 2) example_initial)
         (insert_call (Vertex (basis_function [1, 1 / 10 ^ 12] [0, 1 / 10 ^ 11]) [0, 1] 3 0 1))
     = Inr (example_initial\<lparr>D_sparse :=
              \<lparr>rows = 87, cols = 50,
                 entries = [((0, 0), 1), ((0, 26), 1 / 10 ^ 11),
                            ((29, 0), 1), ((29, 26), 1 / 10 ^ 11)]\<rparr>\<rparr>)
   \<and> ebind (insert_call (Vertex (basis_function [1, 1 / 10 ^ 12] [0, 1 / 10 ^ 11]) [0, 1] 3 0 1)
              example_initial)
         (insert_call (InterfaceEdge (basis_function [1, 1 / 10 ^ 12] [0, 1 / 10 ^ 11])
                         example_interface 0 2))
     = Inr (example_initial\<lparr>D_sparse :=
              \<lparr>rows = 87, cols = 50,
                 entries = [((29, 0), 1), ((29, 26), 1 / 10 ^ 11),
                            ((0, 0), 1), ((0, 26), 1 / 10 ^ 11)]\<rparr>\<rparr>)
   \<and> allotted example_initial
   \<and> insert_call (InterfaceEdge (basis_function [1, 1 / 10 ^ 12] [0, 1 / 10 ^ 11])
                     example_interface 0 2) example_initial
     = Inr (example_initial\<lparr>D_sparse :=
              \<lparr>rows = 87, cols = 50, entries = [((0, 0), 1), ((0, 26), 1 / 10 ^ 11)]\<rparr>\<rparr>)
   \<and> insert_call (Vertex (basis_function [1, 1 / 10 ^ 12] [0, 1 / 10 ^ 11]) [0, 1] 3 0 1)
        example_initial
     = Inr (example_initial\<lparr>D_sparse :=
              \<lparr>rows = 87, cols = 50, entries = [((29, 0), 1), ((29, 26), 1 / 10 ^ 11)]\<rparr>\<rparr>)
   \<and> call_slots example_initial
        (InterfaceEdge (basis_function [1, 1 / 10 ^ 12] [0, 1 / 10 ^ 11]) example_interface 0 2)
     = Inr [(0, 0, 0)]
   \<and> call_slots example_initial
        (Vertex (basis_function [1, 1 / 10 ^ 12] [0, 1 / 10 ^ 11]) [0, 1] 3 0 1)
     = Inr [(4, 3, 1)]
   \<and> fits example_initial (0, 0, 0) \<and> fits example_initial (4, 3, 1)
   \<and> \<not> same_entity (0, 0, 0) (4 :: int, 3 :: int, 1 :: int)
   \<and> rows_written example_initial
         (example_initial\<lparr>D_sparse :=
              \<lparr>rows = 87, cols = 50, entries = [((0, 0), 1), ((0, 26), 1 / 10 ^ 11)]\<rparr>\<rparr>)
       \<inter> rows_written example_initial
         (example_initial\<lparr>D_sparse :=
              \<lparr>rows = 87, cols = 50, entries = [((29, 0), 1), ((29, 26), 1 / 10 ^ 11)]\<rparr>\<rparr>)
       = {}"
proof -
  let ?a = "InterfaceEdge (basis_function [1, 1 / 10 ^ 12] [0, 1 / 10 ^ 11]) example_interface 0 2"
  let ?b = "Vertex (basis_function [1, 1 / 10 ^ 12] [0, 1 / 10 ^ 11]) [0, 1] 3 0 1"
  let ?s1 = "example_initial\<lparr>D_sparse :=
              \<lparr>rows = 87, cols = 50, entries = [((0, 0), 1), ((0, 26), 1 / 10 ^ 11)]\<rparr>\<rparr>"
  let ?s2 = "example_initial\<lparr>D_sparse :=
              \<lparr>rows = 87, cols = 50, entries = [((29, 0), 1), ((29, 26), 1 / 10 ^ 11)]\<rparr>\<rparr>"
  let ?t = "example_initial\<lparr>D_sparse :=
              \<lparr>rows = 87, cols = 50,
                 entries = [((0, 0), 1), ((0, 26), 1 / 10 ^ 11),
                            ((29, 0), 1), ((29, 26), 1 / 10 ^ 11)]\<rparr>\<rparr>"
  have ab: "ebind (insert_call ?a example_initial) (insert_call ?b) = Inr ?t"
    by code_simp
  have ea: "call_entries ?a example_initial = Inr [((0, 0), 1), ((0, 26), 1 / 10 ^ 11)]"
    by code_simp
  have eb: "call_entries ?b example_initial = Inr [((29, 0), 1), ((29, 26), 1 / 10 ^ 11)]"
    by code_simp
  have al: "allotted example_initial"
    by code_simp
  have a: "insert_call ?a example_initial = Inr ?s1"
    by code_simp
  have b: "insert_call ?b example_initial = Inr ?s2"
    by code_simp
  have A: "call_slots example_initial ?a = Inr [(0, 0, 0)]"
    by code_simp
  have B: "call_slots example_initial ?b = Inr [(4, 3, 1)]"
    by code_simp
  have f: "fits example_initial (0, 0, 0) \<and> fits example_initial (4, 3, 1)"
    by code_simp
  have ne: "\<not> same_entity (0, 0, 0) (4 :: int, 3 :: int, 1 :: int)"
    by (simp add: same_entity_def)
  note t = insertion_order_and_rows [of ?a example_initial ?b ?t ?s1 ?s2 "[(0, 0, 0)]" "[(4, 3, 1)]"]
  from t ab ea eb have "ebind (insert_call ?b example_initial) (insert_call ?a)
     = Inr (example_initial\<lparr>D_sparse :=
              \<lparr>rows = 87, cols = 50,
                 entries = [((29, 0), 1), ((29, 26), 1 / 10 ^ 11),
                            ((0, 0), 1), ((0, 26), 1 / 10 ^ 11)]\<rparr>\<rparr>)"
    by (auto simp: example_initial_def sparse_resize_def)
  moreover from t al a b A B f ne have "rows_written example_initial ?s1
       \<inter> rows_written example_initial ?s2 = {}"
    by simp
  ultimately show ?thesis
    using ab al a b A B f ne by blast
qed

section \<open>The sparse reconstruction\<close>

lemma scale_row_Inr_iff:
  "scale_row M i x = Inr M' \<longleftrightarrow>
     0 \<le> i \<and> i < rows M \<and>
     M' = M\<lparr>entries := map (\<lambda>((r, c), v). ((r, c), if r = i then v * x else v)) (entries M)\<rparr>"
  by (auto simp: scale_row_def)

lemma scale_loop:
  assumes "for_loop js (\<lambda>i r. ebind (elem_at xs (int i)) (scale_row r (int i))) M = Inr M'"
    and "distinct js"
  shows "rows M' = rows M \<and> cols M' = cols M \<and> (\<forall>i \<in> set js. i < length xs) \<and>
         entries M' = map (\<lambda>((r, c), v). ((r, c), if 0 \<le> r \<and> nat r \<in> set js
                                               then v * xs ! nat r else v)) (entries M)"
  using assms
proof (induction js arbitrary: M)
  case Nil
  then show ?case by (simp add: case_prod_unfold)
next
  case (Cons i js)
  let ?body = "\<lambda>i r. ebind (elem_at xs (int i)) (scale_row r (int i))"
  from Cons.prems(1) obtain M1 where b: "?body i M = Inr M1"
    and l: "for_loop js ?body M1 = Inr M'"
    by (cases "?body i M") simp_all
  from b have i: "i < length xs"
    and M1: "M1 = M\<lparr>entries := map (\<lambda>((r, c), v). ((r, c), if r = int i then v * xs ! i else v))
                                  (entries M)\<rparr>"
    by (auto simp: ebind_Inr_iff elem_at_Inr_iff scale_row_Inr_iff)
  from Cons.prems(2) have d: "distinct js" and ni: "i \<notin> set js" by simp_all
  note IH = Cons.IH [OF l d]
  have "entries M' = map (\<lambda>((r, c), v). ((r, c), if 0 \<le> r \<and> nat r \<in> set (i # js)
                                               then v * xs ! nat r else v)) (entries M)"
  proof -
    from IH have "entries M' = map (\<lambda>((r, c), v). ((r, c), if 0 \<le> r \<and> nat r \<in> set js
                                               then v * xs ! nat r else v)) (entries M1)"
      by simp
    also have "\<dots> = map (\<lambda>((r, c), v). ((r, c), if 0 \<le> r \<and> nat r \<in> set (i # js)
                                               then v * xs ! nat r else v)) (entries M)"
      unfolding M1 using ni by (auto simp: case_prod_unfold nat_eq_iff)
    finally show ?thesis .
  qed
  with IH i show ?case by (simp add: M1)
qed

lemma insert_loop:
  assumes "for_loop js (\<lambda>i r. ebind (elem_at v (k + int i)) (sparse_insert r row (int i))) M
             = Inr M'"
  shows "rows M' = rows M \<and> cols M' = cols M \<and>
         (\<forall>i \<in> set js. 0 \<le> k + int i \<and> k + int i < int (length v)) \<and>
         entries M' = entries M @ map (\<lambda>i. ((row, int i), v ! nat (k + int i))) js"
  using assms
proof (induction js arbitrary: M)
  case Nil
  then show ?case by simp
next
  case (Cons i js)
  let ?body = "\<lambda>i r. ebind (elem_at v (k + int i)) (sparse_insert r row (int i))"
  from Cons.prems obtain M1 where b: "?body i M = Inr M1"
    and l: "for_loop js ?body M1 = Inr M'"
    by (cases "?body i M") simp_all
  from b have i: "0 \<le> k + int i" "k + int i < int (length v)"
    and M1: "M1 = M\<lparr>entries := entries M @ [((row, int i), v ! nat (k + int i))]\<rparr>"
    by (auto simp: ebind_Inr_iff elem_at_Inr_iff sparse_insert_Inr_iff)
  from Cons.IH [OF l] i show ?case by (simp add: M1)
qed

lemma sparse_block_Inr_iff:
  "sparse_block M r c = Inr B \<longleftrightarrow>
     0 \<le> r \<and> r \<le> rows M \<and> 0 \<le> c \<and> c \<le> cols M \<and>
     B = \<lparr>rows = r, cols = c, entries = filter (\<lambda>((i, j), v). i < r \<and> j < c) (entries M)\<rparr>"
  by (auto simp: sparse_block_def)

lemma example_inserted_eq:
  "insertInterfaceEdge (basis_function [1, 1 / 10 ^ 12] [0, 1 / 10 ^ 11]) example_interface 0 2
     example_initial = Inr example_inserted"
  by code_simp

lemma example_inserted_solution:
  "constructSparseG1Solution (replicate 87 2) example_inserted
     = Inr \<lparr>rows = 38, cols = 50,
            entries = [((0, 0), 2), ((0, 26), 2 / 10 ^ 11)]
                      @ map (\<lambda>i. ((37, int i), 2)) [0..<50]\<rparr>"
  by code_simp

text \<open>
  C9.  The claim lets \<^verbatim>\<open>constructSparseG1Solution\<close> work without a coefficient vector.
  The function takes the vector \<^verbatim>\<open>solVector\<close>, multiplies the rows of the G1 functions by
  its entries and writes its interior part as the last row of the result: on the system
  with one inserted interface function, the empty vector is rejected, and the vectors of
  87 ones and of 87 twos give different matrices.
\<close>

theorem sparse_solution_needs_the_vector:
  "insertInterfaceEdge (basis_function [1, 1 / 10 ^ 12] [0, 1 / 10 ^ 11]) example_interface 0 2
     example_initial = Inr example_inserted
   \<and> constructSparseG1Solution [] example_inserted = Inl IndexOutOfRange
   \<and> constructSparseG1Solution (replicate 87 1) example_inserted
     = Inr \<lparr>rows = 38, cols = 50,
            entries = [((0, 0), 1), ((0, 26), 1 / 10 ^ 11)]
                      @ map (\<lambda>i. ((37, int i), 1)) [0..<50]\<rparr>
   \<and> constructSparseG1Solution (replicate 87 2) example_inserted
     = Inr \<lparr>rows = 38, cols = 50,
            entries = [((0, 0), 2), ((0, 26), 2 / 10 ^ 11)]
                      @ map (\<lambda>i. ((37, int i), 2)) [0..<50]\<rparr>"
proof -
  have "constructSparseG1Solution [] example_inserted = Inl IndexOutOfRange"
    by code_simp
  moreover have "constructSparseG1Solution (replicate 87 1) example_inserted
     = Inr \<lparr>rows = 38, cols = 50,
            entries = [((0, 0), 1), ((0, 26), 1 / 10 ^ 11)]
                      @ map (\<lambda>i. ((37, int i), 1)) [0..<50]\<rparr>"
    by code_simp
  ultimately show ?thesis
    using example_inserted_eq example_inserted_solution by blast
qed

text \<open>
  C9, with the vector.  When \<^verbatim>\<open>constructSparseG1Solution\<close> returns, the result has
  \<open>dim_G1_Dofs + dim_G1_Bdy + 1\<close> rows and \<open>dim_K\<close> columns; its entries are those of the
  top left block of \<^verbatim>\<open>D_sparse\<close>, each multiplied by the factor of its row
  (\<open>solVector[r]\<close> for \<open>r < dim_G1_Dofs\<close>, the stored boundary value \<open>m_g1[r]\<close> for the next
  \<open>dim_G1_Bdy\<close> rows), followed by the entries \<open>solVector[dim_G1_Dofs + dim_G1_Bdy + i]\<close>
  of the last row, one for each column \<open>i\<close>.  The vector must hold the entries that are
  read.
\<close>

theorem sparse_solution_uses_the_vector:
  "constructSparseG1Solution solVector s = Inr R \<longrightarrow>
     rows R = dim_G1_Dofs s + dim_G1_Bdy s + 1 \<and> cols R = dim_K s \<and>
     entries R =
       map (\<lambda>((r, c), v). ((r, c), v * row_factor solVector s r))
         (filter (\<lambda>((i, j), v). i < dim_G1_Dofs s + dim_G1_Bdy s + 1 \<and> j < dim_K s)
            (entries (D_sparse s)))
       @ map (\<lambda>i. ((dim_G1_Dofs s + dim_G1_Bdy s, int i),
                     solVector ! nat (dim_G1_Dofs s + dim_G1_Bdy s + int i)))
           [0..<nat (dim_K s)] \<and>
     (\<forall>i < dim_G1_Dofs s. 0 \<le> i \<longrightarrow> i < int (length solVector)) \<and>
     (\<forall>i < dim_K s. 0 \<le> i \<longrightarrow>
        dim_G1_Dofs s + dim_G1_Bdy s + i < int (length solVector))"
proof
  assume run: "constructSparseG1Solution solVector s = Inr R"
  let ?dofs = "dim_G1_Dofs s" and ?bdy = "dim_G1_Bdy s"
  from run obtain r0 r1 r2 where
    r0: "sparse_block (D_sparse s) (?dofs + ?bdy + 1) (dim_K s) = Inr r0"
    and r1: "for_loop [0..<nat ?dofs] (\<lambda>i r.
               ebind (elem_at solVector (int i)) (scale_row r (int i))) r0 = Inr r1"
    and r2: "for_loop [nat ?dofs..<nat (?dofs + ?bdy)] (\<lambda>i r.
               ebind (elem_at (m_g1 s) (int i)) (scale_row r (int i))) r1 = Inr r2"
    and r3: "for_loop [0..<nat (dim_K s)] (\<lambda>i r.
        ebind (elem_at solVector (?dofs + ?bdy + int i)) (sparse_insert r (?dofs + ?bdy) (int i))) r2
          = Inr R"
    unfolding constructSparseG1Solution_def Let_def
    by (elim ebind_InrE) (rule that, assumption+)
  note b = r0 [unfolded sparse_block_Inr_iff]
  note s1 = scale_loop [OF r1 distinct_upt]
  note s2 = scale_loop [OF r2 distinct_upt]
  note s3 = insert_loop [OF r3]
  have e2: "entries r2 = map (\<lambda>((r, c), v). ((r, c), v * row_factor solVector s r)) (entries r0)"
  proof -
    from s2 have "entries r2 = map (\<lambda>((r, c), v). ((r, c),
          if 0 \<le> r \<and> nat r \<in> set [nat ?dofs..<nat (?dofs + ?bdy)]
          then v * m_g1 s ! nat r else v)) (entries r1)"
      by simp
    also from s1 have "entries r1 = map (\<lambda>((r, c), v). ((r, c),
          if 0 \<le> r \<and> nat r \<in> set [0..<nat ?dofs]
          then v * solVector ! nat r else v)) (entries r0)"
      by simp
    finally show ?thesis
      by (auto simp: case_prod_unfold row_factor_def)
  qed
  have "rows R = ?dofs + ?bdy + 1 \<and> cols R = dim_K s"
    using s3 s2 s1 b by simp
  moreover have "entries R =
       map (\<lambda>((r, c), v). ((r, c), v * row_factor solVector s r))
         (filter (\<lambda>((i, j), v). i < ?dofs + ?bdy + 1 \<and> j < dim_K s) (entries (D_sparse s)))
       @ map (\<lambda>i. ((?dofs + ?bdy, int i), solVector ! nat (?dofs + ?bdy + int i)))
           [0..<nat (dim_K s)]"
    using s3 e2 b by simp
  moreover have "\<forall>i < ?dofs. 0 \<le> i \<longrightarrow> i < int (length solVector)"
  proof (intro allI impI)
    fix i :: int assume "i < ?dofs" "0 \<le> i"
    then have "nat i \<in> set [0..<nat ?dofs]" by simp
    with s1 have "nat i < length solVector" by blast
    with \<open>0 \<le> i\<close> show "i < int (length solVector)" by simp
  qed
  moreover have "\<forall>i < dim_K s. 0 \<le> i \<longrightarrow> ?dofs + ?bdy + i < int (length solVector)"
  proof (intro allI impI)
    fix i :: int assume "i < dim_K s" "0 \<le> i"
    then have "nat i \<in> set [0..<nat (dim_K s)]" by simp
    with s3 have "?dofs + ?bdy + int (nat i) < int (length solVector)" by blast
    with \<open>0 \<le> i\<close> show "?dofs + ?bdy + i < int (length solVector)" by simp
  qed
  ultimately show "rows R = ?dofs + ?bdy + 1 \<and> cols R = dim_K s \<and>
     entries R =
       map (\<lambda>((r, c), v). ((r, c), v * row_factor solVector s r))
         (filter (\<lambda>((i, j), v). i < ?dofs + ?bdy + 1 \<and> j < dim_K s) (entries (D_sparse s)))
       @ map (\<lambda>i. ((?dofs + ?bdy, int i), solVector ! nat (?dofs + ?bdy + int i)))
           [0..<nat (dim_K s)] \<and>
     (\<forall>i < ?dofs. 0 \<le> i \<longrightarrow> i < int (length solVector)) \<and>
     (\<forall>i < dim_K s. 0 \<le> i \<longrightarrow> ?dofs + ?bdy + i < int (length solVector))"
    by blast
qed

theorem sparse_solution_uses_the_vector_witness:
  "constructSparseG1Solution (replicate 87 2) example_inserted
     = Inr \<lparr>rows = 38, cols = 50,
            entries = [((0, 0), 2), ((0, 26), 2 / 10 ^ 11)]
                      @ map (\<lambda>i. ((37, int i), 2)) [0..<50]\<rparr>
   \<and> dim_G1_Dofs example_inserted = 13 \<and> dim_G1_Bdy example_inserted = 24
   \<and> dim_K example_inserted = 50
   \<and> row_factor (replicate 87 2) example_inserted 0 = 2
   \<and> [((0, 0), 2), ((0, 26), 2 / 10 ^ 11)] @ map (\<lambda>i. ((37, int i), 2)) [0..<50]
     = map (\<lambda>((r, c), v). ((r, c), v * row_factor (replicate 87 2) example_inserted r))
         (filter (\<lambda>((i, j), v). i < dim_G1_Dofs example_inserted + dim_G1_Bdy example_inserted + 1
                                \<and> j < dim_K example_inserted)
            (entries (D_sparse example_inserted)))
       @ map (\<lambda>i. ((dim_G1_Dofs example_inserted + dim_G1_Bdy example_inserted, int i),
                     replicate 87 2
                       ! nat (dim_G1_Dofs example_inserted + dim_G1_Bdy example_inserted + int i)))
           [0..<nat (dim_K example_inserted)]
   \<and> dim_G1_Dofs example_inserted + dim_G1_Bdy example_inserted + 49
       < int (length (replicate 87 (2 :: real)))"
proof -
  have d: "dim_G1_Dofs example_inserted = 13 \<and> dim_G1_Bdy example_inserted = 24
     \<and> dim_K example_inserted = 50"
    by (simp add: example_inserted_def example_initial_def example_system_def)
  have f: "row_factor (replicate 87 2) example_inserted 0 = 2"
    by (simp add: row_factor_def d)
  note t = sparse_solution_uses_the_vector [rule_format, OF example_inserted_solution]
  from t have "entries \<lparr>rows = 38, cols = 50,
            entries = [((0, 0), 2), ((0, 26), 2 / 10 ^ 11)]
                      @ map (\<lambda>i. ((37, int i), 2 :: real)) [0..<50]\<rparr>
     = map (\<lambda>((r, c), v). ((r, c), v * row_factor (replicate 87 2) example_inserted r))
         (filter (\<lambda>((i, j), v). i < dim_G1_Dofs example_inserted + dim_G1_Bdy example_inserted + 1
                                \<and> j < dim_K example_inserted)
            (entries (D_sparse example_inserted)))
       @ map (\<lambda>i. ((dim_G1_Dofs example_inserted + dim_G1_Bdy example_inserted, int i),
                     replicate 87 2
                       ! nat (dim_G1_Dofs example_inserted + dim_G1_Bdy example_inserted + int i)))
           [0..<nat (dim_K example_inserted)]"
    by blast
  then have e: "[((0, 0), 2), ((0, 26), 2 / 10 ^ 11)] @ map (\<lambda>i. ((37, int i), 2)) [0..<50]
     = map (\<lambda>((r, c), v). ((r, c), v * row_factor (replicate 87 2) example_inserted r))
         (filter (\<lambda>((i, j), v). i < dim_G1_Dofs example_inserted + dim_G1_Bdy example_inserted + 1
                                \<and> j < dim_K example_inserted)
            (entries (D_sparse example_inserted)))
       @ map (\<lambda>i. ((dim_G1_Dofs example_inserted + dim_G1_Bdy example_inserted, int i),
                     replicate 87 2
                       ! nat (dim_G1_Dofs example_inserted + dim_G1_Bdy example_inserted + int i)))
           [0..<nat (dim_K example_inserted)]"
    by (simp only: sparse.simps)
  from t have "\<forall>i < dim_K example_inserted. 0 \<le> i \<longrightarrow>
      dim_G1_Dofs example_inserted + dim_G1_Bdy example_inserted + i
        < int (length (replicate 87 (2 :: real)))"
    by blast
  moreover have "(49 :: int) < dim_K example_inserted" "(0 :: int) \<le> 49"
    by (simp_all add: d)
  ultimately have "dim_G1_Dofs example_inserted + dim_G1_Bdy example_inserted + 49
        < int (length (replicate 87 (2 :: real)))"
    by blast
  with d f e example_inserted_solution show ?thesis
    by blast
qed

section \<open>The interior identity of finalize\<close>













section \<open>The reduced system of solve\<close>

lemma mat_Nil: "entries M = [] \<Longrightarrow> mat M i j = 0"
  by (simp add: mat_def)









lemma sparse_transpose_simps [simp]:
  "rows (sparse_transpose M) = cols M" "cols (sparse_transpose M) = rows M"
  by (simp_all add: sparse_transpose_def)





end
